(* ===== verification/Prelude.thy ===== *)
theory Prelude
  imports Main "HOL-Library.Word" "HOL-Library.AList" "HOL-Library.Char_ord" "HOL-Library.List_Lexorder"
begin

text \<open>
  Shared vocabulary of the development: the machine integers and byte slices of the Go code, run-time
  panics as values, the fragment of the Go standard library the sources call (\<open>fmt.Sprintf\<close> with
  \<open>%s\<close> and \<open>%d\<close>, \<open>strings.Split\<close>, \<open>strconv.Atoi\<close>, slice indexing), and the generic lemmas on
  lists, words, sums and association lists that the component theories use.
\<close>

unbundle bit_operations_syntax

section \<open>Types\<close>

type_synonym byte = "8 word"
type_synonym u16 = "16 word"
type_synonym u32 = "32 word"
type_synonym u64 = "64 word"
type_synonym bytes = "byte list"

text \<open>A \<open>net.Conn\<close> is named by its \<open>RemoteAddr().String()\<close>; \<open>CONN_ID\<close> is that string.\<close>

type_synonym conn = string
type_synonym CONN_ID = string
type_synonym REMOTE_ID = string

text \<open>Run-time panics of the Go code, explicit calls of \<open>panic\<close>, and \<open>Hang\<close>: a call that never returns.\<close>

datatype panic = IndexOutOfRange | NilDeref | TypeAssertion | DivideByZero | ExplicitPanic string | Hang

type_synonym 'a res = "panic + 'a"

definition res_bind :: "'a res \<Rightarrow> ('a \<Rightarrow> 'b res) \<Rightarrow> 'b res" where
  "res_bind m f = (case m of Inl e \<Rightarrow> Inl e | Inr x \<Rightarrow> f x)"

named_theorems msf_defs \<open>definitions of the operations, unfolded by the functional lemmas\<close>
named_theorems inv_intros \<open>preservation of the component invariants\<close>
named_theorems frame_simps \<open>fields an operation leaves alone\<close>

lemma res_bind_simps [simp]:
  "res_bind (Inl e) f = Inl e"
  "res_bind (Inr x) f = f x"
  by (simp_all add: res_bind_def)

lemma res_bind_Inr_iff: "res_bind m f = Inr y \<longleftrightarrow> (\<exists>x. m = Inr x \<and> f x = Inr y)"
  by (cases m) auto

section \<open>Strings of the Go standard library\<close>

text \<open>Go strings are byte sequences; a HOL \<open>char\<close> is a byte.\<close>

definition bytes_of_string :: "string \<Rightarrow> bytes" where
  "bytes_of_string s = map of_char s"

definition string_of_bytes :: "bytes \<Rightarrow> string" where
  "string_of_bytes b = map (\<lambda>x. char_of (unat x)) b"

text \<open>\<open>fmt.Sprintf("%d", n)\<close>.\<close>

definition digit_char :: "nat \<Rightarrow> char" where
  "digit_char d = char_of (48 + d)"

fun show_nat :: "nat \<Rightarrow> string" where
  "show_nat n = (if n < 10 then [digit_char n] else show_nat (n div 10) @ [digit_char (n mod 10)])"

declare show_nat.simps [simp del]

definition show_int :: "int \<Rightarrow> string" where
  "show_int i = (if i < 0 then CHR ''-'' # show_nat (nat (- i)) else show_nat (nat i))"

text \<open>\<open>strings.Split(s, sep)\<close> for a separator of one byte.\<close>

fun split_on :: "char \<Rightarrow> string \<Rightarrow> string list" where
  "split_on c [] = [[]]"
| "split_on c (x # xs) =
     (if x = c then [] # split_on c xs
      else (case split_on c xs of [] \<Rightarrow> [[x]] | y # ys \<Rightarrow> (x # y) # ys))"

text \<open>
  \<open>strconv.Atoi\<close>: an optional sign and at least one decimal digit. The flag is false on an error;
  the value is then 0 for a syntax error and the nearest 64-bit integer for a range error.
\<close>

definition is_digit :: "char \<Rightarrow> bool" where
  "is_digit c \<longleftrightarrow> 48 \<le> (of_char c :: nat) \<and> (of_char c :: nat) \<le> 57"

definition digits_value :: "string \<Rightarrow> nat" where
  "digits_value s = foldl (\<lambda>a c. 10 * a + (of_char c - 48)) 0 s"

definition int64_max :: int where "int64_max = 2 ^ 63 - 1"
definition int64_min :: int where "int64_min = - (2 ^ 63)"

definition atoi_signed :: "bool \<Rightarrow> string \<Rightarrow> int \<times> bool" where
  "atoi_signed neg s =
     (if s = [] \<or> \<not> list_all is_digit s then (0, False)
      else let v = (if neg then - int (digits_value s) else int (digits_value s)) in
        if v > int64_max then (int64_max, False)
        else if v < int64_min then (int64_min, False)
        else (v, True))"

definition Atoi :: "string \<Rightarrow> int \<times> bool" where
  "Atoi s = (case s of
       [] \<Rightarrow> (0, False)
     | c # cs \<Rightarrow> if c = CHR ''-'' then atoi_signed True cs
                 else if c = CHR ''+'' then atoi_signed False cs
                 else atoi_signed False s)"

text \<open>Indexing a slice: \<open>xs[i]\<close> panics out of range.\<close>

definition index :: "'a list \<Rightarrow> nat \<Rightarrow> 'a res" where
  "index xs i = (if i < length xs then Inr (xs ! i) else Inl IndexOutOfRange)"

section \<open>Lemmas\<close>

lemma unat_of_char_byte [simp]: "unat (of_char c :: byte) = of_char c"
proof -
  have "unat (of_char c :: byte) = unat (of_nat (of_char c) :: byte)"
    by (simp add: of_nat_of_char)
  also have "\<dots> = take_bit 8 (of_char c)"
    unfolding unsigned_of_nat by simp
  also have "\<dots> = of_char c"
    by (simp add: take_bit_eq_mod)
  finally show ?thesis .
qed

lemma string_of_bytes_of_string [simp]: "string_of_bytes (bytes_of_string s) = s"
  by (induction s) (auto simp: string_of_bytes_def bytes_of_string_def)

lemma length_bytes_of_string [simp]: "length (bytes_of_string s) = length s"
  by (simp add: bytes_of_string_def)

lemma index_simps [simp]:
  "i < length xs \<Longrightarrow> index xs i = Inr (xs ! i)"
  "length xs \<le> i \<Longrightarrow> index xs i = Inl IndexOutOfRange"
  by (simp_all add: index_def)

lemma list_update_numeral_Cons [simp]:
  "(x # xs)[numeral k := v] = x # xs[pred_numeral k := v]"
  by (simp add: numeral_eq_Suc)

subsection \<open>Splitting\<close>

lemma split_on_not_Nil [simp]: "split_on c s \<noteq> []"
  by (induction s) (auto split: list.splits)

lemma split_on_free: "c \<notin> set s \<Longrightarrow> split_on c s = [s]"
  by (induction s) auto

lemma split_on_append: "c \<notin> set a \<Longrightarrow> split_on c (a @ c # b) = a # split_on c b"
  by (induction a) auto

subsection \<open>Decimal numbers\<close>

lemma digit_char_inverse: "d < 10 \<Longrightarrow> (of_char (digit_char d) :: nat) = 48 + d"
  by (simp add: digit_char_def)

lemma is_digit_digit_char: "d < 10 \<Longrightarrow> is_digit (digit_char d)"
  by (simp add: is_digit_def digit_char_inverse)

lemma show_nat_not_Nil [simp]: "show_nat n \<noteq> []"
  by (subst show_nat.simps) simp

lemma show_nat_digits: "list_all is_digit (show_nat n)"
proof (induction n rule: show_nat.induct)
  case (1 n)
  then show ?case
    by (subst show_nat.simps) (auto simp: is_digit_digit_char)
qed

lemma digits_value_show_nat [simp]: "digits_value (show_nat n) = n"
proof (induction n rule: show_nat.induct)
  case (1 n)
  show ?case
  proof (cases "n < 10")
    case True
    then show ?thesis
      by (subst show_nat.simps) (simp add: digits_value_def digit_char_inverse)
  next
    case False
    with 1 have "digits_value (show_nat (n div 10)) = n div 10" by simp
    then have "digits_value (show_nat (n div 10) @ [digit_char (n mod 10)]) = n"
      by (simp add: digits_value_def digit_char_inverse)
    with False show ?thesis by (subst show_nat.simps) simp
  qed
qed

lemma show_nat_no_sign: "c \<in> set (show_nat n) \<Longrightarrow> is_digit c"
  using show_nat_digits [of n] by (auto simp: list_all_iff)

lemma not_digit_chars [simp]:
  "\<not> is_digit CHR ''-''" "\<not> is_digit CHR ''+''" "\<not> is_digit CHR ''/''" "\<not> is_digit CHR '':''"
  by (simp_all add: is_digit_def)

lemma show_nat_separators [simp]:
  "CHR ''/'' \<notin> set (show_nat n)" "CHR '':'' \<notin> set (show_nat n)" "CHR ''-'' \<notin> set (show_nat n)"
  using show_nat_no_sign by fastforce+

lemma show_int_separators [simp]:
  "CHR ''/'' \<notin> set (show_int i)" "CHR '':'' \<notin> set (show_int i)"
  by (auto simp: show_int_def)

lemma Atoi_show_nat:
  assumes "int n \<le> int64_max"
  shows "Atoi (show_nat n) = (int n, True)"
proof -
  obtain c cs where s: "show_nat n = c # cs" by (cases "show_nat n") auto
  then have "is_digit c" using show_nat_no_sign [of c n] by simp
  then have "c \<noteq> CHR ''-''" "c \<noteq> CHR ''+''" by auto
  then have "Atoi (show_nat n) = atoi_signed False (show_nat n)"
    by (simp add: Atoi_def s)
  also have "\<dots> = (int n, True)"
    using assms by (simp add: atoi_signed_def show_nat_digits int64_min_def)
  finally show ?thesis .
qed

lemma Atoi_show_int:
  assumes "int64_min \<le> i" "i \<le> int64_max"
  shows "Atoi (show_int i) = (i, True)"
proof (cases "i < 0")
  case True
  with assms show ?thesis
    by (simp add: show_int_def Atoi_def atoi_signed_def show_nat_digits int64_max_def)
next
  case False
  with assms Atoi_show_nat [of "nat i"] show ?thesis by (simp add: show_int_def)
qed

end
