(* ===== verification/Utils.thy ===== *)
theory Utils
  imports Prelude
begin

text \<open>
  \<open>ms_framework/msf_utils.go\<close>: the big-endian readers and writers of integers and strings on byte
  slices, and the per-process identifier generator \<open>GenGid\<close>. A writer mutates its slice; the model
  returns the slice after the call. Indexing past the end of the slice panics.

  Signed integers are modelled by their values (\<open>int\<close>): the Go conversions between the signed and
  unsigned types of one width are \<open>sint\<close> and \<open>word_of_int\<close>. The Go type \<open>int\<close> has 64 bits, so
  \<open>int(uint32)\<close> is \<open>uint\<close>.
\<close>

definition VERTIFY_SECRET_KEY :: string where
  "VERTIFY_SECRET_KEY = ''a58a8b450770a3f42515e08d7125d76b''"

section \<open>Readers\<close>

definition ReadUint8 :: "bytes \<Rightarrow> byte res" where
  "ReadUint8 buf = index buf 0"

definition ReadInt8 :: "bytes \<Rightarrow> int res" where
  "ReadInt8 buf = res_bind (ReadUint8 buf) (\<lambda>v. Inr (sint v))"

definition ReadUint16 :: "bytes \<Rightarrow> u16 res" where
  "ReadUint16 buf =
     (if length buf < 2 then Inl IndexOutOfRange
      else Inr (push_bit 8 (ucast (buf ! 0)) OR ucast (buf ! 1)))"

definition ReadInt16 :: "bytes \<Rightarrow> int res" where
  "ReadInt16 buf = res_bind (ReadUint16 buf) (\<lambda>v. Inr (sint v))"

definition ReadUint32 :: "bytes \<Rightarrow> u32 res" where
  "ReadUint32 buf =
     (if length buf < 4 then Inl IndexOutOfRange
      else Inr (push_bit 24 (ucast (buf ! 0)) OR push_bit 16 (ucast (buf ! 1)) OR
                push_bit 8 (ucast (buf ! 2)) OR ucast (buf ! 3)))"

definition ReadInt32 :: "bytes \<Rightarrow> int res" where
  "ReadInt32 buf = res_bind (ReadUint32 buf) (\<lambda>v. Inr (sint v))"

definition ReadInt :: "bytes \<Rightarrow> int res" where
  "ReadInt buf = res_bind (ReadUint32 buf) (\<lambda>v. Inr (uint v))"

definition ReadUint64 :: "bytes \<Rightarrow> u64 res" where
  "ReadUint64 buf =
     (if length buf < 8 then Inl IndexOutOfRange
      else Inr (push_bit 56 (ucast (buf ! 0)) OR push_bit 48 (ucast (buf ! 1)) OR
                push_bit 40 (ucast (buf ! 2)) OR push_bit 32 (ucast (buf ! 3)) OR
                push_bit 24 (ucast (buf ! 4)) OR push_bit 16 (ucast (buf ! 5)) OR
                push_bit 8 (ucast (buf ! 6)) OR ucast (buf ! 7)))"

definition ReadInt64 :: "bytes \<Rightarrow> int res" where
  "ReadInt64 buf = res_bind (ReadUint64 buf) (\<lambda>v. Inr (sint v))"

text \<open>\<open>ReadString\<close> returns an error value, not a panic, when no terminating zero byte is found.\<close>

fun find_zero :: "bytes \<Rightarrow> nat option" where
  "find_zero [] = None"
| "find_zero (b # bs) = (if b = 0 then Some 0 else map_option Suc (find_zero bs))"

definition ReadString :: "bytes \<Rightarrow> string \<times> string option" where
  "ReadString buf = (case find_zero buf of
       None \<Rightarrow> ([], Some ''error string: without end byte'')
     | Some idx \<Rightarrow> (string_of_bytes (take idx buf), None))"

section \<open>Writers\<close>

definition low_byte :: "'a::len word \<Rightarrow> byte" where
  "low_byte v = ucast (v AND 0xFF)"

definition WriteUint8 :: "bytes \<Rightarrow> byte \<Rightarrow> bytes res" where
  "WriteUint8 buf v = (if length buf < 1 then Inl IndexOutOfRange else Inr (buf[0 := low_byte v]))"

definition WriteInt8 :: "bytes \<Rightarrow> int \<Rightarrow> bytes res" where
  "WriteInt8 buf v = WriteUint8 buf (word_of_int v)"

definition WriteUint16 :: "bytes \<Rightarrow> u16 \<Rightarrow> bytes res" where
  "WriteUint16 buf v =
     (if length buf < 2 then Inl IndexOutOfRange
      else Inr (buf[0 := low_byte (drop_bit 8 v), 1 := low_byte v]))"

definition WriteInt16 :: "bytes \<Rightarrow> int \<Rightarrow> bytes res" where
  "WriteInt16 buf v = WriteUint16 buf (word_of_int v)"

definition WriteUint32 :: "bytes \<Rightarrow> u32 \<Rightarrow> bytes res" where
  "WriteUint32 buf v =
     (if length buf < 4 then Inl IndexOutOfRange
      else Inr (buf[0 := low_byte (drop_bit 24 v), 1 := low_byte (drop_bit 16 v),
                    2 := low_byte (drop_bit 8 v), 3 := low_byte v]))"

definition WriteInt32 :: "bytes \<Rightarrow> int \<Rightarrow> bytes res" where
  "WriteInt32 buf v = WriteUint32 buf (word_of_int v)"

definition WriteInt :: "bytes \<Rightarrow> int \<Rightarrow> bytes res" where
  "WriteInt buf v = WriteUint32 buf (word_of_int v)"

definition WriteUint64 :: "bytes \<Rightarrow> u64 \<Rightarrow> bytes res" where
  "WriteUint64 buf v =
     (if length buf < 8 then Inl IndexOutOfRange
      else Inr (buf[0 := low_byte (drop_bit 56 v), 1 := low_byte (drop_bit 48 v),
                    2 := low_byte (drop_bit 40 v), 3 := low_byte (drop_bit 32 v),
                    4 := low_byte (drop_bit 24 v), 5 := low_byte (drop_bit 16 v),
                    6 := low_byte (drop_bit 8 v), 7 := low_byte v]))"

definition WriteInt64 :: "bytes \<Rightarrow> int \<Rightarrow> bytes res" where
  "WriteInt64 buf v = WriteUint64 buf (word_of_int v)"

text \<open>\<open>copy(dst, src)\<close> copies the smaller of the two lengths.\<close>

definition go_copy :: "'a list \<Rightarrow> 'a list \<Rightarrow> 'a list" where
  "go_copy dst src = take (length dst) src @ drop (length src) dst"

definition WriteString :: "bytes \<Rightarrow> string \<Rightarrow> bytes res" where
  "WriteString buf v =
     (let buf' = go_copy buf (bytes_of_string v) in
      if length v < length buf' then Inr (buf'[length v := 0]) else Inl IndexOutOfRange)"

section \<open>Identifiers\<close>

text \<open>\<open>GenGid\<close> returns the new value of the process-wide counter; the state is that counter.\<close>

definition GenGid :: "u32 \<Rightarrow> u32 \<times> u32" where
  "GenGid globalGID = (let g = globalGID + 1 in (g, g))"

fun gen_gids :: "nat \<Rightarrow> u32 \<Rightarrow> u32 list" where
  "gen_gids 0 g = []"
| "gen_gids (Suc n) g = (case GenGid g of (r, g') \<Rightarrow> r # gen_gids n g')"

section \<open>Round trips\<close>

lemma bit_low_byte: "bit (low_byte (v :: 'a::len word)) n \<longleftrightarrow> n < 8 \<and> bit v n"
proof -
  have eq: "(0xFF :: 'a word) = mask 8" by (simp add: mask_eq_exp_minus_1)
  have "bit (0xFF :: 'a word) n \<longleftrightarrow> n < LENGTH('a) \<and> n < 8"
    unfolding eq by (simp only: bit_mask_iff possible_bit_word)
  then show ?thesis
    by (auto simp: low_byte_def bit_simps dest: bit_imp_le_length)
qed

lemma low_byte_id [simp]: "low_byte (v :: byte) = v"
  by (rule bit_word_eqI) (simp add: bit_low_byte)

text \<open>A byte taken at position \<open>k\<close> and shifted back keeps exactly the bits \<open>k\<close> to \<open>k + 7\<close>.\<close>

lemma bit_byte_at:
  "bit (push_bit k (ucast (low_byte (drop_bit k v))) :: 'a::len word) n \<longleftrightarrow>
     k \<le> n \<and> n < k + 8 \<and> bit (v :: 'a word) n"
  by (auto simp: bit_simps bit_low_byte dest: bit_imp_le_length)

lemma bit_byte_at_0:
  "bit (ucast (low_byte v) :: 'a::len word) n \<longleftrightarrow> n < 8 \<and> bit (v :: 'a word) n"
  using bit_byte_at [of 0 v n] by simp

lemma join16:
  "push_bit 8 (ucast (low_byte (drop_bit 8 v))) OR ucast (low_byte v) = (v :: u16)"
  by (rule bit_word_eqI) (auto simp only: bit_or_iff bit_byte_at bit_byte_at_0, simp)

lemma join32:
  "push_bit 24 (ucast (low_byte (drop_bit 24 v))) OR push_bit 16 (ucast (low_byte (drop_bit 16 v))) OR
   push_bit 8 (ucast (low_byte (drop_bit 8 v))) OR ucast (low_byte v) = (v :: u32)"
  by (rule bit_word_eqI) (auto simp only: bit_or_iff bit_byte_at bit_byte_at_0, simp)

lemma join64:
  "push_bit 56 (ucast (low_byte (drop_bit 56 v))) OR push_bit 48 (ucast (low_byte (drop_bit 48 v))) OR
   push_bit 40 (ucast (low_byte (drop_bit 40 v))) OR push_bit 32 (ucast (low_byte (drop_bit 32 v))) OR
   push_bit 24 (ucast (low_byte (drop_bit 24 v))) OR push_bit 16 (ucast (low_byte (drop_bit 16 v))) OR
   push_bit 8 (ucast (low_byte (drop_bit 8 v))) OR ucast (low_byte v) = (v :: u64)"
  by (rule bit_word_eqI) (auto simp only: bit_or_iff bit_byte_at bit_byte_at_0, simp)

lemma WriteUint16_eq:
  "2 \<le> length buf \<Longrightarrow>
     WriteUint16 buf v = Inr (low_byte (drop_bit 8 v) # low_byte v # drop 2 buf)"
  by (cases buf; cases "tl buf") (auto simp: WriteUint16_def)

lemma ReadUint16_Cons [simp]:
  "ReadUint16 (a # b # bs) = Inr (push_bit 8 (ucast a) OR ucast b)"
  by (simp add: ReadUint16_def)

lemma ReadUint16_WriteUint16:
  "WriteUint16 buf v = Inr buf' \<Longrightarrow> ReadUint16 buf' = Inr v"
  by (cases "buf = []") (auto simp: WriteUint16_def ReadUint16_def join16 split: if_splits)

lemma ReadUint32_WriteUint32:
  "WriteUint32 buf v = Inr buf' \<Longrightarrow> ReadUint32 buf' = Inr v"
  by (cases "buf = []") (auto simp: WriteUint32_def ReadUint32_def join32 split: if_splits)

lemma ReadUint64_WriteUint64:
  "WriteUint64 buf v = Inr buf' \<Longrightarrow> ReadUint64 buf' = Inr v"
  by (cases "buf = []") (auto simp: WriteUint64_def ReadUint64_def join64 split: if_splits)

lemma sint_word_of_int_id:
  assumes "- (2 ^ (LENGTH('a) - 1)) \<le> v" "v < 2 ^ (LENGTH('a) - 1)"
  shows "sint (word_of_int v :: 'a::len word) = v"
  using assms by (simp add: sint_sbintrunc' signed_take_bit_int_eq_self)

lemmas uint_codec = ReadUint16_WriteUint16 ReadUint32_WriteUint32 ReadUint64_WriteUint64

lemma WriteUint_frame:
  "WriteUint8 buf a = Inr b1 \<Longrightarrow> drop 1 b1 = drop 1 buf"
  "WriteUint16 buf b = Inr b2 \<Longrightarrow> drop 2 b2 = drop 2 buf"
  "WriteUint32 buf c = Inr b3 \<Longrightarrow> drop 4 b3 = drop 4 buf"
  "WriteUint64 buf d = Inr b4 \<Longrightarrow> drop 8 b4 = drop 8 buf"
  by (auto simp: WriteUint8_def WriteUint16_def WriteUint32_def WriteUint64_def split: if_splits)

lemma ReadUint8_WriteUint8: "WriteUint8 buf a = Inr b1 \<Longrightarrow> ReadUint8 b1 = Inr a"
  by (cases "buf = []") (auto simp: WriteUint8_def ReadUint8_def)

text \<open>
  Whenever an integer writer of \<open>msf_utils.go\<close> returns, the matching reader gives back
  the value written, at each of the widths 8, 16, 32 and 64 bits, and no byte after the written ones
  has changed.
\<close>

theorem unsigned_codec_roundtrip:
  "(WriteUint8 buf a = Inr b1 \<longrightarrow> ReadUint8 b1 = Inr a \<and> drop 1 b1 = drop 1 buf) \<and>
   (WriteUint16 buf b = Inr b2 \<longrightarrow> ReadUint16 b2 = Inr b \<and> drop 2 b2 = drop 2 buf) \<and>
   (WriteUint32 buf c = Inr b3 \<longrightarrow> ReadUint32 b3 = Inr c \<and> drop 4 b3 = drop 4 buf) \<and>
   (WriteUint64 buf d = Inr b4 \<longrightarrow> ReadUint64 b4 = Inr d \<and> drop 8 b4 = drop 8 buf)"
  by (blast intro: uint_codec ReadUint8_WriteUint8 WriteUint_frame)

theorem unsigned_codec_roundtrip_witness:
  "WriteUint16 [7, 7, 7] 258 = Inr [1, 2, 7] \<and> ReadUint16 [1, 2, 7] = Inr 258 \<and>
   WriteUint32 [0, 0, 0, 0, 9] 0x01020304 = Inr [1, 2, 3, 4, 9] \<and>
   ReadUint32 [1, 2, 3, 4, 9] = Inr 0x01020304"
proof -
  have w16: "WriteUint16 [7, 7, 7] 258 = Inr [1, 2, 7]"
    by (simp add: WriteUint16_def low_byte_def)
  have w32: "WriteUint32 [0, 0, 0, 0, 9] 0x01020304 = Inr [1, 2, 3, 4, 9]"
    by (simp add: WriteUint32_def low_byte_def)
  show ?thesis
    using w16 w32 unsigned_codec_roundtrip [where buf = "[7, 7, 7]" and b = 258 and ?b2.0 = "[1, 2, 7]"]
      unsigned_codec_roundtrip [where buf = "[0, 0, 0, 0, 9]" and c = "0x01020304" and ?b3.0 = "[1, 2, 3, 4, 9]"]
    by blast
qed

text \<open>
  The signed pairs of 8, 16, 32 and 64 bits round-trip on their whole range. The pair
  \<open>WriteInt\<close>/\<open>ReadInt\<close> stores a 64-bit \<open>int\<close> in 32 bits and reads it back unsigned: it returns the
  value modulo \<open>2 ^ 32\<close>, so it loses the sign of every negative value.
\<close>

theorem signed_codec_roundtrip:
  "(- (2 ^ 7) \<le> i \<and> i < 2 ^ 7 \<and> WriteInt8 buf i = Inr b1 \<longrightarrow> ReadInt8 b1 = Inr i) \<and>
   (- (2 ^ 15) \<le> j \<and> j < 2 ^ 15 \<and> WriteInt16 buf j = Inr b2 \<longrightarrow> ReadInt16 b2 = Inr j) \<and>
   (- (2 ^ 31) \<le> k \<and> k < 2 ^ 31 \<and> WriteInt32 buf k = Inr b3 \<longrightarrow> ReadInt32 b3 = Inr k) \<and>
   (- (2 ^ 63) \<le> l \<and> l < 2 ^ 63 \<and> WriteInt64 buf l = Inr b4 \<longrightarrow> ReadInt64 b4 = Inr l) \<and>
   (WriteInt buf m = Inr b5 \<longrightarrow> ReadInt b5 = Inr (m mod 2 ^ 32))"
  by (auto simp: WriteInt8_def ReadInt8_def WriteInt16_def ReadInt16_def WriteInt32_def
      ReadInt32_def WriteInt64_def ReadInt64_def WriteInt_def ReadInt_def sint_word_of_int_id
      uint_word_of_int dest!: uint_codec ReadUint8_WriteUint8)

theorem signed_codec_roundtrip_witness:
  "WriteInt16 [0, 0] (- 2) = Inr [255, 254] \<and> ReadInt16 [255, 254] = Inr (- 2) \<and>
   WriteInt [0, 0, 0, 0] (- 1) = Inr [255, 255, 255, 255] \<and>
   ReadInt [255, 255, 255, 255] = Inr 4294967295"
proof -
  have w16: "WriteInt16 [0, 0] (- 2) = Inr [255, 254]"
    by (simp add: WriteInt16_def WriteUint16_def low_byte_def)
  have w: "WriteInt [0, 0, 0, 0] (- 1) = Inr [255, 255, 255, 255]"
    by (simp add: WriteInt_def WriteUint32_def low_byte_def mask_eq_exp_minus_1)
  show ?thesis
    using w16 w signed_codec_roundtrip [where buf = "[0, 0]" and j = "- 2" and ?b2.0 = "[255, 254]"]
      signed_codec_roundtrip [where buf = "[0, 0, 0, 0]" and m = "- 1" and ?b5.0 = "[255, 255, 255, 255]"]
    by simp
qed

section \<open>Strings\<close>

lemma length_go_copy [simp]: "length (go_copy dst src) = length dst"
  by (simp add: go_copy_def)

lemma find_zero_append:
  "find_zero (a @ 0 # b) = Some (length (takeWhile (\<lambda>x. x \<noteq> 0) a))"
  by (induction a) auto

lemma bytes_of_string_zero: "(of_char c :: byte) = 0 \<longleftrightarrow> c = CHR 0x00"
proof
  assume "(of_char c :: byte) = 0"
  then have "unat (of_char c :: byte) = 0" by simp
  then have "(of_char c :: nat) = of_char (CHR 0x00)" by simp
  then show "c = CHR 0x00" by (simp only: of_char_eq_iff)
qed simp

lemma string_of_take_bytes:
  "string_of_bytes (take n (bytes_of_string v)) = take n v"
  by (metis bytes_of_string_def string_of_bytes_of_string take_map)

lemma takeWhile_bytes:
  "length (takeWhile (\<lambda>x. x \<noteq> 0) (bytes_of_string v)) = length (takeWhile (\<lambda>c. c \<noteq> CHR 0x00) v)"
  by (induction v) (auto simp: bytes_of_string_def bytes_of_string_zero)

lemma WriteString_eq:
  assumes "WriteString buf v = Inr buf'"
  shows "buf' = bytes_of_string v @ 0 # drop (Suc (length v)) buf"
proof -
  from assms have l: "length v < length buf"
    by (auto simp: WriteString_def Let_def split: if_splits)
  then have "go_copy buf (bytes_of_string v) = bytes_of_string v @ drop (length v) buf"
    by (simp add: go_copy_def)
  also have "drop (length v) buf = buf ! length v # drop (Suc (length v)) buf"
    using l by (simp add: Cons_nth_drop_Suc)
  finally show ?thesis
    using assms by (auto simp: WriteString_def Let_def list_update_append split: if_splits)
qed

text \<open>
  \<open>ReadString\<close> after \<open>WriteString\<close> returns the string up to its first zero byte, with
  no error; \<open>WriteString\<close> itself panics exactly when the terminator does not fit in the slice.
\<close>

theorem string_codec_roundtrip:
  "(WriteString buf v = Inl IndexOutOfRange \<longleftrightarrow> length buf \<le> length v) \<and>
   (WriteString buf v = Inr buf' \<longrightarrow> ReadString buf' = (takeWhile (\<lambda>c. c \<noteq> CHR 0x00) v, None))"
proof (intro conjI impI)
  show "WriteString buf v = Inl IndexOutOfRange \<longleftrightarrow> length buf \<le> length v"
    by (simp add: WriteString_def Let_def not_less)
next
  assume "WriteString buf v = Inr buf'"
  then have b: "buf' = bytes_of_string v @ 0 # drop (Suc (length v)) buf" by (rule WriteString_eq)
  have "take (length (takeWhile (\<lambda>c. c \<noteq> CHR 0x00) v)) v = takeWhile (\<lambda>c. c \<noteq> CHR 0x00) v"
    by (metis takeWhile_eq_take)
  with b show "ReadString buf' = (takeWhile (\<lambda>c. c \<noteq> CHR 0x00) v, None)"
    by (simp add: ReadString_def find_zero_append takeWhile_bytes length_takeWhile_le
        string_of_take_bytes)
qed

theorem string_codec_roundtrip_witness:
  "WriteString [9, 9, 9, 9] ''ab'' = Inr [97, 98, 0, 9] \<and> ReadString [97, 98, 0, 9] = (''ab'', None)"
proof -
  have w: "WriteString [9, 9, 9, 9] ''ab'' = Inr [97, 98, 0, 9]"
    by (simp add: WriteString_def go_copy_def bytes_of_string_def)
  then show ?thesis using string_codec_roundtrip [of "[9, 9, 9, 9]" "''ab''" "[97, 98, 0, 9]"] by simp
qed

section \<open>Identifier generation\<close>

lemma gen_gids_eq: "gen_gids n g = map (\<lambda>i. g + 1 + of_nat i) [0..<n]"
proof (induction n arbitrary: g)
  case 0
  then show ?case by simp
next
  case (Suc n)
  have "gen_gids (Suc n) g = (g + 1) # gen_gids n (g + 1)" by (simp add: GenGid_def Let_def)
  also have "gen_gids n (g + 1) = map (\<lambda>i. g + 1 + of_nat (Suc i)) [0..<n]"
    by (simp add: Suc.IH algebra_simps)
  also have "(g + 1) # map (\<lambda>i. g + 1 + of_nat (Suc i)) [0..<n] = map (\<lambda>i. g + 1 + of_nat i) [0..<Suc n]"
    by (subst upt_conv_Cons) (simp_all add: map_Suc_upt [symmetric] del: upt_Suc)
  finally show ?case .
qed

lemma unat_of_nat_u32: "i < 2 ^ 32 \<Longrightarrow> unat (of_nat i :: u32) = i"
  by (simp add: unsigned_of_nat take_bit_nat_eq_self)

lemma of_nat_u32_inj: "i < 2 ^ 32 \<Longrightarrow> j < 2 ^ 32 \<Longrightarrow> (of_nat i :: u32) = of_nat j \<Longrightarrow> i = j"
  by (metis unat_of_nat_u32)

text \<open>
  The first \<open>2 ^ 32 - 1\<close> identifiers a process generates are pairwise distinct and none
  of them is 0, the value that means \<open>no response wanted\<close>; the call after those returns 0.
\<close>

theorem GenGid_unique:
  "(n < 2 ^ 32 \<longrightarrow> distinct (gen_gids n 0) \<and> 0 \<notin> set (gen_gids n 0)) \<and>
   GenGid (of_nat (2 ^ 32 - 1)) = (0, 0)"
proof (intro conjI impI)
  assume n: "n < 2 ^ 32"
  have "inj_on (\<lambda>i. 1 + of_nat i :: u32) {0..<n}"
    using n by (intro inj_onI) (auto intro: of_nat_u32_inj)
  then show "distinct (gen_gids n 0)" by (simp add: gen_gids_eq distinct_map)
  have "1 + of_nat i \<noteq> (0 :: u32)" if "i < n" for i
  proof
    assume "1 + of_nat i = (0 :: u32)"
    then have "of_nat (Suc i) = (of_nat 0 :: u32)" by simp
    then have "Suc i = 0" using that n by (intro of_nat_u32_inj) auto
    then show False by simp
  qed
  then show "0 \<notin> set (gen_gids n 0)" by (auto simp: gen_gids_eq)
qed (simp add: GenGid_def)

theorem GenGid_unique_witness:
  "Suc (Suc 0) < 2 ^ 32 \<and> gen_gids (Suc (Suc 0)) 0 = [1, 2] \<and> distinct (gen_gids (Suc (Suc 0)) 0)"
proof -
  have "Suc (Suc 0) < 2 ^ 32" by simp
  then show ?thesis using GenGid_unique [of "Suc (Suc 0)"] by (simp add: GenGid_def)
qed

end
