(* ===== verification/Load_Balancer.thy ===== *)
theory Load_Balancer
  imports Prelude
begin

text \<open>
  \<open>ms_framework/msf_load_balancer.go\<close>: a set of named targets with use counters, a random strategy
  and a round-robin strategy. The map \<open>elements\<close> is an association list with distinct keys (\<open>None\<close>
  is the nil map); the Go iteration order over a map is unspecified, and the code sorts the keys
  before it uses them, so the choice depends on the key set only. \<open>rrbIdx\<close> is a \<open>uint16\<close>.

  \<open>LoadBalanceRoundRobin\<close> takes the snapshot of the keys under the read lock and the index under the
  write lock; \<open>rr_snapshot\<close> and \<open>rr_pick\<close> are these two critical sections.
\<close>

section \<open>State and operations\<close>

datatype balance_strategy = BalanceStrategy_Rand | BalanceStrategy_RoundRobin | BalanceStrategy_TODO

definition BALANCE_STRATEGY :: balance_strategy where
  "BALANCE_STRATEGY = BalanceStrategy_RoundRobin"

record load_balancer =
  elements :: "(string \<times> u32) list option"
  rrbIdx :: u16

definition new_LoadBalancer :: load_balancer where
  "new_LoadBalancer = \<lparr>elements = None, rrbIdx = 0\<rparr>"

definition elems :: "load_balancer \<Rightarrow> (string \<times> u32) list" where
  "elems l = (case elements l of None \<Rightarrow> [] | Some e \<Rightarrow> e)"

definition AddElement :: "load_balancer \<Rightarrow> string \<Rightarrow> bool \<times> load_balancer" where
  "AddElement l ele =
     (let l1 = (if elements l = None then l\<lparr>elements := Some []\<rparr> else l) in
      if map_of (elems l1) ele \<noteq> None then (False, l1)
      else (True, l1\<lparr>elements := Some (AList.update ele 0 (elems l1))\<rparr>))"

definition DelElement :: "load_balancer \<Rightarrow> string \<Rightarrow> bool \<times> load_balancer" where
  "DelElement l ele =
     (if map_of (elems l) ele = None then (False, l)
      else (True, l\<lparr>elements := Some (AList.delete ele (elems l))\<rparr>))"

definition sorted_keys :: "load_balancer \<Rightarrow> string list" where
  "sorted_keys l = sort (map fst (elems l))"

definition rr_snapshot :: "load_balancer \<Rightarrow> string list" where
  "rr_snapshot l = (if elems l = [] then [] else sorted_keys l)"

definition rr_pick :: "load_balancer \<Rightarrow> string list \<Rightarrow> (string \<times> load_balancer) res" where
  "rr_pick l m =
     (let l1 = (if of_nat (length m) \<le> rrbIdx l then l\<lparr>rrbIdx := 0\<rparr> else l) in
      res_bind (index m (unat (rrbIdx l1)))
        (\<lambda>ele. Inr (ele, l1\<lparr>rrbIdx := rrbIdx l1 + 1\<rparr>)))"

definition LoadBalanceRoundRobin :: "load_balancer \<Rightarrow> (string \<times> load_balancer) res" where
  "LoadBalanceRoundRobin l =
     (if elems l = [] then Inr ([], l) else rr_pick l (rr_snapshot l))"

text \<open>\<open>rand.Intn(n)\<close> is the argument \<open>intn\<close>: its documented result lies in \<open>[0, n)\<close>.\<close>

definition LoadBalanceRand :: "(nat \<Rightarrow> nat) \<Rightarrow> load_balancer \<Rightarrow> string res" where
  "LoadBalanceRand intn l =
     (if elems l = [] then Inr []
      else let m = sorted_keys l in index m (intn (length m)))"

definition bump_weight :: "load_balancer \<Rightarrow> string \<Rightarrow> load_balancer" where
  "bump_weight l ele =
     (case map_of (elems l) ele of
        None \<Rightarrow> l
      | Some w \<Rightarrow> l\<lparr>elements := Some (AList.update ele (w + 1) (elems l))\<rparr>)"

definition LoadBalance ::
  "balance_strategy \<Rightarrow> (nat \<Rightarrow> nat) \<Rightarrow> load_balancer \<Rightarrow> (string \<times> load_balancer) res" where
  "LoadBalance strategy intn l =
     res_bind
       (case strategy of
          BalanceStrategy_Rand \<Rightarrow> res_bind (LoadBalanceRand intn l) (\<lambda>ele. Inr (ele, l))
        | BalanceStrategy_RoundRobin \<Rightarrow> LoadBalanceRoundRobin l
        | BalanceStrategy_TODO \<Rightarrow> LoadBalanceRoundRobin l)
       (\<lambda>(ele, l1). Inr (ele, bump_weight l1 ele))"

text \<open>A run of consecutive round-robin selections, as the loops of the file's tests make them.\<close>

fun rr_run :: "nat \<Rightarrow> load_balancer \<Rightarrow> (string list \<times> load_balancer) res" where
  "rr_run 0 l = Inr ([], l)"
| "rr_run (Suc n) l =
     res_bind (LoadBalance BalanceStrategy_RoundRobin id l)
       (\<lambda>(e, l1). res_bind (rr_run n l1) (\<lambda>(es, l2). Inr (e # es, l2)))"

text \<open>
  The tests of the file: 1000 selections among five targets, a change of the targets, and 1000 more. The result is the
  balancer after each half; \<open>src i\<close> is \<open>rand.Intn\<close> in the \<open>i\<close>-th call.
\<close>

fun lb_loop :: "balance_strategy \<Rightarrow> (nat \<Rightarrow> nat \<Rightarrow> nat) \<Rightarrow> nat \<Rightarrow> load_balancer \<Rightarrow> load_balancer res" where
  "lb_loop strategy src 0 l = Inr l"
| "lb_loop strategy src (Suc loop) l = res_bind (LoadBalance strategy (src loop) l) (\<lambda>(_, l1). lb_loop strategy src loop l1)"

definition add_all :: "string list \<Rightarrow> load_balancer \<Rightarrow> load_balancer" where
  "add_all es l = fold (\<lambda>e l. snd (AddElement l e)) es l"

definition lb_test ::
  "balance_strategy \<Rightarrow> (nat \<Rightarrow> nat \<Rightarrow> nat) \<Rightarrow> (nat \<Rightarrow> nat \<Rightarrow> nat) \<Rightarrow> (load_balancer \<times> load_balancer) res" where
  "lb_test strategy src1 src2 =
     res_bind (lb_loop strategy src1 1000 (add_all [''e1'', ''e2'', ''e3'', ''e4'', ''e5''] new_LoadBalancer))
       (\<lambda>l1. let l2 = snd (AddElement (snd (DelElement (snd (DelElement l1 ''e4'')) ''e5'')) ''e6'')
        in res_bind (lb_loop strategy src2 1000 l2) (\<lambda>l3. Inr (l1, l3)))"

definition lbRandTest :: "(nat \<Rightarrow> nat \<Rightarrow> nat) \<Rightarrow> (nat \<Rightarrow> nat \<Rightarrow> nat) \<Rightarrow> (load_balancer \<times> load_balancer) res" where
  "lbRandTest src1 src2 = lb_test BalanceStrategy_Rand src1 src2"

definition lbRoundRobinTest :: "(nat \<Rightarrow> nat \<Rightarrow> nat) \<Rightarrow> (nat \<Rightarrow> nat \<Rightarrow> nat) \<Rightarrow> (load_balancer \<times> load_balancer) res" where
  "lbRoundRobinTest src1 src2 = lb_test BalanceStrategy_RoundRobin src1 src2"

section \<open>Invariant\<close>

definition keys :: "load_balancer \<Rightarrow> string set" where
  "keys l = fst ` set (elems l)"

definition lb_wf :: "load_balancer \<Rightarrow> bool" where
  "lb_wf l \<longleftrightarrow> distinct (map fst (elems l))"

lemma keys_map_of: "x \<in> keys l \<longleftrightarrow> map_of (elems l) x \<noteq> None"
  by (simp add: keys_def map_of_eq_None_iff)

lemma elems_upd [simp]:
  "elems (l\<lparr>elements := Some e\<rparr>) = e" "elems (l\<lparr>rrbIdx := i\<rparr>) = elems l"
  "elems (l\<lparr>elements := Some e, rrbIdx := i\<rparr>) = e"
  by (simp_all add: elems_def)

lemma elems_new [simp]: "elems new_LoadBalancer = []" "keys new_LoadBalancer = {}"
  by (simp_all add: elems_def keys_def new_LoadBalancer_def)

lemma lb_wf_new [simp]: "lb_wf new_LoadBalancer"
  by (simp add: lb_wf_def)

lemma elems_None: "elements l = None \<Longrightarrow> elems l = []"
  by (simp add: elems_def)

lemma AddElement_fst: "fst (AddElement l e) \<longleftrightarrow> e \<notin> keys l"
  by (auto simp: AddElement_def Let_def keys_map_of elems_None)

lemma AddElement_elems:
  "elems (snd (AddElement l e)) = (if e \<in> keys l then elems l else AList.update e 0 (elems l))"
  by (auto simp: AddElement_def Let_def keys_map_of elems_None)

lemma AddElement_rrbIdx [frame_simps]: "rrbIdx (snd (AddElement l e)) = rrbIdx l"
  by (simp add: AddElement_def Let_def)

lemma keys_AddElement [simp]: "keys (snd (AddElement l e)) = insert e (keys l)"
  by (auto simp: keys_def AddElement_elems dom_map_of_conv_image_fst [symmetric] update_conv
      image_iff)

lemma lb_wf_AddElement [inv_intros]: "lb_wf l \<Longrightarrow> lb_wf (snd (AddElement l e))"
  by (simp add: lb_wf_def AddElement_elems distinct_update)

lemma DelElement_fst: "fst (DelElement l e) \<longleftrightarrow> e \<in> keys l"
  by (simp add: DelElement_def keys_map_of)

lemma DelElement_elems:
  "elems (snd (DelElement l e)) = (if e \<in> keys l then AList.delete e (elems l) else elems l)"
  by (simp add: DelElement_def keys_map_of)

lemma DelElement_rrbIdx [frame_simps]: "rrbIdx (snd (DelElement l e)) = rrbIdx l"
  by (simp add: DelElement_def)

lemma keys_DelElement [simp]: "keys (snd (DelElement l e)) = keys l - {e}"
  by (auto simp: keys_def DelElement_elems delete_keys simp flip: set_map)

lemma lb_wf_DelElement [inv_intros]: "lb_wf l \<Longrightarrow> lb_wf (snd (DelElement l e))"
  by (simp add: lb_wf_def DelElement_elems distinct_delete)

lemma bump_weight_elems:
  "elems (bump_weight l e) =
     (case map_of (elems l) e of None \<Rightarrow> elems l | Some w \<Rightarrow> AList.update e (w + 1) (elems l))"
  by (simp add: bump_weight_def split: option.splits)

lemma map_fst_update_existing: "map_of al k = Some v \<Longrightarrow> map fst (AList.update k w al) = map fst al"
  by (induction al) (auto split: if_splits)

lemma map_fst_bump [simp]: "map fst (elems (bump_weight l e)) = map fst (elems l)"
  by (simp add: bump_weight_elems map_fst_update_existing split: option.splits)

lemma bump_weight_keys [simp]:
  "keys (bump_weight l e) = keys l" "sorted_keys (bump_weight l e) = sorted_keys l"
  "lb_wf (bump_weight l e) = lb_wf l"
  by (simp_all add: sorted_keys_def lb_wf_def keys_def flip: set_map)

lemma bump_weight_rrbIdx [frame_simps, simp]: "rrbIdx (bump_weight l e) = rrbIdx l"
  by (simp add: bump_weight_def split: option.splits)

section \<open>Selection\<close>

definition rr_start :: "load_balancer \<Rightarrow> nat" where
  "rr_start l = (if of_nat (length (sorted_keys l)) \<le> rrbIdx l then 0 else unat (rrbIdx l))"

lemma length_sorted_keys: "length (sorted_keys l) = length (elems l)"
  by (simp add: sorted_keys_def)

lemma set_sorted_keys [simp]: "set (sorted_keys l) = keys l"
  by (simp add: sorted_keys_def keys_def)

lemma sorted_keys_Nil [simp]: "sorted_keys l = [] \<longleftrightarrow> elems l = []" "keys l = {} \<longleftrightarrow> elems l = []"
  by (simp_all add: sorted_keys_def keys_def flip: length_0_conv)

lemma unat_of_nat_le: "unat (of_nat n :: 'a::len word) \<le> n"
  by (simp add: unsigned_of_nat take_bit_eq_mod)

lemma rr_start_less: "elems l \<noteq> [] \<Longrightarrow> rr_start l < length (sorted_keys l)"
  using unat_of_nat_le [where 'a = 16, of "length (sorted_keys l)"]
  by (auto simp: rr_start_def not_le word_less_nat_alt length_sorted_keys)

lemma LoadBalance_RoundRobin:
  assumes "elems l \<noteq> []"
  shows "LoadBalance BalanceStrategy_RoundRobin intn l =
     Inr (sorted_keys l ! rr_start l,
          bump_weight (l\<lparr>rrbIdx := of_nat (Suc (rr_start l))\<rparr>) (sorted_keys l ! rr_start l))"
  using assms rr_start_less [OF assms]
  by (auto simp: LoadBalance_def LoadBalanceRoundRobin_def rr_pick_def rr_snapshot_def rr_start_def
      Let_def algebra_simps)

lemma LoadBalance_empty:
  "elems l = [] \<Longrightarrow> LoadBalance strategy intn l = Inr ([], l)"
  by (cases strategy) (simp_all add: LoadBalance_def LoadBalanceRoundRobin_def LoadBalanceRand_def
      bump_weight_def)

lemma LoadBalance_Rand:
  assumes "elems l \<noteq> []" "intn (length (elems l)) < length (elems l)"
  shows "LoadBalance BalanceStrategy_Rand intn l =
     Inr (sorted_keys l ! intn (length (elems l)),
          bump_weight l (sorted_keys l ! intn (length (elems l))))"
  using assms by (simp add: LoadBalance_def LoadBalanceRand_def Let_def length_sorted_keys)

section \<open>The interface the registries use\<close>

text \<open>
  What \<open>TcpServer\<close> and \<open>RemoteMgr\<close> rely on: the members after each operation, and that a selection
  returns a member, or the empty string when there is none, without changing the membership.
\<close>

locale balancer =
  fixes add :: "'l \<Rightarrow> string \<Rightarrow> bool \<times> 'l"
    and del :: "'l \<Rightarrow> string \<Rightarrow> bool \<times> 'l"
    and pick :: "'l \<Rightarrow> (string \<times> 'l) res"
    and members :: "'l \<Rightarrow> string set"
    and inv :: "'l \<Rightarrow> bool"
  assumes add_ok: "fst (add l e) \<longleftrightarrow> e \<notin> members l"
    and members_add: "members (snd (add l e)) = insert e (members l)"
    and inv_add: "inv l \<Longrightarrow> inv (snd (add l e))"
    and del_ok: "fst (del l e) \<longleftrightarrow> e \<in> members l"
    and members_del: "members (snd (del l e)) = members l - {e}"
    and inv_del: "inv l \<Longrightarrow> inv (snd (del l e))"
    and pick_empty: "members l = {} \<Longrightarrow> pick l = Inr ([], l)"
    and pick_member: "members l \<noteq> {} \<Longrightarrow>
          \<exists>e l'. pick l = Inr (e, l') \<and> e \<in> members l \<and> members l' = members l \<and> (inv l \<longrightarrow> inv l')"
begin

lemma pick_total: "\<exists>e l'. pick l = Inr (e, l')"
  using pick_empty pick_member by (cases "members l = {}") blast+

lemma pick_frame: "pick l = Inr (e, l') \<Longrightarrow> members l' = members l \<and> (inv l \<longrightarrow> inv l')"
  using pick_empty [of l] pick_member [of l] by (cases "members l = {}") auto

lemma pick_in_members: "pick l = Inr (e, l') \<Longrightarrow> members l \<noteq> {} \<Longrightarrow> e \<in> members l"
  using pick_member [of l] by auto

lemma never_chosen_after_del:
  "pick (snd (del l e)) = Inr (x, l') \<Longrightarrow> e \<noteq> [] \<Longrightarrow> x \<noteq> e"
  using pick_in_members [of "snd (del l e)" x l'] pick_empty [of "snd (del l e)"]
  by (cases "members (snd (del l e)) = {}") (auto simp: members_del)

lemma only_member_is_chosen:
  assumes "members l = {e}"
  obtains l' where "pick l = Inr (e, l')"
  using pick_member [of l] assms by auto

lemma add_then_del:
  "e \<notin> members l \<Longrightarrow> members (snd (del (snd (add l e)) e)) = members l"
  by (simp add: members_add members_del)

end

interpretation rr: balancer AddElement DelElement "LoadBalance BalanceStrategy_RoundRobin intn" keys lb_wf for intn
proof unfold_locales
  fix l :: load_balancer
  assume "keys l \<noteq> {}"
  then have ne: "elems l \<noteq> []" by simp
  then have "sorted_keys l ! rr_start l \<in> keys l"
    using rr_start_less [OF ne] by (metis nth_mem set_sorted_keys)
  moreover have "keys (l\<lparr>rrbIdx := i\<rparr>) = keys l" "lb_wf (l\<lparr>rrbIdx := i\<rparr>) = lb_wf l" for i
    by (simp_all add: keys_def lb_wf_def)
  ultimately show "\<exists>e l'. LoadBalance BalanceStrategy_RoundRobin intn l = Inr (e, l') \<and> e \<in> keys l \<and>
      keys l' = keys l \<and> (lb_wf l \<longrightarrow> lb_wf l')"
    by (simp add: LoadBalance_RoundRobin [OF ne])
qed (simp_all add: AddElement_fst DelElement_fst lb_wf_AddElement lb_wf_DelElement LoadBalance_empty)

section \<open>Round robin is fair\<close>

lemma rr_start_next:
  assumes "elems l \<noteq> []" "length (elems l) < 2 ^ 16" "LoadBalance BalanceStrategy_RoundRobin intn l = Inr (e, l')"
  shows "e = sorted_keys l ! rr_start l" "sorted_keys l' = sorted_keys l"
    "elems l' \<noteq> []" "length (elems l') = length (elems l)"
    "rr_start l' = Suc (rr_start l) mod length (elems l)"
proof -
  let ?n = "length (elems l)" and ?i = "rr_start l"
  have i: "?i < ?n" using rr_start_less [OF assms(1)] by (simp add: length_sorted_keys)
  from assms(3) have e: "e = sorted_keys l ! ?i"
    and l': "l' = bump_weight (l\<lparr>rrbIdx := of_nat (Suc ?i)\<rparr>) e"
    by (auto simp: LoadBalance_RoundRobin [OF assms(1)])
  show "e = sorted_keys l ! ?i" by (rule e)
  show sk: "sorted_keys l' = sorted_keys l" unfolding l' by (simp add: sorted_keys_def)
  then show len: "length (elems l') = ?n" by (metis length_sorted_keys)
  with assms(1) show "elems l' \<noteq> []" by auto
  have u: "unat (of_nat k :: u16) = k" if "k \<le> ?n" for k
    using that assms(2) by (simp add: unsigned_of_nat take_bit_nat_eq_self)
  have "rrbIdx l' = of_nat (Suc ?i)" by (simp add: l')
  then have "rr_start l' = (if (of_nat ?n :: u16) \<le> of_nat (Suc ?i) then 0 else unat (of_nat (Suc ?i) :: u16))"
    by (simp only: rr_start_def [of l'] sk length_sorted_keys)
  then have "rr_start l' = (if ?n \<le> Suc ?i then 0 else Suc ?i)"
    unfolding word_le_nat_alt using u [of ?n] u [of "Suc ?i"] i by simp
  with i show "rr_start l' = Suc ?i mod ?n" by (auto simp: mod_Suc)
qed

lemma rr_run_sequence:
  assumes "elems l \<noteq> []" "length (elems l) < 2 ^ 16"
  shows "\<exists>l'. rr_run k l = Inr (map (\<lambda>j. sorted_keys l ! ((rr_start l + j) mod length (elems l))) [0..<k], l')"
  using assms
proof (induction k arbitrary: l)
  case 0
  then show ?case by simp
next
  case (Suc k)
  let ?n = "length (elems l)"
  obtain e l1 where lb: "LoadBalance BalanceStrategy_RoundRobin id l = Inr (e, l1)"
    using rr.pick_total by blast
  note nxt = rr_start_next [OF Suc.prems lb]
  have n: "length (elems l1) < 2 ^ 16" using nxt(4) Suc.prems(2) by simp
  obtain l' where l': "rr_run k l1 =
      Inr (map (\<lambda>j. sorted_keys l ! ((Suc (rr_start l) mod ?n + j) mod ?n)) [0..<k], l')"
    using Suc.IH [OF nxt(3) n] unfolding nxt(2,4,5) by blast
  have i: "rr_start l < ?n" using rr_start_less [OF Suc.prems(1)] by (simp add: length_sorted_keys)
  have shift: "map (\<lambda>j. sorted_keys l ! ((rr_start l + j) mod ?n)) [0..<Suc k] =
      e # map (\<lambda>j. sorted_keys l ! ((Suc (rr_start l) mod ?n + j) mod ?n)) [0..<k]"
    unfolding upt_conv_Cons [OF zero_less_Suc] list.map map_Suc_upt [symmetric] map_map
    using i by (simp add: nxt(1) mod_simps o_def del: upt_Suc)
  show ?case unfolding shift by (simp add: lb l' del: upt_Suc)
qed

lemma rr_round_is_rotation:
  assumes "elems l \<noteq> []"
  shows "map (\<lambda>j. sorted_keys l ! ((rr_start l + j) mod length (elems l))) [0..<length (elems l)] =
    rotate (rr_start l) (sorted_keys l)"
  by (rule nth_equalityI) (simp_all add: length_sorted_keys nth_rotate add.commute)

lemma rr_run_weights:
  "rr_run k l = Inr (es, l') \<Longrightarrow>
     map_of (elems l') x = map_option (\<lambda>w. w + of_nat (count_list es x)) (map_of (elems l) x)"
proof (induction k arbitrary: l es)
  case 0
  then show ?case by (simp add: option.map_ident)
next
  case (Suc k)
  from Suc.prems obtain e l1 es1 where lb: "LoadBalance BalanceStrategy_RoundRobin id l = Inr (e, l1)"
    and run: "rr_run k l1 = Inr (es1, l')" and es: "es = e # es1"
    by (auto simp: res_bind_Inr_iff)
  have "map_of (elems l1) x = map_option (\<lambda>w. w + (if x = e then 1 else 0)) (map_of (elems l) x)"
  proof (cases "elems l = []")
    case True
    with lb show ?thesis by (simp add: LoadBalance_empty)
  next
    case False
    from lb have "elems l1 = elems (bump_weight (l\<lparr>rrbIdx := of_nat (Suc (rr_start l))\<rparr>) e)"
      by (auto simp: LoadBalance_RoundRobin [OF False])
    then show ?thesis
      by (auto simp: bump_weight_elems update_conv option.map_ident split: option.splits)
  qed
  then show ?case
    using Suc.IH [OF run] by (auto simp: es option.map_comp o_def algebra_simps)
qed

section \<open>Properties\<close>

lemma count_list_distinct: "distinct xs \<Longrightarrow> x \<in> set xs \<Longrightarrow> count_list xs x = 1"
  by (induction xs) auto

text \<open>The selections of a run, and how often a target occurs among the first \<open>k\<close>.\<close>

definition rr_seq :: "load_balancer \<Rightarrow> nat \<Rightarrow> string list" where
  "rr_seq l k = map (\<lambda>j. sorted_keys l ! ((rr_start l + j) mod length (elems l))) [0..<k]"

lemma rr_seq_period:
  assumes "elems l \<noteq> []" "lb_wf l" "x \<in> keys l"
  shows "count_list (rr_seq l (k + length (elems l))) x = Suc (count_list (rr_seq l k) x)"
proof -
  let ?n = "length (elems l)" and ?s = "rr_start l + k"
  have "map (\<lambda>j. sorted_keys l ! ((rr_start l + j) mod ?n)) [k..<k + ?n] = rotate ?s (sorted_keys l)"
    by (rule nth_equalityI) (simp_all add: length_sorted_keys nth_rotate add.assoc add.commute [of _ "rr_start l + k"])
  then have "rr_seq l (k + ?n) = rr_seq l k @ rotate ?s (sorted_keys l)"
    by (simp only: rr_seq_def upt_add_eq_append [OF zero_le, of k] map_append)
  moreover have "count_list (rotate ?s (sorted_keys l)) x = 1"
    by (rule count_list_distinct) (use assms(2,3) in \<open>simp_all add: lb_wf_def sorted_keys_def keys_def\<close>)
  ultimately show ?thesis by (simp add: count_list_append)
qed

lemma rr_seq_short:
  assumes "elems l \<noteq> []" "lb_wf l" "k \<le> length (elems l)"
  shows "count_list (rr_seq l k) x \<le> 1"
proof -
  have "rr_seq l k = take k (rr_seq l (length (elems l)))"
    using assms(3) by (simp add: rr_seq_def take_map)
  also have "\<dots> = take k (rotate (rr_start l) (sorted_keys l))"
    using rr_round_is_rotation [OF assms(1)] by (simp add: rr_seq_def)
  finally have "distinct (rr_seq l k)"
    using assms(2) by (simp add: lb_wf_def sorted_keys_def distinct_take)
  then show ?thesis
    using count_list_distinct [of "rr_seq l k" x] by (cases "x \<in> set (rr_seq l k)") (auto simp: count_notin)
qed

lemma rr_seq_count:
  assumes "elems l \<noteq> []" "lb_wf l" "x \<in> keys l"
  shows "count_list (rr_seq l k) x = k div length (elems l) + count_list (rr_seq l (k mod length (elems l))) x"
proof (induction k rule: less_induct)
  case (less k)
  let ?n = "length (elems l)"
  show ?case
  proof (cases "k < ?n")
    case False
    then have k: "k = (k - ?n) + ?n" by simp
    have "count_list (rr_seq l k) x = Suc (count_list (rr_seq l (k - ?n)) x)"
      using rr_seq_period [OF assms, of "k - ?n"] k by simp
    also have "\<dots> = Suc ((k - ?n) div ?n + count_list (rr_seq l ((k - ?n) mod ?n)) x)"
    proof -
      have "k - ?n < k" using assms(1) False by (cases "elems l") auto
      then show ?thesis by (simp only: less)
    qed
    finally show ?thesis using False assms(1) by (simp add: le_div_geq le_mod_geq)
  qed simp
qed

lemma lb_loop_rr_run:
  "lb_loop BalanceStrategy_RoundRobin src k l = res_bind (rr_run k l) (\<lambda>(_, l'). Inr l')"
proof (induction k arbitrary: l)
  case (Suc k)
  have "LoadBalance BalanceStrategy_RoundRobin (src k) l = LoadBalance BalanceStrategy_RoundRobin id l"
    by (simp add: LoadBalance_def)
  then show ?case
    by (auto simp: Suc res_bind_def split: sum.splits)
qed simp

lemma LoadBalance_keys:
  assumes "LoadBalance strategy intn l = Inr (e, l')"
  shows "map fst (elems l') = map fst (elems l)"
proof (cases "elems l = []")
  case True
  with assms show ?thesis by (simp add: LoadBalance_empty)
next
  case False
  with assms show ?thesis
    by (auto simp: LoadBalance_def LoadBalanceRoundRobin_def rr_pick_def Let_def res_bind_Inr_iff
        split: balance_strategy.splits if_splits)
qed

lemma lb_loop_keys: "lb_loop strategy src k l = Inr l' \<Longrightarrow> map fst (elems l') = map fst (elems l)"
  by (induction k arbitrary: l) (auto simp: res_bind_Inr_iff dest: LoadBalance_keys)

lemma rr_run_total:
  assumes "elems l \<noteq> []" "length (elems l) < 2 ^ 16"
  shows "\<exists>l'. rr_run k l = Inr (rr_seq l k, l') \<and>
    (\<forall>x. map_of (elems l') x = map_option (\<lambda>w. w + of_nat (count_list (rr_seq l k) x)) (map_of (elems l) x))"
  using rr_run_sequence [OF assms, of k] rr_run_weights [of k l "rr_seq l k"]
  unfolding rr_seq_def by blast

lemma rr_seq_exact:
  assumes "elems l \<noteq> []" "lb_wf l" "x \<in> keys l" "length (elems l) dvd k"
  shows "count_list (rr_seq l k) x = k div length (elems l)"
  using rr_seq_count [OF assms(1-3), of k] assms(4) by (simp add: rr_seq_def)

text \<open>
  Property C19. Round robin over \<open>n\<close> targets, \<open>0 < n < 2 ^ 16\<close>, from any index: any number \<open>k\<close> of selections runs without a
  panic and walks cyclically through the sorted targets, so every target is chosen \<open>k div n\<close> times or once more (exactly
  \<open>k div n\<close> times after whole rounds), and every use counter grows by the number of times its target was chosen.
\<close>

theorem round_robin_fair:
  assumes "lb_wf l" "elems l \<noteq> []" "length (elems l) < 2 ^ 16"
  shows "\<exists>es l'. rr_run k l = Inr (es, l') \<and> length es = k \<and>
    (\<forall>j<k. es ! j = sorted_keys l ! ((rr_start l + j) mod length (elems l))) \<and>
    (\<forall>x\<in>keys l. count_list es x \<in> {k div length (elems l), Suc (k div length (elems l))} \<and>
       (length (elems l) dvd k \<longrightarrow> count_list es x = k div length (elems l))) \<and>
    (\<forall>x. map_of (elems l') x = map_option (\<lambda>w. w + of_nat (count_list es x)) (map_of (elems l) x))"
proof -
  let ?n = "length (elems l)"
  obtain l' where run: "rr_run k l = Inr (rr_seq l k, l')"
    and w: "\<forall>x. map_of (elems l') x = map_option (\<lambda>w. w + of_nat (count_list (rr_seq l k) x)) (map_of (elems l) x)"
    using rr_run_total [OF assms(2,3), of k] by blast
  have "count_list (rr_seq l k) x \<in> {k div ?n, Suc (k div ?n)} \<and>
      (?n dvd k \<longrightarrow> count_list (rr_seq l k) x = k div ?n)" if "x \<in> keys l" for x
  proof -
    have "count_list (rr_seq l (k mod ?n)) x \<le> 1"
      by (rule rr_seq_short [OF assms(2,1)]) (use assms(2) in \<open>simp add: less_imp_le\<close>)
    then show ?thesis
      using rr_seq_count [OF assms(2,1) that, of k] rr_seq_exact [OF assms(2,1) that, of k] by auto
  qed
  moreover have "length (rr_seq l k) = k" "\<forall>j<k. rr_seq l k ! j = sorted_keys l ! ((rr_start l + j) mod ?n)"
    by (simp_all add: rr_seq_def)
  ultimately show ?thesis using run w by blast
qed

definition example_lb :: load_balancer where
  "example_lb = \<lparr>elements = Some [(''b'', 4), (''a'', 7)], rrbIdx = 1\<rparr>"

theorem round_robin_fair_witness:
  "lb_wf example_lb \<and> elems example_lb \<noteq> [] \<and>
   (\<exists>es l'. rr_run 6 example_lb = Inr (es, l') \<and> es ! 0 = ''b'' \<and> es ! 1 = ''a'' \<and> map_of (elems l') ''a'' = Some 10)"
proof -
  have e: "elems example_lb = [(''b'', 4), (''a'', 7)]" by (simp add: example_lb_def elems_def)
  have sk: "sorted_keys example_lb = [''a'', ''b'']" by (simp add: sorted_keys_def e)
  have st: "rr_start example_lb = 1" by (simp add: rr_start_def sk) (simp add: example_lb_def word_le_nat_alt)
  have wf: "lb_wf example_lb" by (simp add: lb_wf_def e)
  have ne: "elems example_lb \<noteq> []" and len: "length (elems example_lb) < 2 ^ 16" by (simp_all add: e)
  have two: "length (elems example_lb) = 2" "2 dvd (6::nat)" and a: "''a'' \<in> keys example_lb" by (simp_all add: e keys_def)
  obtain es l' where r: "rr_run 6 example_lb = Inr (es, l')"
    and s: "\<forall>j<6. es ! j = [''a'', ''b''] ! ((1 + j) mod 2)"
    and c: "count_list es ''a'' = 6 div 2"
    and m: "\<forall>x. map_of (elems l') x = map_option (\<lambda>w. w + of_nat (count_list es x)) (map_of (elems example_lb) x)"
    using round_robin_fair [OF wf ne len, of 6] a two(2) unfolding st sk two(1) by blast
  have "map_of (elems l') ''a'' = Some 10" using m by (simp add: e c)
  moreover have "es ! 0 = ''b''" "es ! 1 = ''a''" using s by simp_all
  ultimately show ?thesis using r wf ne by blast
qed

text \<open>
  The round-robin test of the file: every one of the five targets is chosen 200 times, and after \<open>e4\<close> and \<open>e5\<close> have been replaced
  by \<open>e6\<close>, each of the four is chosen 250 times more.
\<close>

lemma whole_rounds:
  assumes "lb_wf l" "length (elems l) = n" "0 < n" "n < 2 ^ 16" "n dvd k"
  shows "\<exists>l'. lb_loop BalanceStrategy_RoundRobin src k l = Inr l' \<and> map fst (elems l') = map fst (elems l) \<and>
    (\<forall>x. map_of (elems l') x = map_option (\<lambda>w. w + of_nat (k div n)) (map_of (elems l) x))"
proof -
  have ne: "elems l \<noteq> []" and n: "length (elems l) < 2 ^ 16" using assms by auto
  obtain l' where run: "rr_run k l = Inr (rr_seq l k, l')"
    and w: "\<forall>x. map_of (elems l') x = map_option (\<lambda>w. w + of_nat (count_list (rr_seq l k) x)) (map_of (elems l) x)"
    using rr_run_total [OF ne n, of k] by blast
  have "map_of (elems l') x = map_option (\<lambda>w. w + of_nat (k div n)) (map_of (elems l) x)" for x
    using w rr_seq_exact [OF ne assms(1), of x k] assms(2,5) by (cases "map_of (elems l) x") (simp_all add: keys_map_of)
  moreover have loop: "lb_loop BalanceStrategy_RoundRobin src k l = Inr l'" by (simp add: lb_loop_rr_run run)
  ultimately show ?thesis using lb_loop_keys [OF loop] by blast
qed

lemma round_robin_test:
  "\<exists>l1 l2. lbRoundRobinTest src1 src2 = Inr (l1, l2) \<and>
     map_of (elems l1) = [''e1'' \<mapsto> 200, ''e2'' \<mapsto> 200, ''e3'' \<mapsto> 200, ''e4'' \<mapsto> 200, ''e5'' \<mapsto> 200] \<and>
     map_of (elems l2) = [''e1'' \<mapsto> 450, ''e2'' \<mapsto> 450, ''e3'' \<mapsto> 450, ''e6'' \<mapsto> 250]"
proof -
  let ?a = "add_all [''e1'', ''e2'', ''e3'', ''e4'', ''e5''] new_LoadBalancer"
  have a: "elems ?a = [(''e1'', 0), (''e2'', 0), (''e3'', 0), (''e4'', 0), (''e5'', 0)]"
    by (simp add: add_all_def AddElement_elems keys_def)
  obtain l1 where r1: "lb_loop BalanceStrategy_RoundRobin src1 1000 ?a = Inr l1"
    and w1: "\<forall>x. map_of (elems l1) x = map_option (\<lambda>w. w + of_nat (1000 div 5)) (map_of (elems ?a) x)"
    and f1: "map fst (elems l1) = map fst (elems ?a)"
    using whole_rounds [of ?a 5 1000 src1] by (auto simp: a lb_wf_def)
  have m1: "map_of (elems l1) = [''e1'' \<mapsto> 200, ''e2'' \<mapsto> 200, ''e3'' \<mapsto> 200, ''e4'' \<mapsto> 200, ''e5'' \<mapsto> 200]"
    by (rule ext) (simp add: w1 a)
  let ?b = "snd (AddElement (snd (DelElement (snd (DelElement l1 ''e4'')) ''e5'')) ''e6'')"
  have k1: "keys l1 = {''e1'', ''e2'', ''e3'', ''e4'', ''e5''}" using f1 by (simp add: keys_def a flip: set_map)
  have wf: "lb_wf l1" using f1 by (simp add: lb_wf_def a)
  then have wfb: "lb_wf ?b" by (intro inv_intros)
  have kb: "keys ?b = {''e1'', ''e2'', ''e3'', ''e6''}" by (auto simp: k1)
  then have len: "length (elems ?b) = 4"
    using distinct_card [of "map fst (elems ?b)"] wfb by (simp add: lb_wf_def keys_def)
  obtain l2 where r2: "lb_loop BalanceStrategy_RoundRobin src2 1000 ?b = Inr l2"
    and w2: "\<forall>x. map_of (elems l2) x = map_option (\<lambda>w. w + of_nat (1000 div 4)) (map_of (elems ?b) x)"
    using whole_rounds [OF wfb len, of 1000 src2] by auto
  have mb: "map_of (elems ?b) = [''e1'' \<mapsto> 200, ''e2'' \<mapsto> 200, ''e3'' \<mapsto> 200, ''e6'' \<mapsto> 0]"
    by (rule ext) (simp add: AddElement_elems DelElement_elems k1 update_conv delete_conv m1)
  have "map_of (elems l2) = [''e1'' \<mapsto> 450, ''e2'' \<mapsto> 450, ''e3'' \<mapsto> 450, ''e6'' \<mapsto> 250]"
    by (rule ext) (simp add: w2 mb)
  with r1 r2 m1 show ?thesis
    by (simp add: lbRoundRobinTest_def lb_test_def Let_def)
qed

text \<open>The random test runs to its end as well, for every random source that keeps its range.\<close>

lemma lb_loop_Rand_total:
  assumes "elems l \<noteq> []" "\<And>i n. 0 < n \<Longrightarrow> src i n < n"
  shows "\<exists>l'. lb_loop BalanceStrategy_Rand src k l = Inr l'"
  using assms(1)
proof (induction k arbitrary: l)
  case (Suc k)
  have "src k (length (elems l)) < length (elems l)" using Suc.prems assms(2) by simp
  then obtain e l1 where lb: "LoadBalance BalanceStrategy_Rand (src k) l = Inr (e, l1)"
    using LoadBalance_Rand [OF Suc.prems] by blast
  have "elems l1 \<noteq> []" using LoadBalance_keys [OF lb] Suc.prems by auto
  with Suc.IH lb show ?case by simp
qed simp

lemma random_test:
  assumes "\<And>i n. 0 < n \<Longrightarrow> src1 i n < n" "\<And>i n. 0 < n \<Longrightarrow> src2 i n < n"
  shows "\<exists>l1 l2. lbRandTest src1 src2 = Inr (l1, l2) \<and>
    keys l1 = {''e1'', ''e2'', ''e3'', ''e4'', ''e5''} \<and> keys l2 = {''e1'', ''e2'', ''e3'', ''e6''}"
proof -
  let ?a = "add_all [''e1'', ''e2'', ''e3'', ''e4'', ''e5''] new_LoadBalancer"
  have a: "elems ?a \<noteq> []" "keys ?a = {''e1'', ''e2'', ''e3'', ''e4'', ''e5''}"
    by (auto simp: add_all_def AddElement_elems keys_def)
  obtain l1 where r1: "lb_loop BalanceStrategy_Rand src1 1000 ?a = Inr l1"
    using lb_loop_Rand_total [of ?a src1 1000] a(1) assms(1) by blast
  have k1: "keys l1 = {''e1'', ''e2'', ''e3'', ''e4'', ''e5''}"
    using lb_loop_keys [OF r1] a(2) by (simp add: keys_def flip: set_map)
  let ?b = "snd (AddElement (snd (DelElement (snd (DelElement l1 ''e4'')) ''e5'')) ''e6'')"
  have kb: "keys ?b = {''e1'', ''e2'', ''e3'', ''e6''}" by (auto simp: k1)
  then have "elems ?b \<noteq> []" unfolding sorted_keys_Nil(2) [symmetric] by simp
  then obtain l2 where r2: "lb_loop BalanceStrategy_Rand src2 1000 ?b = Inr l2"
    using lb_loop_Rand_total [of ?b src2 1000] assms(2) by blast
  have "keys l2 = {''e1'', ''e2'', ''e3'', ''e6''}"
    using lb_loop_keys [OF r2] kb by (simp add: keys_def flip: set_map)
  with r1 r2 k1 show ?thesis by (simp add: lbRandTest_def lb_test_def Let_def)
qed

text \<open>
  A selection never panics under either strategy (for a random source that keeps its
  documented range): it returns a current member, or the empty string exactly when there is no
  member; membership is unchanged, so a deleted target is never selected again until it is added.
\<close>

theorem load_balance_selects_member:
  assumes "\<And>n. 0 < n \<Longrightarrow> intn n < n"
  shows "\<exists>e l'. LoadBalance strategy intn l = Inr (e, l') \<and> keys l' = keys l \<and>
    (if keys l = {} then e = [] else e \<in> keys l) \<and>
    (\<forall>x r. LoadBalance BalanceStrategy_RoundRobin intn (snd (DelElement l x)) = Inr r \<and> x \<noteq> [] \<longrightarrow> fst r \<noteq> x)"
proof -
  have rr: "\<exists>e l'. LoadBalance BalanceStrategy_RoundRobin intn l = Inr (e, l') \<and> keys l' = keys l \<and>
    (if keys l = {} then e = [] else e \<in> keys l)"
    using rr.pick_empty [of l intn] rr.pick_member [of l intn] by (cases "keys l = {}") auto
  have rnd: "\<exists>e l'. LoadBalance BalanceStrategy_Rand intn l = Inr (e, l') \<and> keys l' = keys l \<and>
    (if keys l = {} then e = [] else e \<in> keys l)"
  proof (cases "elems l = []")
    case False
    have "intn (length (elems l)) < length (sorted_keys l)"
      using assms [of "length (elems l)"] False by (simp add: length_sorted_keys)
    then have "sorted_keys l ! intn (length (elems l)) \<in> keys l" by (metis nth_mem set_sorted_keys)
    with False assms show ?thesis by (simp add: LoadBalance_Rand)
  qed (simp add: LoadBalance_empty)
  have todo: "LoadBalance BalanceStrategy_TODO intn l = LoadBalance BalanceStrategy_RoundRobin intn l"
    by (simp add: LoadBalance_def)
  have "\<forall>x r. LoadBalance BalanceStrategy_RoundRobin intn (snd (DelElement l x)) = Inr r \<and> x \<noteq> [] \<longrightarrow> fst r \<noteq> x"
    using rr.never_chosen_after_del [of intn l] by fastforce
  with rr rnd todo show ?thesis by (cases strategy) auto
qed

theorem load_balance_selects_member_witness:
  "length (elems example_lb) - 1 < length (elems example_lb) \<and>
   (\<exists>e l'. LoadBalance BalanceStrategy_Rand (\<lambda>n. n - 1) example_lb = Inr (e, l') \<and> e \<in> keys example_lb)"
proof -
  have h: "\<And>n. 0 < n \<Longrightarrow> (\<lambda>n. n - 1 :: nat) n < n" by simp
  have k: "keys example_lb \<noteq> {}" "elems example_lb \<noteq> []" by (simp_all add: example_lb_def elems_def)
  then have "length (elems example_lb) - 1 < length (elems example_lb)" by simp
  then show ?thesis
    using load_balance_selects_member [where intn = "\<lambda>n. n - 1", OF h, of BalanceStrategy_Rand example_lb] k
    by auto
qed

end
