(* ===== verification/Callback_Mgr.thy ===== *)
theory Callback_Mgr
  imports Prelude
begin

text \<open>
  \<open>ms_framework/msf_callback_mgr_new.go\<close>: the table of pending callbacks \<open>gCbMap\<close> and the queue of
  their deadlines, a doubly linked list of heap nodes. The heap is a total function from addresses to
  nodes (a Go pointer is never dangling), a nil pointer is \<open>None\<close>, and \<open>allocated\<close> is the next fresh
  address. The loops over the list are \<open>partial_function (option)\<close>: \<open>None\<close> would be a loop that never
  ends, and the refinement lemmas prove that on every queue the program can build they return.

  \<open>'v\<close> is what \<open>AddCallBack\<close> stores, \<open>'t\<close> the type of the time-out callbacks. \<open>next\<close> is spelled \<open>nxt\<close>
  and \<open>gPriorityQueue.size\<close> is \<open>qsize\<close>.
\<close>

section \<open>State and operations\<close>

type_synonym addr = nat

record 't node =
  cbid :: u32
  endTime :: int
  timeOutCb :: "'t option"
  prev :: "addr option"
  nxt :: "addr option"

record ('v, 't) cbmgr =
  gCbMap :: "u32 \<rightharpoonup> 'v \<times> addr"
  nodes :: "addr \<Rightarrow> 't node"
  allocated :: addr
  firstNode :: "addr option"
  lastNode :: "addr option"
  qsize :: "32 word"

definition empty_node :: "'t node" where
  "empty_node = \<lparr>cbid = 0, endTime = 0, timeOutCb = None, prev = None, nxt = None\<rparr>"

definition new_cbmgr :: "('v, 't) cbmgr" where
  "new_cbmgr = \<lparr>gCbMap = Map.empty, nodes = (\<lambda>_. empty_node), allocated = 0,
     firstNode = None, lastNode = None, qsize = 0\<rparr>"

definition set_next :: "addr \<Rightarrow> addr option \<Rightarrow> ('v, 't) cbmgr \<Rightarrow> ('v, 't) cbmgr" where
  "set_next a p s = s\<lparr>nodes := (nodes s)(a := (nodes s a)\<lparr>nxt := p\<rparr>)\<rparr>"

definition set_prev :: "addr \<Rightarrow> addr option \<Rightarrow> ('v, 't) cbmgr \<Rightarrow> ('v, 't) cbmgr" where
  "set_prev a p s = s\<lparr>nodes := (nodes s)(a := (nodes s a)\<lparr>prev := p\<rparr>)\<rparr>"

partial_function (option) queueAdd_loop ::
  "addr \<Rightarrow> addr \<Rightarrow> ('v, 't) cbmgr \<Rightarrow> ('v, 't) cbmgr option" where
  "queueAdd_loop node cur s =
     (case nxt (nodes s cur) of
        None \<Rightarrow> Some ((set_prev node (Some cur) (set_next cur (Some node) s))\<lparr>lastNode := Some node\<rparr>)
      | Some next \<Rightarrow>
          if endTime (nodes s node) \<ge> endTime (nodes s next)
          then Some (set_prev next (Some node) (set_next node (Some next)
                 (set_prev node (Some cur) (set_next cur (Some node) s))))
          else queueAdd_loop node next s)"

definition queueAdd :: "addr \<Rightarrow> ('v, 't) cbmgr \<Rightarrow> ('v, 't) cbmgr option" where
  "queueAdd node s =
     (let s1 = s\<lparr>qsize := qsize s + 1\<rparr> in
      case firstNode s1 of
        None \<Rightarrow> Some (s1\<lparr>firstNode := Some node, lastNode := Some node\<rparr>)
      | Some cur \<Rightarrow> queueAdd_loop node cur s1)"

definition queueDel :: "addr \<Rightarrow> ('v, 't) cbmgr \<Rightarrow> ('v, 't) cbmgr" where
  "queueDel node s =
     (let p = prev (nodes s node);
          n = nxt (nodes s node);
          s1 = (case p of None \<Rightarrow> s | Some a \<Rightarrow> set_next a n s);
          s2 = (case n of None \<Rightarrow> s1 | Some a \<Rightarrow> set_prev a p s1);
          s3 = set_next node None (set_prev node None s2);
          s4 = (if firstNode s3 = Some node then s3\<lparr>firstNode := n\<rparr> else s3);
          s5 = (if lastNode s4 = Some node then s4\<lparr>lastNode := p\<rparr> else s4)
      in s5\<lparr>qsize := qsize s5 - 1\<rparr>)"

text \<open>
  One pass of \<open>priorityQueueTick\<close> from the last node towards the first. \<open>tick_node\<close> is what the pass
  does to one overdue node: delete its identifier from \<open>gCbMap\<close>, call its time-out callback when the
  identifier was there, unlink the node. The result lists, in order, the identifiers found with the
  callbacks called for them.
\<close>

definition tick_node :: "addr \<Rightarrow> ('v, 't) cbmgr \<Rightarrow> ('v, 't) cbmgr \<times> (u32 \<times> 't option) list" where
  "tick_node c s =
     (let k = cbid (nodes s c);
          ok = (gCbMap s k \<noteq> None);
          s1 = s\<lparr>gCbMap := (gCbMap s)(k := None)\<rparr>
      in (queueDel c s1, if ok then [(k, timeOutCb (nodes s c))] else []))"

partial_function (option) tick_loop ::
  "int \<Rightarrow> addr option \<Rightarrow> (u32 \<times> 't option) list \<Rightarrow> ('v, 't) cbmgr \<Rightarrow>
     (('v, 't) cbmgr \<times> (u32 \<times> 't option) list) option" where
  "tick_loop now cur fired s =
     (case cur of
        None \<Rightarrow> Some (s, fired)
      | Some c \<Rightarrow>
          let p = prev (nodes s c) in
          if endTime (nodes s c) \<le> now
          then (case tick_node c s of (s1, f) \<Rightarrow> tick_loop now p (fired @ f) s1)
          else Some (s, fired))"

definition priorityQueueTick ::
  "int \<Rightarrow> ('v, 't) cbmgr \<Rightarrow> (('v, 't) cbmgr \<times> (u32 \<times> 't option) list) option" where
  "priorityQueueTick now s = tick_loop now (lastNode s) [] s"

text \<open>
  The part of \<open>AddCallBack\<close> before its channel send: allocate the node and enter it in \<open>gCbMap\<close>.
  \<open>waitTime\<close> is an \<open>int8\<close> number of seconds.
\<close>

definition register_cb ::
  "u32 \<Rightarrow> 'v \<Rightarrow> int \<Rightarrow> 't option \<Rightarrow> int \<Rightarrow> ('v, 't) cbmgr \<Rightarrow> addr \<times> ('v, 't) cbmgr" where
  "register_cb k cbs waitTime toCb now s =
     (let a = allocated s;
          nd = \<lparr>cbid = k, endTime = waitTime + now, timeOutCb = toCb, prev = None, nxt = None\<rparr>
      in (a, s\<lparr>nodes := (nodes s)(a := nd), allocated := Suc a, gCbMap := (gCbMap s)(k \<mapsto> (cbs, a))\<rparr>))"

definition AddCallBack ::
  "u32 \<Rightarrow> 'v \<Rightarrow> int \<Rightarrow> 't option \<Rightarrow> int \<Rightarrow> ('v, 't) cbmgr \<Rightarrow> ('v, 't) cbmgr option" where
  "AddCallBack k cbs waitTime toCb now s =
     (case register_cb k cbs waitTime toCb now s of (a, s1) \<Rightarrow> queueAdd a s1)"

text \<open>The part of \<open>GetCallBack\<close> before its channel send: look the identifier up and delete it.\<close>

definition take_cb :: "u32 \<Rightarrow> ('v, 't) cbmgr \<Rightarrow> ('v \<times> addr) option \<times> ('v, 't) cbmgr" where
  "take_cb k s = (gCbMap s k, s\<lparr>gCbMap := (gCbMap s)(k := None)\<rparr>)"

definition GetCallBack :: "u32 \<Rightarrow> ('v, 't) cbmgr \<Rightarrow> 'v option \<times> ('v, 't) cbmgr" where
  "GetCallBack k s =
     (case take_cb k s of
        (Some (cbs, a), s1) \<Rightarrow> (Some cbs, queueDel a s1)
      | (None, s1) \<Rightarrow> (None, s1))"

section \<open>The list a queue represents\<close>

definition fstp :: "addr list \<Rightarrow> addr option \<Rightarrow> addr option" where
  "fstp xs q = (case xs of [] \<Rightarrow> q | y # _ \<Rightarrow> Some y)"

definition lstp :: "addr option \<Rightarrow> addr list \<Rightarrow> addr option" where
  "lstp p xs = (if xs = [] then p else Some (last xs))"

fun seg :: "(addr \<Rightarrow> 't node) \<Rightarrow> addr option \<Rightarrow> addr list \<Rightarrow> addr option \<Rightarrow> bool" where
  "seg h p [] q = True"
| "seg h p (x # xs) q \<longleftrightarrow> prev (h x) = p \<and> nxt (h x) = fstp xs q \<and> seg h (Some x) xs q"

definition unlinked :: "'t node \<Rightarrow> bool" where
  "unlinked n \<longleftrightarrow> prev n = None \<and> nxt n = None"

definition rep :: "('v, 't) cbmgr \<Rightarrow> addr list \<Rightarrow> bool" where
  "rep s xs \<longleftrightarrow> firstNode s = fstp xs None \<and> lastNode s = lstp None xs \<and>
     seg (nodes s) None xs None \<and> distinct xs \<and> (\<forall>a. a \<notin> set xs \<longrightarrow> unlinked (nodes s a))"

text \<open>Node data no queue operation writes: the identifier, the deadline and the time-out callback.\<close>

definition data :: "'t node \<Rightarrow> u32 \<times> int \<times> 't option" where
  "data n = (cbid n, endTime n, timeOutCb n)"

text \<open>The abstract queue operations.\<close>

fun q_ins :: "(addr \<Rightarrow> int) \<Rightarrow> addr \<Rightarrow> addr list \<Rightarrow> addr list" where
  "q_ins et n [] = [n]"
| "q_ins et n (y # ys) = (if et n \<ge> et y then n # y # ys else y # q_ins et n ys)"

fun q_add :: "(addr \<Rightarrow> int) \<Rightarrow> addr \<Rightarrow> addr list \<Rightarrow> addr list" where
  "q_add et n [] = [n]"
| "q_add et n (x # xs) = x # q_ins et n xs"

fun expire :: "(addr \<Rightarrow> 't node) \<Rightarrow> addr list \<Rightarrow> (u32 \<rightharpoonup> 'v) \<Rightarrow> (u32 \<rightharpoonup> 'v) \<times> (u32 \<times> 't option) list" where
  "expire h [] m = (m, [])"
| "expire h (a # as) m =
     (case expire h as (m(cbid (h a) := None)) of
        (m', fired) \<Rightarrow> (m', if m (cbid (h a)) \<noteq> None then (cbid (h a), timeOutCb (h a)) # fired else fired))"

definition overdue :: "(addr \<Rightarrow> 't node) \<Rightarrow> int \<Rightarrow> addr list \<Rightarrow> addr list" where
  "overdue h now xs = takeWhile (\<lambda>a. endTime (h a) \<le> now) (rev xs)"

definition remaining :: "(addr \<Rightarrow> 't node) \<Rightarrow> int \<Rightarrow> addr list \<Rightarrow> addr list" where
  "remaining h now xs = rev (dropWhile (\<lambda>a. endTime (h a) \<le> now) (rev xs))"

section \<open>Linked segments\<close>

lemma fstp_simps [simp]: "fstp [] q = q" "fstp (x # xs) q = Some x"
  by (simp_all add: fstp_def)

lemma lstp_simps [simp]: "lstp p [] = p" "lstp p (xs @ [x]) = Some x"
  by (simp_all add: lstp_def)

lemma lstp_Cons [simp]: "lstp p (x # xs) = lstp (Some x) xs"
  by (simp add: lstp_def)

lemma fstp_Some_in: "fstp xs None = Some a \<Longrightarrow> a \<in> set xs"
  by (cases xs) simp_all

lemma lstp_Some_in: "lstp None xs = Some a \<Longrightarrow> a \<in> set xs"
  by (cases xs rule: rev_cases) simp_all

lemma fstp_append [simp]: "fstp (as @ bs) q = fstp as (fstp bs q)"
  by (cases as) simp_all

lemma lstp_append [simp]: "lstp p (as @ bs) = lstp (lstp p as) bs"
  by (simp add: lstp_def)

lemma seg_append [simp]: "seg h p (as @ bs) q \<longleftrightarrow> seg h p as (fstp bs q) \<and> seg h (lstp p as) bs q"
  by (induction as arbitrary: p) auto

lemma seg_outside: "(\<And>a. a \<in> set xs \<Longrightarrow> h' a = h a) \<Longrightarrow> seg h' p xs q = seg h p xs q"
  by (induction xs arbitrary: p) auto

lemma seg_upd [simp]: "a \<notin> set xs \<Longrightarrow> seg (h(a := v)) p xs q = seg h p xs q"
  by (rule seg_outside) auto

lemma seg_snoc_set_next:
  "distinct (as @ [a]) \<Longrightarrow> seg h p (as @ [a]) q \<Longrightarrow> seg (h(a := (h a)\<lparr>nxt := q'\<rparr>)) p (as @ [a]) q'"
  by simp

lemma seg_Cons_set_prev:
  "distinct (b # bs) \<Longrightarrow> seg h p (b # bs) q \<Longrightarrow> seg (h(b := (h b)\<lparr>prev := p'\<rparr>)) p' (b # bs) q"
  by simp

lemma fstp_q_ins: "fstp (q_ins et n ys) q = (case ys of [] \<Rightarrow> Some n | y # _ \<Rightarrow> if et n \<ge> et y then Some n else Some y)"
  by (cases ys) simp_all

lemma set_q_ins [simp]: "set (q_ins et n ys) = insert n (set ys)"
  by (induction ys) auto

lemma q_ins_not_Nil [simp]: "q_ins et n ys \<noteq> []"
  by (cases ys) simp_all

lemma set_q_add [simp]: "set (q_add et n xs) = insert n (set xs)"
  by (cases xs) auto

lemma distinct_q_ins [simp]: "n \<notin> set ys \<Longrightarrow> distinct (q_ins et n ys) = distinct ys"
  by (induction ys) auto

lemma distinct_q_add: "n \<notin> set xs \<Longrightarrow> distinct xs \<Longrightarrow> distinct (q_add et n xs)"
  by (cases xs) auto

lemma set_next_simps [simp]:
  "nodes (set_next a p s) = (nodes s)(a := (nodes s a)\<lparr>nxt := p\<rparr>)"
  "gCbMap (set_next a p s) = gCbMap s" "allocated (set_next a p s) = allocated s"
  "firstNode (set_next a p s) = firstNode s" "lastNode (set_next a p s) = lastNode s"
  "qsize (set_next a p s) = qsize s"
  by (simp_all add: set_next_def)

lemma set_prev_simps [simp]:
  "nodes (set_prev a p s) = (nodes s)(a := (nodes s a)\<lparr>prev := p\<rparr>)"
  "gCbMap (set_prev a p s) = gCbMap s" "allocated (set_prev a p s) = allocated s"
  "firstNode (set_prev a p s) = firstNode s" "lastNode (set_prev a p s) = lastNode s"
  "qsize (set_prev a p s) = qsize s"
  by (simp_all add: set_prev_def)

lemma data_links [simp]: "data (n\<lparr>nxt := p\<rparr>) = data n" "data (n\<lparr>prev := p\<rparr>) = data n"
  by (simp_all add: data_def)

section \<open>Insertion\<close>

text \<open>What every queue operation leaves alone: the table, the allocator and the data of the nodes.\<close>

definition same_data :: "('v, 't) cbmgr \<Rightarrow> ('v, 't) cbmgr \<Rightarrow> bool" where
  "same_data s s' \<longleftrightarrow> gCbMap s' = gCbMap s \<and> allocated s' = allocated s \<and>
     (\<forall>a. data (nodes s' a) = data (nodes s a))"

abbreviation deadline :: "('v, 't) cbmgr \<Rightarrow> addr \<Rightarrow> int" where
  "deadline s \<equiv> \<lambda>a. endTime (nodes s a)"

lemma same_data_trans: "same_data s t \<Longrightarrow> same_data t u \<Longrightarrow> same_data s u"
  by (simp add: same_data_def)

lemma data_eqD: "data m = data n \<Longrightarrow> cbid m = cbid n \<and> endTime m = endTime n \<and> timeOutCb m = timeOutCb n"
  by (simp add: data_def)

lemma same_data_fields:
  assumes "same_data s s'"
  shows "cbid (nodes s' a) = cbid (nodes s a)" "endTime (nodes s' a) = endTime (nodes s a)"
    "timeOutCb (nodes s' a) = timeOutCb (nodes s a)" "gCbMap s' = gCbMap s" "allocated s' = allocated s"
  using assms data_eqD unfolding same_data_def by blast+

lemma queueAdd_loop_refines:
  assumes "seg (nodes s) p (c # bs) None" "distinct (c # bs)" "n \<notin> set (c # bs)" "unlinked (nodes s n)"
  shows "\<exists>s'. queueAdd_loop n c s = Some s' \<and>
    seg (nodes s') p (c # q_ins (deadline s) n bs) None \<and>
    lastNode s' = (if last (c # q_ins (deadline s) n bs) = n then Some n else lastNode s) \<and>
    (\<forall>a. a \<notin> set (c # n # bs) \<longrightarrow> nodes s' a = nodes s a) \<and>
    same_data s s' \<and> firstNode s' = firstNode s \<and> qsize s' = qsize s"
  using assms
proof (induction bs arbitrary: c p)
  case Nil
  let ?s = "(set_prev n (Some c) (set_next c (Some n) s))\<lparr>lastNode := Some n\<rparr>"
  have "queueAdd_loop n c s = Some ?s"
    using Nil.prems by (simp add: queueAdd_loop.simps [of n c s])
  moreover have "same_data s ?s" by (simp add: same_data_def)
  ultimately show ?case using Nil.prems by (auto simp: unlinked_def)
next
  case (Cons y ys)
  have nx: "nxt (nodes s c) = Some y" using Cons.prems by simp
  show ?case
  proof (cases "deadline s n \<ge> deadline s y")
    case True
    let ?s = "set_prev y (Some n) (set_next n (Some y) (set_prev n (Some c) (set_next c (Some n) s)))"
    have "queueAdd_loop n c s = Some ?s"
      using nx True by (simp add: queueAdd_loop.simps [of n c s])
    moreover have "same_data s ?s" by (simp add: same_data_def)
    moreover have "last (y # ys) \<noteq> n" using Cons.prems by (metis last_in_set list.distinct(1) list.set_intros(2))
    ultimately show ?thesis using Cons.prems True by (auto simp: unlinked_def)
  next
    case False
    have "seg (nodes s) (Some c) (y # ys) None" "distinct (y # ys)" "n \<notin> set (y # ys)"
      using Cons.prems by auto
    from Cons.IH [OF this Cons.prems(4)] obtain s' where s': "queueAdd_loop n y s = Some s'"
      "seg (nodes s') (Some c) (y # q_ins (deadline s) n ys) None"
      "lastNode s' = (if last (y # q_ins (deadline s) n ys) = n then Some n else lastNode s)"
      "\<forall>a. a \<notin> set (y # n # ys) \<longrightarrow> nodes s' a = nodes s a"
      "same_data s s'" "firstNode s' = firstNode s" "qsize s' = qsize s" by blast
    have "queueAdd_loop n c s = Some s'"
      using nx False s'(1) by (simp add: queueAdd_loop.simps [of n c s])
    moreover have "nodes s' c = nodes s c" using s'(4) Cons.prems by auto
    ultimately show ?thesis using s' False Cons.prems by auto
  qed
qed

lemma last_q_ins: "last (q_ins et n ys) = n \<or> (ys \<noteq> [] \<and> last (q_ins et n ys) = last ys)"
  by (induction ys) (auto split: if_splits)

lemma queueAdd_refines:
  assumes "rep s xs" "n \<notin> set xs"
  shows "\<exists>s'. queueAdd n s = Some s' \<and> rep s' (q_add (deadline s) n xs) \<and> same_data s s' \<and>
    qsize s' = qsize s + 1"
proof (cases xs)
  case Nil
  with assms show ?thesis
    by (auto simp: queueAdd_def rep_def same_data_def Let_def unlinked_def)
next
  case (Cons c bs)
  let ?s1 = "s\<lparr>qsize := qsize s + 1\<rparr>"
  have "seg (nodes ?s1) None (c # bs) None" "distinct (c # bs)" "n \<notin> set (c # bs)" "unlinked (nodes ?s1 n)"
    using assms Cons by (auto simp: rep_def)
  from queueAdd_loop_refines [OF this] obtain s' where s': "queueAdd_loop n c ?s1 = Some s'"
    "seg (nodes s') None (c # q_ins (deadline s) n bs) None"
    "lastNode s' = (if last (c # q_ins (deadline s) n bs) = n then Some n else lastNode s)"
    "\<forall>a. a \<notin> set (c # n # bs) \<longrightarrow> nodes s' a = nodes s a"
    "same_data ?s1 s'" "firstNode s' = firstNode s" "qsize s' = qsize s + 1"
    by auto
  have "lastNode s' = lstp None (c # q_ins (deadline s) n bs)"
    using s'(3) assms Cons last_q_ins [of "deadline s" n bs]
    by (auto simp: lstp_def rep_def split: if_splits)
  moreover have "distinct (c # q_ins (deadline s) n bs)"
    using assms Cons by (auto simp: rep_def)
  ultimately have "rep s' (q_add (deadline s) n xs)"
    using s' assms Cons by (auto simp: rep_def)
  moreover have "queueAdd n s = Some s'"
    using s'(1) assms Cons by (simp add: queueAdd_def rep_def Let_def)
  ultimately show ?thesis using s' by (auto simp: same_data_def)
qed

section \<open>Removal\<close>

lemma unlinked_upd [simp]: "unlinked n \<Longrightarrow> n\<lparr>prev := None\<rparr> = n" "unlinked n \<Longrightarrow> n\<lparr>nxt := None\<rparr> = n"
  by (cases n; simp add: unlinked_def)+

lemma queueDel_absent:
  assumes "rep s xs" "a \<notin> set xs"
  shows "queueDel a s = s\<lparr>qsize := qsize s - 1\<rparr>"
proof -
  have u: "unlinked (nodes s a)" using assms by (simp add: rep_def)
  have "firstNode s \<noteq> Some a" "lastNode s \<noteq> Some a"
    using assms fstp_Some_in lstp_Some_in unfolding rep_def by metis+
  moreover have "set_next a None (set_prev a None s) = s"
    using u by (simp add: set_next_def set_prev_def)
  ultimately show ?thesis
    using u by (simp add: queueDel_def Let_def unlinked_def)
qed

lemma queueDel_present:
  assumes "rep s (as @ a # bs)"
  shows "rep (queueDel a s) (as @ bs)"
proof -
  have d: "distinct (as @ a # bs)" and sg: "seg (nodes s) None as (Some a)"
    and pn: "prev (nodes s a) = lstp None as" "nxt (nodes s a) = fstp bs None"
    and sb: "seg (nodes s) (Some a) bs None"
    and un: "\<And>x. x \<notin> set (as @ a # bs) \<Longrightarrow> unlinked (nodes s x)"
    and fl: "firstNode s = fstp as (Some a)" "lastNode s = lstp (Some a) bs"
    using assms by (auto simp: rep_def)
  show ?thesis
  proof (cases as rule: rev_cases)
    case as: Nil
    show ?thesis
    proof (cases bs)
      case Nil
      with as assms show ?thesis
        by (auto simp: rep_def queueDel_def Let_def unlinked_def) metis+
    next
      case (Cons y ys)
      with as d pn sb un fl show ?thesis
        by (auto simp: rep_def queueDel_def Let_def unlinked_def lstp_def)
    qed
  next
    case (snoc as' x)
    have nf: "fstp as' (Some x) \<noteq> Some a" using snoc d by (cases as') auto
    show ?thesis
    proof (cases bs)
      case Nil
      with snoc d sg pn un fl nf show ?thesis
        by (auto simp: rep_def queueDel_def Let_def unlinked_def)
    next
      case (Cons y ys)
      then have "lstp (Some y) ys \<noteq> Some a" using d by (auto simp: lstp_def)
      with Cons snoc d sg pn sb un fl nf show ?thesis
        by (auto simp: rep_def queueDel_def Let_def unlinked_def)
    qed
  qed
qed

lemma queueDel_frame: "same_data s (queueDel a s) \<and> qsize (queueDel a s) = qsize s - 1"
  by (auto simp: queueDel_def Let_def same_data_def split: option.splits)

lemma queueDel_refines:
  assumes "rep s xs"
  shows "rep (queueDel a s) (remove1 a xs)"
proof (cases "a \<in> set xs")
  case True
  then obtain as bs where xs: "xs = as @ a # bs" "a \<notin> set as" by (meson split_list_first)
  then have "remove1 a xs = as @ bs" by (simp add: remove1_append)
  with queueDel_present assms xs show ?thesis by simp
next
  case False
  with assms queueDel_absent [OF assms False] show ?thesis
    by (simp add: remove1_idem rep_def)
qed

section \<open>Expiry\<close>

lemma expire_cong:
  assumes "\<And>a. data (h' a) = data (h a)"
  shows "expire h' as m = expire h as m"
  using data_eqD [OF assms] by (induction as arbitrary: m) (auto split: prod.splits)

lemma overdue_cong:
  assumes "\<And>a. data (h' a) = data (h a)"
  shows "overdue h' now xs = overdue h now xs" "remaining h' now xs = remaining h now xs"
  using data_eqD [OF assms] by (simp_all add: overdue_def remaining_def)

lemma overdue_snoc:
  "overdue h now (xs @ [c]) = (if endTime (h c) \<le> now then c # overdue h now xs else [])"
  "remaining h now (xs @ [c]) = (if endTime (h c) \<le> now then remaining h now xs else xs @ [c])"
  by (simp_all add: overdue_def remaining_def)

lemma overdue_remaining: "xs = remaining h now xs @ rev (overdue h now xs)"
  by (metis overdue_def remaining_def rev_append rev_rev_ident takeWhile_dropWhile_id)

lemma tick_loop_refines:
  assumes "rep s xs"
  shows "\<exists>s'. tick_loop now (lstp None xs) fired s =
      Some (s', fired @ snd (expire (nodes s) (overdue (nodes s) now xs) (gCbMap s))) \<and>
    rep s' (remaining (nodes s) now xs) \<and>
    gCbMap s' = fst (expire (nodes s) (overdue (nodes s) now xs) (gCbMap s)) \<and>
    allocated s' = allocated s \<and> (\<forall>a. data (nodes s' a) = data (nodes s a)) \<and>
    qsize s' = qsize s - of_nat (length (overdue (nodes s) now xs))"
  using assms
proof (induction xs arbitrary: s fired rule: rev_induct)
  case Nil
  then show ?case
    by (simp add: tick_loop.simps [of now None fired s] overdue_def remaining_def)
next
  case (snoc c ys)
  show ?case
  proof (cases "endTime (nodes s c) \<le> now")
    case False
    with snoc.prems show ?thesis
      by (simp add: tick_loop.simps [of now "Some c" fired s] overdue_snoc Let_def)
  next
    case True
    let ?k = "cbid (nodes s c)"
    let ?s1 = "s\<lparr>gCbMap := (gCbMap s)(?k := None)\<rparr>"
    let ?s2 = "queueDel c ?s1"
    let ?f = "fired @ (if gCbMap s ?k \<noteq> None then [(?k, timeOutCb (nodes s c))] else [])"
    have "rep ?s1 (ys @ [c])" using snoc.prems by (simp add: rep_def)
    then have r2: "rep ?s2 ys" using queueDel_present [of ?s1 ys c "[]"] by simp
    have sd: "same_data ?s1 ?s2" using queueDel_frame by blast
    then have h2: "\<And>a. data (nodes ?s2 a) = data (nodes s a)" and m2: "gCbMap ?s2 = (gCbMap s)(?k := None)"
      and al: "allocated ?s2 = allocated s" by (simp_all add: same_data_def)
    have q2: "qsize ?s2 = qsize s - 1" using queueDel_frame [of ?s1 c] by simp
    have "prev (nodes s c) = lstp None ys" using snoc.prems by (simp add: rep_def)
    then have step: "tick_loop now (Some c) fired s = tick_loop now (lstp None ys) ?f ?s2"
      using True by (simp add: tick_loop.simps [of now "Some c" fired s] Let_def tick_node_def)
    let ?e = "expire (nodes s) (overdue (nodes s) now ys) ((gCbMap s)(?k := None))"
    obtain s' where s': "tick_loop now (lstp None ys) ?f ?s2 = Some (s', ?f @ snd ?e)"
      "rep s' (remaining (nodes s) now ys)" "gCbMap s' = fst ?e"
      "allocated s' = allocated s" "\<forall>a. data (nodes s' a) = data (nodes s a)"
      "qsize s' = qsize s - 1 - of_nat (length (overdue (nodes s) now ys))"
      using snoc.IH [OF r2, of ?f]
      unfolding overdue_cong [OF h2] expire_cong [OF h2] m2 al h2 q2 by blast
    have "expire (nodes s) (overdue (nodes s) now (ys @ [c])) (gCbMap s) =
        (fst ?e, if gCbMap s ?k \<noteq> None then (?k, timeOutCb (nodes s c)) # snd ?e else snd ?e)"
      using True by (simp add: overdue_snoc split: prod.splits)
    then show ?thesis using s' step True by (simp add: overdue_snoc algebra_simps)
  qed
qed

lemma tick_refines:
  assumes "rep s xs"
  shows "\<exists>s'. priorityQueueTick now s =
      Some (s', snd (expire (nodes s) (overdue (nodes s) now xs) (gCbMap s))) \<and>
    rep s' (remaining (nodes s) now xs) \<and>
    gCbMap s' = fst (expire (nodes s) (overdue (nodes s) now xs) (gCbMap s)) \<and>
    allocated s' = allocated s \<and> (\<forall>a. data (nodes s' a) = data (nodes s a)) \<and>
    qsize s' = qsize s - of_nat (length (overdue (nodes s) now xs))"
  using tick_loop_refines [OF assms, of now "[]"] assms by (simp add: priorityQueueTick_def rep_def)

section \<open>Order of the queue\<close>

text \<open>
  The queue is sorted by decreasing deadline behind its first node: \<open>queueAdd\<close> never compares the new
  node with the first one.
\<close>

definition tail_sorted :: "(addr \<Rightarrow> int) \<Rightarrow> addr list \<Rightarrow> bool" where
  "tail_sorted et xs \<longleftrightarrow> sorted_wrt (\<lambda>a b. et a \<ge> et b) (tl xs)"

lemma sorted_q_ins:
  "sorted_wrt (\<lambda>a b. et a \<ge> et b) ys \<Longrightarrow> sorted_wrt (\<lambda>a b. et a \<ge> et b) (q_ins et n ys)"
  by (induction ys) (auto intro: order_trans)

lemma tail_sorted_q_add: "tail_sorted et xs \<Longrightarrow> tail_sorted et (q_add et n xs)"
  by (cases xs) (auto simp: tail_sorted_def sorted_q_ins)

lemma sorted_wrt_remove1: "sorted_wrt P xs \<Longrightarrow> sorted_wrt P (remove1 a xs)"
  by (induction xs) (auto dest: notin_set_remove1 set_remove1_subset [THEN subsetD])

lemma tail_sorted_remove1: "tail_sorted et xs \<Longrightarrow> tail_sorted et (remove1 a xs)"
proof (cases xs)
  case (Cons x ys)
  assume "tail_sorted et xs"
  with Cons have "sorted_wrt (\<lambda>a b. et a \<ge> et b) ys" by (simp add: tail_sorted_def)
  with Cons show ?thesis
    by (cases ys) (auto simp: tail_sorted_def sorted_wrt_remove1 split: if_splits)
qed (simp add: tail_sorted_def)

lemma tail_sorted_prefix: "tail_sorted et (xs @ ys) \<Longrightarrow> tail_sorted et xs"
  by (cases xs) (auto simp: tail_sorted_def sorted_wrt_append)

lemma tail_sorted_remaining: "tail_sorted et xs \<Longrightarrow> tail_sorted et (remaining h now xs)"
  by (metis overdue_remaining tail_sorted_prefix)

lemma remaining_last: "remaining h now xs \<noteq> [] \<Longrightarrow> now < endTime (h (last (remaining h now xs)))"
  by (induction xs rule: rev_induct) (auto simp: overdue_snoc remaining_def [of _ _ "[]"] split: if_splits)

lemma remaining_tail_unexpired:
  assumes "tail_sorted (\<lambda>a. endTime (h a)) xs" "a \<in> set (tl (remaining h now xs))"
  shows "now < endTime (h a)"
proof -
  let ?r = "remaining h now xs"
  have ts: "sorted_wrt (\<lambda>a b. endTime (h a) \<ge> endTime (h b)) (tl ?r)"
    using tail_sorted_remaining [OF assms(1)] by (simp add: tail_sorted_def)
  obtain t where t: "tl ?r = t @ [last (tl ?r)]"
    using assms(2) by (metis append_butlast_last_id list.set(1) empty_iff)
  have "tl ?r \<noteq> []" using assms(2) by auto
  then have l: "last (tl ?r) = last ?r" and "?r \<noteq> []" by (auto simp: last_tl)
  then have "now < endTime (h (last (tl ?r)))" using remaining_last [of h now xs] by simp
  moreover have "a = last (tl ?r) \<or> endTime (h a) \<ge> endTime (h (last (tl ?r)))"
    using ts assms(2) by (subst (asm) (1 2) t) (auto simp: sorted_wrt_append)
  ultimately show ?thesis by auto
qed

section \<open>The interface its clients use\<close>

text \<open>
  The gate, the services and the client SDK see a table of pending callbacks: \<open>add\<close> enters one, \<open>get\<close>
  takes one out.
\<close>

locale callback_store =
  fixes add :: "u32 \<Rightarrow> 'v \<Rightarrow> int \<Rightarrow> 't option \<Rightarrow> int \<Rightarrow> 's \<Rightarrow> 's option"
    and get :: "u32 \<Rightarrow> 's \<Rightarrow> 'v option \<times> 's"
    and lookup :: "'s \<Rightarrow> u32 \<Rightarrow> 'v option"
    and inv :: "'s \<Rightarrow> bool"
  assumes add_law: "inv s \<Longrightarrow> \<exists>s'. add k v w t now s = Some s' \<and> inv s' \<and> lookup s' = (lookup s)(k \<mapsto> v)"
    and get_law: "inv s \<Longrightarrow> fst (get k s) = lookup s k \<and> inv (snd (get k s)) \<and>
          lookup (snd (get k s)) = (lookup s)(k := None)"
begin

lemma add_returns: "inv s \<Longrightarrow> \<exists>s'. add k v w t now s = Some s'"
  using add_law by blast

lemma add_SomeD: "inv s \<Longrightarrow> add k v w t now s = Some s' \<Longrightarrow> inv s' \<and> lookup s' = (lookup s)(k \<mapsto> v)"
  using add_law [of s k v w t now] by auto

lemma get_after_add: "inv s \<Longrightarrow> add k v w t now s = Some s' \<Longrightarrow> fst (get k s') = Some v"
  using add_SomeD get_law by fastforce

lemma get_after_other_add:
  "inv s \<Longrightarrow> add j v w t now s = Some s' \<Longrightarrow> j \<noteq> k \<Longrightarrow> fst (get k s') = fst (get k s)"
  using add_SomeD [of s j v w t now s'] get_law by simp

lemma get_only_once: "inv s \<Longrightarrow> fst (get k (snd (get k s))) = None"
  using get_law by simp

lemma get_other: "inv s \<Longrightarrow> j \<noteq> k \<Longrightarrow> fst (get k (snd (get j s))) = fst (get k s)"
  using get_law by simp

end

definition cb_lookup :: "('v, 't) cbmgr \<Rightarrow> u32 \<Rightarrow> 'v option" where
  "cb_lookup s k = map_option fst (gCbMap s k)"

definition cb_wf :: "('v, 't) cbmgr \<Rightarrow> bool" where
  "cb_wf s \<longleftrightarrow> (\<exists>xs. rep s xs \<and> (\<forall>a \<in> set xs. a < allocated s) \<and> tail_sorted (deadline s) xs)"

lemma rep_new [simp]: "rep new_cbmgr []"
  by (simp add: rep_def new_cbmgr_def unlinked_def empty_node_def)

lemma cb_wfI:
  "rep s xs \<Longrightarrow> \<forall>a \<in> set xs. a < allocated s \<Longrightarrow> tail_sorted (deadline s) xs \<Longrightarrow> cb_wf s"
  unfolding cb_wf_def by blast

lemma cb_wf_new [simp]: "cb_wf new_cbmgr"
  by (rule cb_wfI [OF rep_new]) (simp_all add: tail_sorted_def)

lemma register_cb_rep:
  assumes "rep s xs" "\<forall>a \<in> set xs. a < allocated s" "register_cb k v w t now s = (a, s')"
  shows "a = allocated s" "rep s' xs" "a \<notin> set xs" "allocated s' = Suc a"
    "gCbMap s' = (gCbMap s)(k \<mapsto> (v, a))" "\<And>b. b \<noteq> a \<Longrightarrow> nodes s' b = nodes s b"
    "cbid (nodes s' a) = k" "endTime (nodes s' a) = w + now" "timeOutCb (nodes s' a) = t"
    "qsize s' = qsize s" "lastNode s' = lastNode s"
  using assms by (auto simp: register_cb_def Let_def rep_def unlinked_def)

lemma AddCallBack_refines:
  assumes "rep s xs" "\<forall>a \<in> set xs. a < allocated s" "AddCallBack k v w t now s = Some s'"
  shows "rep s' (q_add (deadline s') (allocated s) xs)" "allocated s' = Suc (allocated s)"
    "endTime (nodes s' (allocated s)) = w + now" "gCbMap s' = (gCbMap s)(k \<mapsto> (v, allocated s))"
proof -
  obtain a s1 where r: "register_cb k v w t now s = (a, s1)" by (cases "register_cb k v w t now s")
  note R = register_cb_rep [OF assms(1,2) r]
  have s': "rep s' (q_add (deadline s1) a xs)" "same_data s1 s'"
    using queueAdd_refines [OF R(2,3)] assms(3) r by (auto simp: AddCallBack_def)
  note F = same_data_fields [OF s'(2)]
  show "rep s' (q_add (deadline s') (allocated s) xs)" using s'(1) R(1) F(2) by simp
  show "allocated s' = Suc (allocated s)" "endTime (nodes s' (allocated s)) = w + now"
    "gCbMap s' = (gCbMap s)(k \<mapsto> (v, allocated s))"
    using R F by simp_all
qed

lemma AddCallBack_wf:
  assumes "cb_wf s"
  shows "\<exists>s'. AddCallBack k v w t now s = Some s' \<and> cb_wf s' \<and> cb_lookup s' = (cb_lookup s)(k \<mapsto> v)"
proof -
  from assms obtain xs where xs: "rep s xs" "\<forall>a \<in> set xs. a < allocated s" "tail_sorted (deadline s) xs"
    by (auto simp: cb_wf_def)
  obtain a s1 where r: "register_cb k v w t now s = (a, s1)" by (cases "register_cb k v w t now s")
  note R = register_cb_rep [OF xs(1,2) r]
  obtain s' where s': "queueAdd a s1 = Some s'" "rep s' (q_add (deadline s1) a xs)" "same_data s1 s'"
    using queueAdd_refines [OF R(2,3)] by blast
  have "tail_sorted (deadline s1) xs"
    using xs(3) R(3,6) unfolding tail_sorted_def
    by (metis (no_types, lifting) list.set_sel(2) sorted_wrt_mono_rel tl_Nil)
  then have "tail_sorted (deadline s') (q_add (deadline s1) a xs)"
    using tail_sorted_q_add same_data_fields(2) [OF s'(3)] by simp
  moreover have "\<forall>b \<in> set (q_add (deadline s1) a xs). b < allocated s'"
    using xs(2) R(1,4) same_data_fields(5) [OF s'(3)] by auto
  ultimately have "cb_wf s'" using s'(2) by (blast intro: cb_wfI)
  moreover have "cb_lookup s' = (cb_lookup s)(k \<mapsto> v)"
    using R(5) same_data_fields(4) [OF s'(3)] by (auto simp: cb_lookup_def)
  ultimately show ?thesis using r s'(1) by (simp add: AddCallBack_def)
qed

lemma queueDel_wf: "cb_wf s \<Longrightarrow> cb_wf (queueDel a s)"
proof -
  assume "cb_wf s"
  then obtain xs where xs: "rep s xs" "\<forall>a \<in> set xs. a < allocated s" "tail_sorted (deadline s) xs"
    by (auto simp: cb_wf_def)
  have sd: "same_data s (queueDel a s)" using queueDel_frame by blast
  have "\<forall>b \<in> set (remove1 a xs). b < allocated (queueDel a s)"
    using xs(2) set_remove1_subset [of a xs] same_data_fields(5) [OF sd] by auto
  moreover have "tail_sorted (deadline (queueDel a s)) (remove1 a xs)"
    using tail_sorted_remove1 [OF xs(3)] same_data_fields(2) [OF sd] by simp
  ultimately show ?thesis using queueDel_refines [OF xs(1)] by (blast intro: cb_wfI)
qed

lemma take_cb_wf: "take_cb k s = (r, s') \<Longrightarrow> cb_wf s' = cb_wf s"
  by (auto simp: take_cb_def cb_wf_def rep_def)

lemma GetCallBack_wf:
  assumes "cb_wf s"
  shows "fst (GetCallBack k s) = cb_lookup s k \<and> cb_wf (snd (GetCallBack k s)) \<and>
    cb_lookup (snd (GetCallBack k s)) = (cb_lookup s)(k := None)"
proof -
  obtain r s1 where t: "take_cb k s = (r, s1)" by (cases "take_cb k s")
  then have wf: "cb_wf s1" using take_cb_wf assms by blast
  have r: "r = gCbMap s k" and m: "gCbMap s1 = (gCbMap s)(k := None)" using t by (auto simp: take_cb_def)
  have q: "gCbMap (queueDel a s1) = gCbMap s1" for a using queueDel_frame same_data_fields(4) by blast
  show ?thesis
    using t wf r m q queueDel_wf [OF wf]
    by (auto simp: GetCallBack_def cb_lookup_def fun_eq_iff split: option.splits)
qed

interpretation cb: callback_store AddCallBack GetCallBack cb_lookup cb_wf
  by unfold_locales (erule AddCallBack_wf, erule GetCallBack_wf)

section \<open>Time-outs\<close>

lemma expire_Cons:
  "fst (expire h (a # as) m) = fst (expire h as (m(cbid (h a) := None)))"
  "snd (expire h (a # as) m) =
     (if m (cbid (h a)) \<noteq> None then [(cbid (h a), timeOutCb (h a))] else []) @
     snd (expire h as (m(cbid (h a) := None)))"
  by (simp_all split: prod.splits)

lemma expire_table: "fst (expire h as m) k = (if k \<in> (\<lambda>a. cbid (h a)) ` set as then None else m k)"
  by (induction as arbitrary: m) (auto simp: expire_Cons simp del: expire.simps(2))

lemma expire_fired:
  "set (map fst (snd (expire h as m))) = {k \<in> (\<lambda>a. cbid (h a)) ` set as. m k \<noteq> None}"
proof (induction as arbitrary: m)
  case (Cons a as)
  show ?case
    unfolding expire_Cons map_append set_append Cons.IH by auto
qed simp

lemma overdue_expired: "a \<in> set (overdue h now xs) \<Longrightarrow> endTime (h a) \<le> now"
  by (auto simp: overdue_def dest: set_takeWhileD)

lemma expire_distinct: "distinct (map fst (snd (expire h as m)))"
proof (induction as arbitrary: m)
  case (Cons a as)
  have "cbid (h a) \<notin> set (map fst (snd (expire h as (m(cbid (h a) := None)))))" unfolding expire_fired by simp
  with Cons.IH show ?case unfolding expire_Cons by simp
qed simp

lemma expire_timeouts: "set (snd (expire h as m)) \<subseteq> (\<lambda>a. (cbid (h a), timeOutCb (h a))) ` set as"
proof (induction as arbitrary: m)
  case (Cons a as)
  show ?case unfolding expire_Cons using Cons.IH [of "m(cbid (h a) := None)"] by (simp del: fun_upd_apply) blast
qed simp

text \<open>
  The store with its clock: a tick takes out some callbacks and runs their time-out functions. \<open>timeouts\<close> are the
  identifiers and time-out functions of the callbacks registered so far.
\<close>

locale callback_timer = callback_store +
  fixes tick :: "int \<Rightarrow> 'c \<Rightarrow> ('c \<times> (u32 \<times> 'b option) list) option"
    and timeouts :: "'c \<Rightarrow> (u32 \<times> 'b option) set"
  assumes add_timeouts: "inv s \<Longrightarrow> add k v w t now s = Some s' \<Longrightarrow> timeouts s' \<subseteq> insert (k, t) (timeouts s)"
    and get_timeouts: "inv s \<Longrightarrow> timeouts (snd (get k s)) \<subseteq> timeouts s"
    and tick_law: "inv s \<Longrightarrow> \<exists>s' fired. tick now s = Some (s', fired) \<and> inv s' \<and> timeouts s' \<subseteq> timeouts s
      \<and> set fired \<subseteq> timeouts s \<and> distinct (map fst fired) \<and> (\<forall>k\<in>fst ` set fired. lookup s k \<noteq> None)
      \<and> lookup s' = (\<lambda>k. if k \<in> fst ` set fired then None else lookup s k)"
begin

lemma tick_SomeD:
  assumes "inv s" "tick now s = Some (s', fired)"
  shows "inv s'" "timeouts s' \<subseteq> timeouts s" "set fired \<subseteq> timeouts s" "distinct (map fst fired)"
    "\<forall>k\<in>fst ` set fired. lookup s k \<noteq> None" "lookup s' = (\<lambda>k. if k \<in> fst ` set fired then None else lookup s k)"
  using tick_law [OF assms(1), of now] assms(2) by auto

lemma answered_not_timed_out:
  assumes "inv s" "tick now (snd (get k s)) = Some (s', fired)"
  shows "k \<notin> fst ` set fired"
  using tick_SomeD(5) [OF _ assms(2)] get_law [OF assms(1), of k] by auto

lemma timed_out_not_answered:
  assumes "inv s" "tick now s = Some (s', fired)" "k \<in> fst ` set fired"
  shows "fst (get k s') = None"
  using tick_SomeD(1,6) [OF assms(1,2)] assms(3) get_law [of s' k] by simp

end

definition cb_timeouts :: "('v, 't) cbmgr \<Rightarrow> (u32 \<times> 't option) set" where
  "cb_timeouts s = (\<lambda>a. (cbid (nodes s a), timeOutCb (nodes s a))) ` {a. a < allocated s}"

lemma cb_timeouts_new [simp]: "cb_timeouts new_cbmgr = {}"
  by (simp add: cb_timeouts_def new_cbmgr_def)

lemma same_data_timeouts: "same_data s s' \<Longrightarrow> cb_timeouts s' = cb_timeouts s"
  using same_data_fields(1,3,5) [of s s'] by (simp add: cb_timeouts_def)

lemma AddCallBack_timeouts:
  assumes "cb_wf s" "AddCallBack k v w t now s = Some s'"
  shows "cb_timeouts s' \<subseteq> insert (k, t) (cb_timeouts s)"
proof -
  from assms(1) obtain xs where xs: "rep s xs" "\<forall>a \<in> set xs. a < allocated s" by (auto simp: cb_wf_def)
  obtain a s1 where r: "register_cb k v w t now s = (a, s1)" by (cases "register_cb k v w t now s")
  note R = register_cb_rep [OF xs r]
  have "same_data s1 s'" using queueAdd_refines [OF R(2,3)] assms(2) r by (auto simp: AddCallBack_def)
  then have "cb_timeouts s' = cb_timeouts s1" by (rule same_data_timeouts)
  also have "\<dots> \<subseteq> insert (k, t) (cb_timeouts s)"
    using R(1,4,6,7,9) by (force simp: cb_timeouts_def less_Suc_eq)
  finally show ?thesis .
qed

lemma GetCallBack_timeouts: "cb_timeouts (snd (GetCallBack k s)) \<subseteq> cb_timeouts s"
proof -
  obtain r s1 where t: "take_cb k s = (r, s1)" by (cases "take_cb k s")
  then have "cb_timeouts s1 = cb_timeouts s" by (auto simp: take_cb_def cb_timeouts_def)
  moreover have "cb_timeouts (queueDel a s1) = cb_timeouts s1" for a
    by (rule same_data_timeouts) (use queueDel_frame in blast)
  ultimately show ?thesis using t by (auto simp: GetCallBack_def split: option.splits)
qed

lemma tick_wf:
  assumes "cb_wf s"
  shows "\<exists>s' fired. priorityQueueTick now s = Some (s', fired) \<and> cb_wf s' \<and> cb_timeouts s' \<subseteq> cb_timeouts s
      \<and> set fired \<subseteq> cb_timeouts s \<and> distinct (map fst fired) \<and> (\<forall>k\<in>fst ` set fired. cb_lookup s k \<noteq> None)
      \<and> cb_lookup s' = (\<lambda>k. if k \<in> fst ` set fired then None else cb_lookup s k)"
proof -
  from assms obtain xs where xs: "rep s xs" "\<forall>a \<in> set xs. a < allocated s" "tail_sorted (deadline s) xs"
    by (auto simp: cb_wf_def)
  let ?o = "overdue (nodes s) now xs" and ?r = "remaining (nodes s) now xs"
  let ?f = "snd (expire (nodes s) ?o (gCbMap s))"
  obtain s' where s': "priorityQueueTick now s = Some (s', ?f)" "rep s' ?r" "gCbMap s' = fst (expire (nodes s) ?o (gCbMap s))"
    "allocated s' = allocated s" "\<forall>a. data (nodes s' a) = data (nodes s a)"
    using tick_refines [OF xs(1)] by blast
  have sub: "set ?r \<subseteq> set xs" "set ?o \<subseteq> set xs" using overdue_remaining [of xs "nodes s" now] by (metis set_append Un_upper1, metis set_append set_rev Un_upper2)
  have dl: "deadline s' = deadline s" using s'(5) data_eqD by (intro ext) blast
  have tm: "timeOutCb (nodes s' a) = timeOutCb (nodes s a)" "cbid (nodes s' a) = cbid (nodes s a)" for a using s'(5) data_eqD by blast+
  have "cb_wf s'"
    by (rule cb_wfI [OF s'(2)]) (use sub(1) xs(2) s'(4) tail_sorted_remaining [OF xs(3)] dl in auto)
  moreover have "cb_timeouts s' \<subseteq> cb_timeouts s"
    using s'(4) tm by (simp add: cb_timeouts_def)
  moreover have "set ?f \<subseteq> cb_timeouts s"
    using expire_timeouts [of "nodes s" ?o "gCbMap s"] sub(2) xs(2) by (force simp: cb_timeouts_def)
  moreover have fired: "fst ` set ?f = {k \<in> (\<lambda>a. cbid (nodes s a)) ` set ?o. gCbMap s k \<noteq> None}"
    using expire_fired [of "nodes s" ?o "gCbMap s"] by (simp only: set_map)
  have "gCbMap s' k = (if k \<in> fst ` set ?f then None else gCbMap s k)" for k
    unfolding s'(3) expire_table fired by (cases "gCbMap s k") auto
  then have "cb_lookup s' = (\<lambda>k. if k \<in> fst ` set ?f then None else cb_lookup s k)"
    by (simp add: cb_lookup_def fun_eq_iff)
  moreover have "\<forall>k\<in>fst ` set ?f. cb_lookup s k \<noteq> None" unfolding fired cb_lookup_def by simp
  ultimately show ?thesis
    using s'(1) expire_distinct [of "nodes s" ?o "gCbMap s"] by blast
qed

interpretation cbt: callback_timer AddCallBack GetCallBack cb_lookup cb_wf priorityQueueTick cb_timeouts
  by unfold_locales (erule AddCallBack_timeouts, assumption, rule GetCallBack_timeouts, erule tick_wf)

end
