(* ===== verification/Callback_System.thy ===== *)
theory Callback_System
  imports Callback_Mgr
begin

text \<open>
  The callback manager under concurrency: the goroutine \<open>StartCallbackMgr\<close> owns the queue and serves
  the unbuffered channels \<open>chQueueAdd\<close> and \<open>chQueueDel\<close> and the one-second timer, while any number of
  goroutines call \<open>AddCallBack\<close> and \<open>GetCallBack\<close>. A step is one critical section under \<open>cbMutex\<close>, one
  channel receive, or one node of a tick; \<open>chAdd\<close> and \<open>chDel\<close> hold the nodes whose senders are blocked.

  The identifiers given to \<open>AddCallBack\<close> come from \<open>GenGid\<close> and are fresh until the counter wraps;
  \<open>usedIds\<close> records them, and \<open>delivered\<close> and \<open>timedOut\<close> record which callbacks were handed to a
  \<open>GetCallBack\<close> and which were timed out by a tick.
\<close>

section \<open>The step relation\<close>

datatype mgr_pc = Selecting | Ticking int "addr option"

record ('v, 't) cbsys =
  mgr :: "('v, 't) cbmgr"
  pc :: mgr_pc
  chAdd :: "addr list"
  chDel :: "addr list"
  usedIds :: "u32 set"
  delivered :: "u32 list"
  timedOut :: "u32 list"

definition init_cbsys :: "('v, 't) cbsys" where
  "init_cbsys = \<lparr>mgr = new_cbmgr, pc = Selecting, chAdd = [], chDel = [], usedIds = {},
     delivered = [], timedOut = []\<rparr>"

inductive cb_step :: "('v, 't) cbsys \<Rightarrow> ('v, 't) cbsys \<Rightarrow> bool" where
  call_add: "k \<notin> usedIds s \<Longrightarrow> register_cb k v w t now (mgr s) = (a, m) \<Longrightarrow>
    cb_step s (s\<lparr>mgr := m, chAdd := a # chAdd s, usedIds := insert k (usedIds s)\<rparr>)"
| call_get: "take_cb k (mgr s) = (Some (v, a), m) \<Longrightarrow>
    cb_step s (s\<lparr>mgr := m, chDel := a # chDel s, delivered := k # delivered s\<rparr>)"
| call_get_none: "take_cb k (mgr s) = (None, m) \<Longrightarrow> cb_step s (s\<lparr>mgr := m\<rparr>)"
| recv_add: "pc s = Selecting \<Longrightarrow> a \<in> set (chAdd s) \<Longrightarrow> queueAdd a (mgr s) = Some m \<Longrightarrow>
    cb_step s (s\<lparr>mgr := m, chAdd := remove1 a (chAdd s)\<rparr>)"
| recv_del: "pc s = Selecting \<Longrightarrow> a \<in> set (chDel s) \<Longrightarrow>
    cb_step s (s\<lparr>mgr := queueDel a (mgr s), chDel := remove1 a (chDel s)\<rparr>)"
| tick_begin: "pc s = Selecting \<Longrightarrow> cb_step s (s\<lparr>pc := Ticking now (lastNode (mgr s))\<rparr>)"
| tick_one: "pc s = Ticking now (Some c) \<Longrightarrow> endTime (nodes (mgr s) c) \<le> now \<Longrightarrow>
    tick_node c (mgr s) = (m, fired) \<Longrightarrow>
    cb_step s (s\<lparr>mgr := m, pc := Ticking now (prev (nodes (mgr s) c)),
                timedOut := map fst fired @ timedOut s\<rparr>)"
| tick_end: "pc s = Ticking now cur \<Longrightarrow> cur = None \<or> now < endTime (nodes (mgr s) (the cur)) \<Longrightarrow>
    cb_step s (s\<lparr>pc := Selecting\<rparr>)"

inductive cb_reachable :: "('v, 't) cbsys \<Rightarrow> bool" where
  reach_init: "cb_reachable init_cbsys"
| reach_step: "cb_reachable s \<Longrightarrow> cb_step s s' \<Longrightarrow> cb_reachable s'"

section \<open>Invariant\<close>

text \<open>\<open>xs\<close> is the list the queue represents.\<close>

definition queue_inv :: "('v, 't) cbsys \<Rightarrow> addr list \<Rightarrow> bool" where
  "queue_inv s xs \<longleftrightarrow>
     rep (mgr s) xs \<and> tail_sorted (deadline (mgr s)) xs \<and> distinct (xs @ chAdd s) \<and>
     (\<forall>a \<in> set xs \<union> set (chAdd s). a < allocated (mgr s)) \<and>
     (\<forall>now cur. pc s = Ticking now cur \<longrightarrow> cur = lastNode (mgr s))"

text \<open>Every table entry points to its own node, which is queued or about to be queued.\<close>

definition table_inv :: "('v, 't) cbsys \<Rightarrow> addr list \<Rightarrow> bool" where
  "table_inv s xs \<longleftrightarrow>
     (\<forall>k v a. gCbMap (mgr s) k = Some (v, a) \<longrightarrow>
        a \<in> set xs \<union> set (chAdd s) \<and> cbid (nodes (mgr s) a) = k)"

definition log_inv :: "('v, 't) cbsys \<Rightarrow> bool" where
  "log_inv s \<longleftrightarrow>
     usedIds s = dom (gCbMap (mgr s)) \<union> set (delivered s) \<union> set (timedOut s) \<and>
     distinct (delivered s @ timedOut s) \<and>
     dom (gCbMap (mgr s)) \<inter> set (delivered s @ timedOut s) = {}"

lemmas sys_inv_defs = queue_inv_def table_inv_def log_inv_def

lemma sorted_wrt_iff:
  assumes "\<And>a b. a \<in> set ys \<Longrightarrow> b \<in> set ys \<Longrightarrow> P a b = Q a b"
  shows "sorted_wrt P ys = sorted_wrt Q ys"
  using assms by (induction ys) auto

lemma tail_sorted_cong:
  assumes "\<And>a. a \<in> set xs \<Longrightarrow> et' a = et a"
  shows "tail_sorted et' xs = tail_sorted et xs"
  using assms unfolding tail_sorted_def by (cases xs) (auto intro!: sorted_wrt_iff)

text \<open>A change of the manager that keeps the data of the allocated nodes.\<close>

lemma same_data_deadline: "same_data m m' \<Longrightarrow> tail_sorted (deadline m') xs = tail_sorted (deadline m) xs"
  by (rule tail_sorted_cong) (simp add: same_data_fields)

subsection \<open>Callers\<close>

lemma inv_call_add:
  assumes "queue_inv s xs" "table_inv s xs" "log_inv s" "k \<notin> usedIds s"
    "register_cb k v w t now (mgr s) = (a, m)"
  defines "s' \<equiv> s\<lparr>mgr := m, chAdd := a # chAdd s, usedIds := insert k (usedIds s)\<rparr>"
  shows "queue_inv s' xs" "table_inv s' xs" "log_inv s'"
proof -
  have xs: "rep (mgr s) xs" "\<forall>a \<in> set xs. a < allocated (mgr s)" using assms(1) by (auto simp: queue_inv_def)
  note R = register_cb_rep [OF xs assms(5)]
  have old: "b \<noteq> a" if "b \<in> set xs \<union> set (chAdd s)" for b
    using that assms(1) R(1) by (auto simp: queue_inv_def)
  have "tail_sorted (deadline m) xs = tail_sorted (deadline (mgr s)) xs"
    by (rule tail_sorted_cong) (use old R(6) in auto)
  then show "queue_inv s' xs"
    using assms(1) R old by (auto simp: queue_inv_def s'_def less_Suc_eq)
  show "table_inv s' xs"
    using assms(2) R old by (auto simp: table_inv_def s'_def)
  show "log_inv s'"
    using assms(3,4) R(5) by (auto simp: log_inv_def s'_def)
qed

lemma take_cb_simps:
  assumes "take_cb k m = (r, m')"
  shows "gCbMap m k = r" "gCbMap m' = (gCbMap m)(k := None)" "nodes m' = nodes m"
    "allocated m' = allocated m" "lastNode m' = lastNode m" "rep m' xs = rep m xs" "qsize m' = qsize m"
  using assms by (auto simp: take_cb_def rep_def)

lemma inv_call_get:
  assumes "queue_inv s xs" "table_inv s xs" "log_inv s" "take_cb k (mgr s) = (Some (v, a), m)"
  defines "s' \<equiv> s\<lparr>mgr := m, chDel := a # chDel s, delivered := k # delivered s\<rparr>"
  shows "queue_inv s' xs" "table_inv s' xs" "log_inv s'"
proof -
  note T = take_cb_simps [OF assms(4)]
  show "queue_inv s' xs" using assms(1) T by (simp add: queue_inv_def s'_def)
  show "table_inv s' xs" using assms(2) T by (simp add: table_inv_def s'_def)
  have "k \<in> dom (gCbMap (mgr s))" using T(1) by blast
  then show "log_inv s'" using assms(3) T(2) by (auto simp: log_inv_def s'_def)
qed

lemma inv_call_get_none:
  assumes "queue_inv s xs" "table_inv s xs" "log_inv s" "take_cb k (mgr s) = (None, m)"
  shows "queue_inv (s\<lparr>mgr := m\<rparr>) xs" "table_inv (s\<lparr>mgr := m\<rparr>) xs" "log_inv (s\<lparr>mgr := m\<rparr>)"
proof -
  have "(gCbMap (mgr s))(k := None) = gCbMap (mgr s)"
    using take_cb_simps(1) [OF assms(4)] by auto
  then have "m = mgr s" using assms(4) by (simp add: take_cb_def)
  with assms show "queue_inv (s\<lparr>mgr := m\<rparr>) xs" "table_inv (s\<lparr>mgr := m\<rparr>) xs" "log_inv (s\<lparr>mgr := m\<rparr>)"
    by simp_all
qed

subsection \<open>The manager goroutine\<close>

lemma inv_recv_add:
  assumes "queue_inv s xs" "table_inv s xs" "log_inv s" "pc s = Selecting" "a \<in> set (chAdd s)"
    "queueAdd a (mgr s) = Some m"
  defines "s' \<equiv> s\<lparr>mgr := m, chAdd := remove1 a (chAdd s)\<rparr>" and "xs' \<equiv> q_add (deadline (mgr s)) a xs"
  shows "queue_inv s' xs'" "table_inv s' xs'" "log_inv s'"
proof -
  have r: "rep (mgr s) xs" and na: "a \<notin> set xs" and d: "distinct (chAdd s)"
    using assms(1,5) by (auto simp: queue_inv_def)
  have m: "rep m xs'" "same_data (mgr s) m"
    using queueAdd_refines [OF r na] assms(6) by (auto simp: xs'_def)
  note F = same_data_fields [OF m(2)]
  have "tail_sorted (deadline m) xs'"
    using assms(1) tail_sorted_q_add unfolding same_data_deadline [OF m(2)] xs'_def queue_inv_def by blast
  then show "queue_inv s' xs'"
    using assms(1,4,5) m(1) d na F(5) distinct_q_add [OF na]
    by (auto simp: queue_inv_def s'_def xs'_def)
  show "table_inv s' xs'"
    using assms(2) d F by (auto simp: table_inv_def s'_def xs'_def)
  show "log_inv s'" using assms(3) F(4) by (simp add: log_inv_def s'_def)
qed

lemma inv_recv_del:
  assumes "queue_inv s xs" "table_inv s xs" "log_inv s" "pc s = Selecting"
    "\<forall>k v. gCbMap (mgr s) k \<noteq> Some (v, a)"
  defines "s' \<equiv> s\<lparr>mgr := queueDel a (mgr s), chDel := remove1 a (chDel s)\<rparr>"
  shows "queue_inv s' (remove1 a xs)" "table_inv s' (remove1 a xs)" "log_inv s'"
proof -
  have r: "rep (mgr s) xs" and d: "distinct xs" using assms(1) by (auto simp: queue_inv_def)
  have sd: "same_data (mgr s) (queueDel a (mgr s))" using queueDel_frame by blast
  note F = same_data_fields [OF sd]
  have "tail_sorted (deadline (queueDel a (mgr s))) (remove1 a xs)"
    using assms(1) tail_sorted_remove1 unfolding same_data_deadline [OF sd] queue_inv_def by blast
  then show "queue_inv s' (remove1 a xs)"
    using assms(1,4) queueDel_refines [OF r] d F(5)
    by (auto simp: queue_inv_def s'_def)
  show "table_inv s' (remove1 a xs)"
    using assms(2,5) d F by (auto simp: table_inv_def s'_def)
  show "log_inv s'" using assms(3) F(4) by (simp add: log_inv_def s'_def)
qed

text \<open>A node handed to \<open>chQueueDel\<close> has left the table for good: its identifier is spent.\<close>

definition del_inv :: "('v, 't) cbsys \<Rightarrow> bool" where
  "del_inv s \<longleftrightarrow> (\<forall>a \<in> set (chDel s). a < allocated (mgr s) \<and> cbid (nodes (mgr s) a) \<in> set (delivered s))"

lemma tick_node_simps:
  assumes "tick_node c m = (m', fired)" "rep m (ys @ [c])"
  shows "rep m' ys" "gCbMap m' = (gCbMap m)(cbid (nodes m c) := None)" "allocated m' = allocated m"
    "\<And>a. data (nodes m' a) = data (nodes m a)"
    "fired = (if gCbMap m (cbid (nodes m c)) = None then [] else [(cbid (nodes m c), timeOutCb (nodes m c))])"
    "qsize m' = qsize m - 1"
proof -
  let ?m1 = "m\<lparr>gCbMap := (gCbMap m)(cbid (nodes m c) := None)\<rparr>"
  have m': "m' = queueDel c ?m1" and "rep ?m1 (ys @ [c])"
    using assms by (auto simp: tick_node_def Let_def rep_def)
  then show "rep m' ys" using queueDel_present [of ?m1 ys c "[]"] by simp
  have "same_data ?m1 m'" "qsize m' = qsize ?m1 - 1" using queueDel_frame [of ?m1 c] m' by simp_all
  then show "gCbMap m' = (gCbMap m)(cbid (nodes m c) := None)" "allocated m' = allocated m"
    "\<And>a. data (nodes m' a) = data (nodes m a)" "qsize m' = qsize m - 1"
    by (simp_all add: same_data_def)
  show "fired = (if gCbMap m (cbid (nodes m c)) = None then [] else [(cbid (nodes m c), timeOutCb (nodes m c))])"
    using assms(1) by (auto simp: tick_node_def Let_def)
qed

lemma inv_tick_one:
  assumes "queue_inv s xs" "table_inv s xs" "log_inv s" "pc s = Ticking now (Some c)"
    "tick_node c (mgr s) = (m, fired)"
  defines "s' \<equiv> s\<lparr>mgr := m, pc := Ticking now (prev (nodes (mgr s) c)), timedOut := map fst fired @ timedOut s\<rparr>"
  shows "queue_inv s' (butlast xs)" "table_inv s' (butlast xs)" "log_inv s'" "xs = butlast xs @ [c]"
proof -
  have "lstp None xs = Some c" using assms(1,4) by (auto simp: queue_inv_def rep_def)
  then show xs: "xs = butlast xs @ [c]" by (cases xs rule: rev_cases) auto
  then have r: "rep (mgr s) (butlast xs @ [c])" using assms(1) by (simp add: queue_inv_def)
  note T = tick_node_simps [OF assms(5) r]
  have D: "cbid (nodes m a) = cbid (nodes (mgr s) a)" "endTime (nodes m a) = endTime (nodes (mgr s) a)" for a
    using data_eqD [OF T(4)] by blast+
  have "prev (nodes (mgr s) c) = lastNode m" using r T(1) by (simp add: rep_def)
  moreover have "tail_sorted (deadline m) (butlast xs)"
    using assms(1) xs tail_sorted_prefix [of "deadline (mgr s)" "butlast xs" "[c]"]
      tail_sorted_cong [where et = "deadline (mgr s)" and et' = "deadline m"] D(2)
    by (auto simp: queue_inv_def)
  moreover have "distinct (butlast xs @ chAdd s)" "set (butlast xs) \<subseteq> set xs"
    using assms(1) by (auto simp: queue_inv_def distinct_butlast dest: in_set_butlastD)
  ultimately show "queue_inv s' (butlast xs)"
    using assms(1) T(1,3) by (auto simp: queue_inv_def s'_def)
  have "set xs = insert c (set (butlast xs))" by (subst xs) auto
  then show "table_inv s' (butlast xs)"
    using assms(2) T(2) D(1) by (auto simp: table_inv_def s'_def)
  show "log_inv s'" using assms(3) T(2,5) by (auto simp: log_inv_def s'_def)
qed

subsection \<open>Every step\<close>

definition sys_inv :: "('v, 't) cbsys \<Rightarrow> addr list \<Rightarrow> bool" where
  "sys_inv s xs \<longleftrightarrow> queue_inv s xs \<and> table_inv s xs \<and> log_inv s \<and> del_inv s"

lemma sys_invD:
  assumes "sys_inv s xs"
  shows "queue_inv s xs" "table_inv s xs" "log_inv s" "del_inv s"
  using assms by (simp_all add: sys_inv_def)

lemma sys_inv_init: "sys_inv init_cbsys []"
  by (simp add: sys_inv_def sys_inv_defs del_inv_def init_cbsys_def tail_sorted_def) (simp add: new_cbmgr_def)

lemma cb_step_inv:
  assumes "cb_step s s'" "sys_inv s xs"
  shows "\<exists>xs'. sys_inv s' xs'"
  using assms
proof (induction rule: cb_step.induct)
  case (call_add k s v w t now a m)
  note I = sys_invD [OF call_add.prems]
  have R: "a = allocated (mgr s)" "allocated m = Suc a" "\<And>b. b \<noteq> a \<Longrightarrow> nodes m b = nodes (mgr s) b"
    using call_add.hyps(2) by (auto simp: register_cb_def Let_def)
  then have "del_inv (s\<lparr>mgr := m, chAdd := a # chAdd s, usedIds := insert k (usedIds s)\<rparr>)"
    using I(4) by (force simp: del_inv_def)
  with inv_call_add [OF I(1-3) call_add.hyps] show ?case unfolding sys_inv_def by blast
next
  case (call_get k s v a m)
  note I = sys_invD [OF call_get.prems]
  note T = take_cb_simps [OF call_get.hyps]
  have "cbid (nodes (mgr s) a) = k" "a < allocated (mgr s)"
    using I(1,2) T(1) by (auto simp: table_inv_def queue_inv_def)
  then have "del_inv (s\<lparr>mgr := m, chDel := a # chDel s, delivered := k # delivered s\<rparr>)"
    using I(4) T by (auto simp: del_inv_def)
  with inv_call_get [OF I(1-3) call_get.hyps] show ?case unfolding sys_inv_def by blast
next
  case (call_get_none k s m)
  note I = sys_invD [OF call_get_none.prems]
  have "del_inv (s\<lparr>mgr := m\<rparr>)" using I(4) take_cb_simps [OF call_get_none.hyps] by (simp add: del_inv_def)
  with inv_call_get_none [OF I(1-3) call_get_none.hyps] show ?case unfolding sys_inv_def by blast
next
  case (recv_add s a m)
  note I = sys_invD [OF recv_add.prems]
  have "rep (mgr s) xs" "a \<notin> set xs" using I(1) recv_add.hyps(2) by (auto simp: queue_inv_def)
  from queueAdd_refines [OF this] have "same_data (mgr s) m" using recv_add.hyps(3) by auto
  then have "del_inv (s\<lparr>mgr := m, chAdd := remove1 a (chAdd s)\<rparr>)"
    using I(4) by (simp add: del_inv_def same_data_fields)
  with inv_recv_add [OF I(1-3) recv_add.hyps] show ?case unfolding sys_inv_def by blast
next
  case (recv_del s a)
  note I = sys_invD [OF recv_del.prems]
  have "same_data (mgr s) (queueDel a (mgr s))" using queueDel_frame by blast
  then have "del_inv (s\<lparr>mgr := queueDel a (mgr s), chDel := remove1 a (chDel s)\<rparr>)"
    using I(4) by (auto simp: del_inv_def same_data_fields dest: notin_set_remove1)
  moreover have "\<forall>k v. gCbMap (mgr s) k \<noteq> Some (v, a)"
    using I(2,3,4) recv_del.hyps(2) by (force simp: table_inv_def log_inv_def del_inv_def)
  ultimately show ?case
    using inv_recv_del [OF I(1-3) recv_del.hyps(1)] unfolding sys_inv_def by blast
next
  case (tick_begin s now)
  then have "sys_inv (s\<lparr>pc := Ticking now (lastNode (mgr s))\<rparr>) xs"
    by (simp add: sys_inv_def sys_inv_defs del_inv_def)
  then show ?case ..
next
  case (tick_one s now c m fired)
  note I = sys_invD [OF tick_one.prems]
  note T = inv_tick_one [OF I(1-3) tick_one.hyps(1,3)]
  have r: "rep (mgr s) (butlast xs @ [c])" using I(1) T(4) by (simp add: queue_inv_def)
  have "cbid (nodes m a) = cbid (nodes (mgr s) a)" "allocated m = allocated (mgr s)" for a
    using tick_node_simps(3,4) [OF tick_one.hyps(3) r] data_eqD by blast+
  then have "del_inv (s\<lparr>mgr := m, pc := Ticking now (prev (nodes (mgr s) c)), timedOut := map fst fired @ timedOut s\<rparr>)"
    using I(4) by (simp add: del_inv_def)
  with T(1-3) show ?case unfolding sys_inv_def by blast
next
  case (tick_end s now cur)
  then have "sys_inv (s\<lparr>pc := Selecting\<rparr>) xs"
    by (simp add: sys_inv_def sys_inv_defs del_inv_def)
  then show ?case ..
qed

lemma cb_reachable_inv: "cb_reachable s \<Longrightarrow> \<exists>xs. sys_inv s xs"
  by (induction rule: cb_reachable.induct) (blast intro: sys_inv_init cb_step_inv)+

section \<open>Properties\<close>

text \<open>
  Property C12. Whatever the interleaving of callers, channel receives and ticks, the linked list stays
  intact: the queue represents a list of distinct nodes with consistent \<open>prev\<close>, \<open>next\<close>, \<open>firstNode\<close>
  and \<open>lastNode\<close> links, sorted by decreasing deadline behind its first node; and every registered
  callback has its node in that list or in the hands of a sender that is about to add it.
\<close>

theorem callback_queue_integrity:
  assumes "cb_reachable s"
  shows "\<exists>xs. rep (mgr s) xs \<and> tail_sorted (deadline (mgr s)) xs \<and>
    (\<forall>k v a. gCbMap (mgr s) k = Some (v, a) \<longrightarrow>
       cbid (nodes (mgr s) a) = k \<and> a \<in> set xs \<union> set (chAdd s))"
proof -
  obtain xs where "sys_inv s xs" using cb_reachable_inv [OF assms] ..
  then show ?thesis unfolding sys_inv_def queue_inv_def table_inv_def by blast
qed

text \<open>
  Property C4. Each callback completes at most once, by a \<open>GetCallBack\<close> or by its time-out but never
  by both, and none is lost: the identifiers given to \<open>AddCallBack\<close> are exactly those still in the
  table, those delivered and those timed out, and these three are disjoint.
\<close>

theorem callback_completes_at_most_once:
  assumes "cb_reachable s"
  shows "distinct (delivered s @ timedOut s) \<and>
    usedIds s = dom (gCbMap (mgr s)) \<union> set (delivered s) \<union> set (timedOut s) \<and>
    dom (gCbMap (mgr s)) \<inter> (set (delivered s) \<union> set (timedOut s)) = {}"
  using cb_reachable_inv [OF assms] by (auto simp: sys_inv_def log_inv_def)


subsection \<open>A run in which a delivery and a tick overlap\<close>

text \<open>
  One callback is registered and queued, a \<open>GetCallBack\<close> takes it out of the table and blocks on
  \<open>chQueueDel\<close>, the timer fires first and unlinks the overdue node, then the channel is served.
\<close>

type_synonym demo_sys = "(nat, nat) cbsys"

definition demo1 :: demo_sys where
  "demo1 = init_cbsys\<lparr>mgr := snd (register_cb 1 7 33 None 100 new_cbmgr), chAdd := [0], usedIds := {1}\<rparr>"

definition demo_node :: "nat node" where
  "demo_node = \<lparr>cbid = 1, endTime = 133, timeOutCb = None, prev = None, nxt = None\<rparr>"

definition demo_mgr :: "(u32 \<rightharpoonup> nat \<times> addr) \<Rightarrow> addr option \<Rightarrow> 32 word \<Rightarrow> (nat, nat) cbmgr" where
  "demo_mgr m q n = \<lparr>gCbMap = m, nodes = (\<lambda>_. empty_node)(0 := demo_node), allocated = 1,
     firstNode = q, lastNode = q, qsize = n\<rparr>"

definition demo2 :: demo_sys where
  "demo2 = demo1\<lparr>mgr := demo_mgr [1 \<mapsto> (7, 0)] (Some 0) 1, chAdd := []\<rparr>"

definition demo3 :: demo_sys where
  "demo3 = demo2\<lparr>mgr := demo_mgr Map.empty (Some 0) 1, chDel := [0], delivered := [1]\<rparr>"

definition demo4 :: demo_sys where
  "demo4 = demo3\<lparr>pc := Ticking 200 (Some 0)\<rparr>"

definition demo5 :: demo_sys where
  "demo5 = demo3\<lparr>mgr := demo_mgr Map.empty None 0, pc := Ticking 200 None\<rparr>"

definition demo6 :: demo_sys where
  "demo6 = demo3\<lparr>mgr := demo_mgr Map.empty None 0\<rparr>"

definition demo7 :: demo_sys where
  "demo7 = demo6\<lparr>mgr := demo_mgr Map.empty None (- 1), chDel := []\<rparr>"

lemmas demo_defs = demo1_def demo2_def demo3_def demo4_def demo5_def demo6_def demo7_def demo_mgr_def
  demo_node_def init_cbsys_def new_cbmgr_def empty_node_def

lemma demo_step1: "cb_step init_cbsys demo1"
proof -
  have "register_cb 1 7 33 None 100 (mgr (init_cbsys :: demo_sys)) = (0, snd (register_cb 1 7 33 None 100 new_cbmgr))"
    by (simp add: register_cb_def Let_def init_cbsys_def new_cbmgr_def)
  from cb_step.call_add [OF _ this] show ?thesis by (simp add: demo1_def init_cbsys_def)
qed

lemma demo_step2: "cb_step demo1 demo2"
proof -
  have "queueAdd 0 (mgr demo1) = Some (demo_mgr [1 \<mapsto> (7, 0)] (Some 0) 1)"
    by (simp add: queueAdd_def register_cb_def Let_def demo_defs)
  from cb_step.recv_add [OF _ _ this] show ?thesis by (simp add: demo2_def) (simp add: demo1_def init_cbsys_def)
qed

lemma demo_step3: "cb_step demo2 demo3"
proof -
  have "take_cb 1 (mgr demo2) = (Some (7, 0), demo_mgr Map.empty (Some 0) 1)"
    by (simp add: take_cb_def demo2_def demo_mgr_def)
  from cb_step.call_get [OF this] show ?thesis by (simp add: demo3_def) (simp add: demo2_def demo1_def init_cbsys_def)
qed

lemma demo_step4: "cb_step demo3 demo4"
  using cb_step.tick_begin [of demo3 200] by (simp add: demo_defs)

lemma demo_step5: "cb_step demo4 demo5"
proof -
  have t: "tick_node 0 (mgr demo4) = (demo_mgr Map.empty None 0, [])"
    by (simp add: tick_node_def queueDel_def set_next_def set_prev_def Let_def demo_defs)
  have "cb_step demo4 (demo4\<lparr>mgr := demo_mgr Map.empty None 0, pc := Ticking 200 (prev (nodes (mgr demo4) 0)),
      timedOut := map fst ([] :: (u32 \<times> nat option) list) @ timedOut demo4\<rparr>)"
    by (rule cb_step.tick_one [OF _ _ t]) (simp_all add: demo_defs)
  then show ?thesis by (simp add: demo_defs)
qed

lemma demo_step6: "cb_step demo5 demo6"
  using cb_step.tick_end [of demo5 200 None] by (simp add: demo_defs)

lemma demo_step7: "cb_step demo6 demo7"
proof -
  have "queueDel 0 (mgr demo6) = demo_mgr Map.empty None (- 1)"
    by (simp add: queueDel_def set_next_def set_prev_def Let_def demo_defs)
  then show ?thesis using cb_step.recv_del [of demo6 0] by (simp add: demo7_def) (simp add: demo_defs)
qed

lemma demo_reachable: "cb_reachable demo2" "cb_reachable demo3" "cb_reachable demo7"
  using demo_step1 demo_step2 demo_step3 demo_step4 demo_step5 demo_step6 demo_step7
  by (meson cb_reachable.intros)+

theorem callback_queue_integrity_witness:
  "cb_reachable demo2 \<and> gCbMap (mgr demo2) 1 = Some (7, 0) \<and>
   (\<exists>xs. rep (mgr demo2) xs \<and> 0 \<in> set xs)"
proof -
  have m: "gCbMap (mgr demo2) 1 = Some (7, 0)" "chAdd demo2 = []" by (simp_all add: demo_defs)
  obtain xs where "rep (mgr demo2) xs" "0 \<in> set xs \<union> set (chAdd demo2)"
    using callback_queue_integrity [OF demo_reachable(1)] m(1) by blast
  with m demo_reachable(1) show ?thesis by auto
qed

theorem callback_completes_at_most_once_witness:
  "cb_reachable demo3 \<and> delivered demo3 = [1] \<and> usedIds demo3 = {1} \<and> timedOut demo3 = [] \<and>
   1 \<notin> dom (gCbMap (mgr demo3))"
proof -
  have d: "delivered demo3 = [1]" "timedOut demo3 = []" "usedIds demo3 = {1}" by (simp_all add: demo_defs)
  have "1 \<notin> dom (gCbMap (mgr demo3))"
    using callback_completes_at_most_once [OF demo_reachable(2)] d by auto
  with d demo_reachable(2) show ?thesis by simp
qed


text \<open>
  The counter \<open>gPriorityQueue.size\<close> does not follow the length of the queue: when a tick
  unlinks an overdue node whose \<open>GetCallBack\<close> is waiting on \<open>chQueueDel\<close>, the node is unlinked twice,
  which leaves the list intact and subtracts one too many from the counter. A state is reachable in
  which nothing is queued or waiting and the counter is \<open>-1\<close>.
\<close>

theorem queue_size_drifts:
  "\<exists>s :: demo_sys. cb_reachable s \<and> rep (mgr s) [] \<and> pc s = Selecting \<and> chAdd s = [] \<and> chDel s = [] \<and>
     sint (qsize (mgr s)) = - 1"
proof (intro exI conjI)
  show "cb_reachable demo7" by (rule demo_reachable)
  show "rep (mgr demo7) []" by (simp add: rep_def unlinked_def demo_defs)
qed (simp_all add: demo_defs)

section \<open>Deadlines\<close>


lemma demo2_queue: "rep (mgr demo2) [0]" "tail_sorted (deadline (mgr demo2)) [0]"
  by (auto simp: rep_def unlinked_def demo_defs tail_sorted_def lstp_def)


text \<open>
  Property C35. The first node of the queue escapes its deadline: \<open>queueAdd\<close> puts every later node
  behind it whatever its deadline, and the tick starts at the other end and stops at the first node
  that is not overdue. With a first callback due at \<open>w1\<close> and a second due at \<open>w2\<close>, a tick at any time
  from \<open>w1\<close> to before \<open>w2\<close> changes nothing: the overdue callback stays registered and its time-out is
  not called.
\<close>

theorem first_callback_timeout_delayed:
  assumes "AddCallBack k1 v1 w1 t1 0 new_cbmgr = Some s1" "AddCallBack k2 v2 w2 t2 0 s1 = Some s2"
    "k1 \<noteq> k2" "w1 \<le> now" "now < w2"
  shows "priorityQueueTick now s2 = Some (s2, []) \<and> cb_lookup s2 k1 = Some v1"
proof -
  have r1: "rep s1 [0]" "allocated s1 = 1"
    using AddCallBack_refines [OF rep_new _ assms(1)] by (simp_all add: new_cbmgr_def)
  then have "rep s2 [0, 1]" "endTime (nodes s2 1) = w2"
    using AddCallBack_refines [OF r1(1) _ assms(2)] by simp_all
  then have "lastNode s2 = Some 1 \<and> endTime (nodes s2 1) = w2" by (simp add: rep_def)
  then have "priorityQueueTick now s2 = Some (s2, [])"
    using assms(5) by (simp add: priorityQueueTick_def tick_loop.simps)
  moreover have "cb_wf s1 \<and> cb_lookup s1 k1 = Some v1"
    using cb.add_SomeD [OF cb_wf_new assms(1)] by simp
  then have "cb_lookup s2 k1 = Some v1" using cb.add_SomeD [OF _ assms(2)] assms(3) by simp
  ultimately show ?thesis ..
qed

theorem first_callback_timeout_delayed_witness:
  "\<exists>s1 s2 :: (nat, nat) cbmgr.
     AddCallBack 1 10 33 None 0 new_cbmgr = Some s1 \<and> AddCallBack 2 20 101 None 0 s1 = Some s2 \<and>
     priorityQueueTick 60 s2 = Some (s2, []) \<and> cb_lookup s2 1 = Some 10"
proof -
  obtain s1 :: "(nat, nat) cbmgr" where s1: "AddCallBack 1 10 33 None 0 new_cbmgr = Some s1"
    using cb.add_returns [OF cb_wf_new, of 1 "10 :: nat" 33 "None :: nat option" 0] by blast
  have "cb_wf s1" using cb.add_SomeD [OF cb_wf_new s1] by blast
  then obtain s2 where s2: "AddCallBack 2 20 101 None 0 s1 = Some s2"
    using cb.add_returns [of s1 2 20 101 None 0] by blast
  from first_callback_timeout_delayed [OF s1 s2, of 60] s1 s2 show ?thesis by auto
qed

text \<open>
  The table as its callers see it, in any well-formed state: \<open>AddCallBack\<close> always
  returns; a \<open>GetCallBack\<close> of the identifier just added returns what was stored, a second one finds
  nothing, and operations on one identifier do not affect another.
\<close>

theorem callback_table_contract:
  assumes "cb_wf s" "j \<noteq> k"
  shows "\<exists>s'. AddCallBack k v w t now s = Some s' \<and> cb_wf s' \<and>
    fst (GetCallBack k s') = Some v \<and>
    fst (GetCallBack k (snd (GetCallBack k s'))) = None \<and>
    fst (GetCallBack j s') = fst (GetCallBack j s) \<and>
    fst (GetCallBack k (snd (GetCallBack j s'))) = Some v"
proof -
  obtain s' where s': "AddCallBack k v w t now s = Some s'" using cb.add_returns [OF assms(1)] by blast
  then have wf: "cb_wf s'" using cb.add_SomeD [OF assms(1)] by blast
  show ?thesis
    using s' wf cb.get_after_add [OF assms(1) s'] cb.get_only_once [OF wf]
      cb.get_after_other_add [OF assms(1) s'] cb.get_other [OF wf assms(2)] assms(2) by auto
qed

theorem callback_table_contract_witness:
  "cb_wf (new_cbmgr :: (nat, nat) cbmgr) \<and>
   (\<exists>s'. AddCallBack 5 42 33 None 0 (new_cbmgr :: (nat, nat) cbmgr) = Some s' \<and> fst (GetCallBack 5 s') = Some 42)"
  using callback_table_contract [OF cb_wf_new, of 6 5 42 33 None 0] by auto

end
