(* ===== verification/Framing.thy ===== *)
theory Framing
  imports Utils
begin

text \<open>
  The message framing of \<open>ms_framework/msf_simple_rpc.go\<close> and the receive buffer that \<open>TcpClient\<close>,
  \<open>Remote\<close> and \<open>GateProxy\<close> each keep: a message is a two-byte big-endian length and that many bytes.
  Offsets and lengths are \<open>uint32\<close>. \<open>MessageDecode\<close> runs \<open>RpcDecode\<close> on each packet; that call is the
  argument \<open>rd\<close>, a state transformer that may panic.

  \<open>frames\<close> is the reference parser on lists; the main lemmas show that the offset loop computes it, that
  it does not depend on how the stream is cut into reads, and that it inverts \<open>MessageEncode\<close>.
\<close>

section \<open>Packets\<close>

definition MAX_PACKET_SIZE :: u32 where "MAX_PACKET_SIZE = 16 * 1024"
definition MESSAGE_SIZE_LEN :: u32 where "MESSAGE_SIZE_LEN = 2"
definition RECV_BUF_MAX_LEN :: u32 where "RECV_BUF_MAX_LEN = 10 * 1024 * 1024"

definition ReadPacketLen :: "bytes \<Rightarrow> u32 res" where
  "ReadPacketLen buf = res_bind (ReadUint16 buf) (\<lambda>v. Inr (ucast v))"

definition WritePacketLen :: "bytes \<Rightarrow> u32 \<Rightarrow> bytes res" where
  "WritePacketLen buf v = WriteUint16 buf (ucast v)"

definition MessageEncode :: "bytes \<Rightarrow> bytes res" where
  "MessageEncode buf =
     (let bufLen = (of_nat (length buf) :: u32) in
      if bufLen > MAX_PACKET_SIZE then Inl (ExplicitPanic ''message len > %!s(uint32=16384)'')
      else let msg = replicate (unat (MESSAGE_SIZE_LEN + bufLen)) 0 in
        res_bind (WritePacketLen msg bufLen)
          (\<lambda>m. let n = unat MESSAGE_SIZE_LEN in Inr (take n m @ go_copy (drop n m) buf)))"

lemma unat_ReadPacketLen:
  assumes "ReadPacketLen buf = Inr n"
  shows "unat n < 65536"
proof -
  obtain v :: u16 where "n = ucast v" using assms by (auto simp: ReadPacketLen_def res_bind_Inr_iff)
  then show ?thesis using unsigned_less [of v, where ?'a = nat] by (simp add: unsigned_ucast_eq take_bit_nat_eq_self)
qed

lemma decode_progress:
  fixes bufLen offset n :: u32
  assumes "offset < bufLen" "\<not> bufLen - offset < MESSAGE_SIZE_LEN + n" "unat n < 65536"
  shows "unat (offset + MESSAGE_SIZE_LEN + n) = unat offset + 2 + unat n"
    "unat offset + 2 + unat n \<le> unat bufLen"
proof -
  have m: "unat (MESSAGE_SIZE_LEN + n) = 2 + unat n"
    using assms(3) by (simp add: MESSAGE_SIZE_LEN_def unat_word_ariths)
  have d: "unat (bufLen - offset) = unat bufLen - unat offset"
    using assms(1) by (simp add: unat_sub word_less_def order.strict_implies_order)
  have lt: "unat offset < unat bufLen" using assms(1) by (simp add: word_less_nat_alt)
  show le: "unat offset + 2 + unat n \<le> unat bufLen"
    using assms(2) lt by (simp add: word_less_nat_alt m d)
  have "unat bufLen < 2 ^ 32" using unsigned_less [of bufLen] by simp
  with le show "unat (offset + MESSAGE_SIZE_LEN + n) = unat offset + 2 + unat n"
    by (simp add: MESSAGE_SIZE_LEN_def unat_word_ariths)
qed

lemma decode_decreases:
  fixes bufLen offset n :: u32
  assumes "offset < bufLen" "\<not> bufLen - offset < MESSAGE_SIZE_LEN + n" "ReadPacketLen buf = Inr n"
  shows "unat bufLen - unat (offset + MESSAGE_SIZE_LEN + n) < unat bufLen - unat offset"
proof -
  have n: "unat n < 65536" using assms(3) by (rule unat_ReadPacketLen)
  show ?thesis
    using assms(1) unfolding decode_progress(1) [OF assms(1,2) n] word_less_nat_alt by simp
qed

function decode_loop ::
  "(bytes \<Rightarrow> 's \<Rightarrow> 's res) \<Rightarrow> bytes \<Rightarrow> u32 \<Rightarrow> u32 \<Rightarrow> 's \<Rightarrow> (u32 \<times> 's) res" where
  "decode_loop rd msg bufLen offset s =
     (if offset < bufLen then
        if bufLen - offset < MESSAGE_SIZE_LEN then Inr (offset, s)
        else case ReadPacketLen (drop (unat offset) msg) of
            Inl e \<Rightarrow> Inl e
          | Inr pkgLen \<Rightarrow>
              if bufLen - offset < MESSAGE_SIZE_LEN + pkgLen then Inr (offset, s)
              else let offset1 = offset + MESSAGE_SIZE_LEN in
                if pkgLen > MAX_PACKET_SIZE
                then decode_loop rd msg bufLen (offset1 + pkgLen) s
                else case rd (take (unat pkgLen) (drop (unat offset1) msg)) s of
                    Inl e \<Rightarrow> Inl e
                  | Inr s1 \<Rightarrow> decode_loop rd msg bufLen (offset1 + pkgLen) s1
      else Inr (offset, s))"
  by pat_completeness auto
termination
  by (relation "measure (\<lambda>(rd, msg, bufLen, offset, s). unat bufLen - unat offset)")
     (auto intro: decode_decreases)

declare decode_loop.simps [simp del]

definition MessageDecode :: "(bytes \<Rightarrow> 's \<Rightarrow> 's res) \<Rightarrow> bytes \<Rightarrow> 's \<Rightarrow> (u32 \<times> 's) res" where
  "MessageDecode rd msg s = decode_loop rd msg (of_nat (length msg)) 0 s"

section \<open>The receive buffer\<close>

text \<open>
  The buffer of a connection: \<open>recvBuf\<close> of \<open>RECV_BUF_MAX_LEN\<close> bytes, the first \<open>remainLen\<close> of them
  pending. \<open>recv_fill\<close> is \<open>conn.Read(recvBuf[remainLen:])\<close> returning the bytes \<open>d\<close>, followed by
  \<open>remainLen += rLen\<close>; \<open>recv_consume\<close> is the subtraction of \<open>procLen\<close> and the move of the unread tail to
  the front of the array.
\<close>

record recv =
  recvBuf :: bytes
  remainLen :: u32

definition new_recv :: recv where
  "new_recv = \<lparr>recvBuf = replicate (unat RECV_BUF_MAX_LEN) 0, remainLen = 0\<rparr>"

definition recv_fill :: "recv \<Rightarrow> bytes \<Rightarrow> recv" where
  "recv_fill r d =
     r\<lparr>recvBuf := take (unat (remainLen r)) (recvBuf r) @ go_copy (drop (unat (remainLen r)) (recvBuf r)) d,
       remainLen := remainLen r + of_nat (length d)\<rparr>"

definition recv_consume :: "recv \<Rightarrow> u32 \<Rightarrow> recv" where
  "recv_consume r procLen =
     (let left = remainLen r - procLen in
      r\<lparr>recvBuf := go_copy (recvBuf r) (take (unat left) (drop (unat procLen) (recvBuf r))),
        remainLen := left\<rparr>)"

definition recv_decode :: "(bytes \<Rightarrow> 's \<Rightarrow> 's res) \<Rightarrow> recv \<Rightarrow> 's \<Rightarrow> (recv \<times> 's) res" where
  "recv_decode rd r s =
     res_bind (MessageDecode rd (take (unat (remainLen r)) (recvBuf r)) s)
       (\<lambda>(procLen, s'). Inr (recv_consume r procLen, s'))"

text \<open>
  A run of the read loop against a byte stream: each read asks for the free part of the buffer and gets at
  most \<open>n\<close> bytes of what is pending in the socket, with \<open>n\<close> chosen by the network.
\<close>

definition recv_space :: "recv \<Rightarrow> nat" where
  "recv_space r = length (recvBuf r) - unat (remainLen r)"

fun recv_run ::
  "(bytes \<Rightarrow> 's \<Rightarrow> 's res) \<Rightarrow> nat list \<Rightarrow> bytes \<Rightarrow> recv \<Rightarrow> 's \<Rightarrow> (bytes \<times> recv \<times> 's) res" where
  "recv_run rd [] stream r s = Inr (stream, r, s)"
| "recv_run rd (n # ns) stream r s =
     (let k = min n (recv_space r) in
      res_bind (recv_decode rd (recv_fill r (take k stream)) s)
        (\<lambda>(r', s'). recv_run rd ns (drop k stream) r' s'))"

section \<open>The reference parser\<close>

definition packet_len :: "byte \<Rightarrow> byte \<Rightarrow> nat" where
  "packet_len a b = 256 * unat a + unat b"

function frames :: "bytes \<Rightarrow> bytes list \<times> bytes" where
  "frames (a # b # bs) =
     (let n = packet_len a b in
      if length bs < n then ([], a # b # bs)
      else (case frames (drop n bs) of (fs, r) \<Rightarrow> (take n bs # fs, r)))"
| "frames [] = ([], [])"
| "frames [a] = ([], [a])"
  by pat_completeness auto
termination
  by (relation "measure length") auto

fun deliver :: "(bytes \<Rightarrow> 's \<Rightarrow> 's res) \<Rightarrow> bytes list \<Rightarrow> 's \<Rightarrow> 's res" where
  "deliver rd [] s = Inr s"
| "deliver rd (f # fs) s =
     (if 16384 < length f then deliver rd fs s else res_bind (rd f s) (deliver rd fs))"

lemma unat_be16: "unat (push_bit 8 (ucast a) OR ucast b :: u16) = packet_len a b"
proof -
  have disj: "push_bit 8 (ucast a :: u16) AND ucast b = 0"
    by (rule bit_word_eqI) (auto simp: bit_simps dest: bit_imp_le_length)
  have "push_bit 8 (ucast a) OR ucast b = (push_bit 8 (ucast a) + ucast b :: u16)"
    using disj by (simp add: disjunctive_add_eq_or)
  moreover have "unat a < 256" "unat b < 256"
    using unsigned_less [of a, where ?'a = nat] unsigned_less [of b, where ?'a = nat] by simp_all
  ultimately show ?thesis
    by (simp add: packet_len_def unat_word_ariths push_bit_eq_mult unsigned_ucast_eq take_bit_nat_eq_self)
qed

lemma ReadPacketLen_Cons: "ReadPacketLen (a # b # bs) = Inr (of_nat (packet_len a b))"
proof -
  have "(ucast (push_bit 8 (ucast a) OR ucast b :: u16) :: u32) = of_nat (packet_len a b)"
    unfolding unat_be16 [symmetric] by (simp only: of_nat_unat)
  then show ?thesis by (simp add: ReadPacketLen_def)
qed

lemma packet_len_less: "packet_len a b < 65536"
  using unsigned_less [of a, where ?'a = nat] unsigned_less [of b, where ?'a = nat]
  by (simp add: packet_len_def)

section \<open>The offset loop computes the reference parser\<close>

lemma frames_rest_length: "frames b = (fs, r) \<Longrightarrow> length r \<le> length b"
proof (induction b arbitrary: fs r rule: frames.induct)
  case (1 a b bs)
  show ?case
  proof (cases "length bs < packet_len a b")
    case False
    obtain fs' r' where f: "frames (drop (packet_len a b) bs) = (fs', r')"
      by (cases "frames (drop (packet_len a b) bs)")
    with 1(1) [OF refl False f] 1(2) False show ?thesis by (simp add: Let_def)
  qed (use 1(2) in \<open>auto simp: Let_def\<close>)
qed auto

lemma unat_MAX [simp]: "unat MAX_PACKET_SIZE = 16384" "unat MESSAGE_SIZE_LEN = 2"
  "unat RECV_BUF_MAX_LEN = 10485760"
  by (simp_all add: MAX_PACKET_SIZE_def MESSAGE_SIZE_LEN_def RECV_BUF_MAX_LEN_def)

text \<open>One iteration of the loop, seen on the bytes that are left.\<close>

lemma unat_ms_plus:
  fixes n :: u32
  assumes "unat n < 65536"
  shows "unat (MESSAGE_SIZE_LEN + n) = 2 + unat n"
  using assms by (simp add: MESSAGE_SIZE_LEN_def unat_word_ariths)

lemma rest_length:
  assumes "length msg < 2 ^ 32" "unat (offset :: u32) \<le> length msg" "drop (unat offset) msg = rest"
  shows "unat (of_nat (length msg) :: u32) = length msg" "length msg = unat offset + length rest"
    "offset < of_nat (length msg) \<longleftrightarrow> rest \<noteq> []"
    "unat (of_nat (length msg) - offset) = length rest"
proof -
  show u: "unat (of_nat (length msg) :: u32) = length msg" using assms(1) by (simp add: unat_of_nat_u32)
  show l: "length msg = unat offset + length rest" using assms(2,3) by auto
  show "offset < of_nat (length msg) \<longleftrightarrow> rest \<noteq> []"
    by (simp only: word_less_nat_alt u) (use l in auto)
  have "offset \<le> of_nat (length msg)" unfolding word_le_nat_alt u using assms(2) .
  then show "unat (of_nat (length msg) - offset) = length rest"
    by (simp only: unat_sub u) (use l in simp)
qed

lemma decode_loop_stop:
  assumes "length msg < 2 ^ 32" "unat offset \<le> length msg" "drop (unat offset) msg = rest" "length rest < 2"
  shows "decode_loop rd msg (of_nat (length msg)) offset s = Inr (of_nat (length msg - length rest), s)"
proof -
  note R = rest_length [OF assms(1-3)]
  have "of_nat (length msg) - offset < MESSAGE_SIZE_LEN"
    unfolding word_less_nat_alt R(4) using assms(4) by simp
  then have "decode_loop rd msg (of_nat (length msg)) offset s = Inr (offset, s)"
    by (subst decode_loop.simps) simp
  moreover have "(of_nat (length msg - length rest) :: u32) = offset" using R(2) by simp
  ultimately show ?thesis by simp
qed

lemma decode_loop_step:
  assumes "length msg < 2 ^ 32" "unat offset \<le> length msg" "drop (unat offset) msg = a # b # bs"
  defines "n \<equiv> packet_len a b" and "L \<equiv> of_nat (length msg) :: u32"
    and "o' \<equiv> offset + MESSAGE_SIZE_LEN + of_nat (packet_len a b)"
  shows "decode_loop rd msg L offset s =
      (if length bs < n then Inr (offset, s)
       else if 16384 < n then decode_loop rd msg L o' s
       else res_bind (rd (take n bs) s) (decode_loop rd msg L o'))"
    and "n \<le> length bs \<Longrightarrow> unat o' \<le> length msg \<and> drop (unat o') msg = drop n bs"
proof -
  note R = rest_length [OF assms(1-3), folded L_def]
  have n: "n < 65536" unfolding n_def by (rule packet_len_less)
  then have un: "unat (of_nat n :: u32) = n" by (simp add: unat_of_nat_u32)
  have um: "unat (MESSAGE_SIZE_LEN + of_nat n) = 2 + n" using n un by (simp add: unat_ms_plus)
  have u1: "unat (offset + MESSAGE_SIZE_LEN) = unat offset + 2"
    using R(2) assms(1) by (simp add: MESSAGE_SIZE_LEN_def unat_word_ariths)
  have "drop (unat offset + 2) msg = drop 2 (drop (unat offset) msg)" by (simp add: add.commute)
  then have d2: "drop (unat offset + 2) msg = bs" by (simp add: assms(3))
  have o': "o' = offset + MESSAGE_SIZE_LEN + of_nat n" by (simp only: o'_def n_def)
  have lt: "offset < L" using R(3) by simp
  have ge2: "\<not> L - offset < MESSAGE_SIZE_LEN" unfolding word_less_nat_alt R(4) by simp
  have rp: "ReadPacketLen (drop (unat offset) msg) = Inr (of_nat n)"
    unfolding assms(3) n_def by (rule ReadPacketLen_Cons)
  have enough: "L - offset < MESSAGE_SIZE_LEN + of_nat n \<longleftrightarrow> length bs < n"
    unfolding word_less_nat_alt R(4) um by simp
  have big: "MAX_PACKET_SIZE < of_nat n \<longleftrightarrow> 16384 < n" unfolding word_less_nat_alt un by simp
  show "decode_loop rd msg L offset s =
      (if length bs < n then Inr (offset, s)
       else if 16384 < n then decode_loop rd msg L o' s
       else res_bind (rd (take n bs) s) (decode_loop rd msg L o'))"
    by (subst decode_loop.simps) (simp only: lt ge2 rp enough big un u1 d2 Let_def o' res_bind_def if_True if_False sum.case)
  assume le: "n \<le> length bs"
  then have uo: "unat o' = n + (unat offset + 2)"
    unfolding o' using decode_progress(1) [OF lt, of "of_nat n"] enough n un by simp
  have dr: "drop (unat o') msg = drop n bs" unfolding uo d2 [symmetric] by (simp only: drop_drop)
  have "unat o' \<le> length msg" using uo R(2) le by simp
  with dr show "unat o' \<le> length msg \<and> drop (unat o') msg = drop n bs" by simp
qed

lemma decode_loop_frames:
  assumes "length msg < 2 ^ 32" "unat offset \<le> length msg" "drop (unat offset) msg = rest"
  shows "decode_loop rd msg (of_nat (length msg)) offset s =
    (case frames rest of
       (fs, r) \<Rightarrow> res_bind (deliver rd fs s) (\<lambda>s'. Inr (of_nat (length msg - length r), s')))"
  using assms(2,3)
proof (induction rest arbitrary: offset s rule: frames.induct)
  case (1 a b bs)
  let ?n = "packet_len a b" and ?o = "offset + MESSAGE_SIZE_LEN + of_nat (packet_len a b)"
  note S = decode_loop_step [OF assms(1) "1.prems"]
  show ?case
  proof (cases "length bs < ?n")
    case True
    have "(of_nat (length msg - length (a # b # bs)) :: u32) = offset"
      using rest_length(2) [OF assms(1) "1.prems"] by simp
    with True show ?thesis by (simp add: S(1) Let_def)
  next
    case False
    then have o: "unat ?o \<le> length msg" "drop (unat ?o) msg = drop ?n bs" using S(2) by auto
    obtain fs r where f: "frames (drop ?n bs) = (fs, r)" by (cases "frames (drop ?n bs)")
    have IH: "decode_loop rd msg (of_nat (length msg)) ?o t =
        res_bind (deliver rd fs t) (\<lambda>s'. Inr (of_nat (length msg - length r), s'))" for t
      using "1.IH" [OF refl False o] by (simp add: f)
    show ?thesis
      using False IH by (cases "rd (take ?n bs) s") (auto simp: S(1) Let_def f)
  qed
next
  case 2
  then show ?case using decode_loop_stop [OF assms(1) "2.prems", of rd s] by simp
next
  case (3 a)
  then show ?case using decode_loop_stop [OF assms(1) "3.prems", of rd s] by simp
qed

lemma MessageDecode_frames:
  assumes "length msg < 2 ^ 32"
  shows "MessageDecode rd msg s =
    (case frames msg of
       (fs, r) \<Rightarrow> res_bind (deliver rd fs s) (\<lambda>s'. Inr (of_nat (length msg - length r), s')))"
  unfolding MessageDecode_def using decode_loop_frames [OF assms, of 0 msg rd s] by simp

section \<open>Encoding and the reference parser\<close>

lemma MessageEncode_ok:
  assumes "length buf \<le> 16384"
  shows "MessageEncode buf = Inr (low_byte (drop_bit 8 (of_nat (length buf) :: u16)) # low_byte (of_nat (length buf) :: u16) # buf)"
proof -
  have u: "unat (of_nat (length buf) :: u32) = length buf" using assms by (simp add: unat_of_nat_u32)
  have small: "\<not> MAX_PACKET_SIZE < of_nat (length buf)" unfolding word_less_nat_alt u using assms by simp
  have um: "unat (MESSAGE_SIZE_LEN + of_nat (length buf)) = Suc (Suc (length buf))"
    using assms u by (simp add: unat_ms_plus)
  have "(ucast (of_nat (length buf) :: u32) :: u16) = of_nat (unat (of_nat (length buf) :: u32))" by simp
  then have c: "(ucast (of_nat (length buf) :: u32) :: u16) = of_nat (length buf)" unfolding u .
  show ?thesis
    unfolding MessageEncode_def Let_def
    by (simp add: small um WritePacketLen_def WriteUint16_def index_def c go_copy_def)
qed

lemma MessageEncode_not_Nil: "MessageEncode buf = Inr m \<Longrightarrow> m \<noteq> []"
  by (auto simp: MessageEncode_def Let_def WritePacketLen_def WriteUint16_def res_bind_Inr_iff split: if_splits)

lemma MessageEncode_oversize:
  assumes "16384 < length buf" "length buf < 2 ^ 32"
  shows "MessageEncode buf = Inl (ExplicitPanic ''message len > %!s(uint32=16384)'')"
proof -
  have "unat (of_nat (length buf) :: u32) = length buf" using assms(2) by (simp add: unat_of_nat_u32)
  then have "MAX_PACKET_SIZE < of_nat (length buf)" using assms(1) by (simp add: word_less_nat_alt)
  then show ?thesis by (simp add: MessageEncode_def)
qed

lemma packet_len_of_nat:
  assumes "n < 65536"
  shows "packet_len (low_byte (drop_bit 8 (of_nat n :: u16))) (low_byte (of_nat n :: u16)) = n"
proof -
  have "packet_len (low_byte (drop_bit 8 (of_nat n :: u16))) (low_byte (of_nat n :: u16)) = unat (of_nat n :: u16)"
    unfolding unat_be16 [symmetric] by (simp add: join16)
  also have "\<dots> = n" using assms by (simp add: unat_of_nat take_bit_nat_eq_self)
  finally show ?thesis .
qed

lemma frames_encoded:
  assumes "MessageEncode buf = Inr m" "length buf \<le> 16384"
  shows "frames (m @ rest) = (buf # fst (frames rest), snd (frames rest))"
  using assms packet_len_of_nat [of "length buf"]
  by (auto simp: MessageEncode_ok Let_def split: prod.splits)

text \<open>A prefix that is parsed first can be forgotten: only its incomplete tail matters for what follows.\<close>

lemma frames_append:
  "frames (x @ y) = (fst (frames x) @ fst (frames (snd (frames x) @ y)), snd (frames (snd (frames x) @ y)))"
proof (induction x rule: frames.induct)
  case (1 a b bs)
  show ?case
  proof (cases "length bs < packet_len a b")
    case True
    then show ?thesis by (simp add: Let_def)
  next
    case False
    note IH = "1.IH" [OF refl False]
    obtain fs r where f: "frames (drop (packet_len a b) bs) = (fs, r)"
      by (cases "frames (drop (packet_len a b) bs)")
    with False IH show ?thesis by (simp add: Let_def split_beta)
  qed
qed auto

lemma frames_rest_bound: "length (snd (frames b)) < 65537"
proof (induction b rule: frames.induct)
  case (1 a b bs)
  then show ?case using packet_len_less [of a b] by (auto simp: Let_def split: prod.splits)
qed auto

lemma frames_rest_le: "length (snd (frames b)) \<le> length b"
  by (rule frames_rest_length [of b "fst (frames b)"]) simp

lemma frames_suffix: "snd (frames b) = drop (length b - length (snd (frames b))) b"
proof (induction b rule: frames.induct)
  case (1 a b bs)
  show ?case
  proof (cases "length bs < packet_len a b")
    case False
    let ?d = "drop (packet_len a b) bs"
    have le: "length (snd (frames ?d)) \<le> length bs - packet_len a b"
      using frames_rest_le [of ?d] by simp
    have "snd (frames ?d) = drop (length ?d - length (snd (frames ?d))) ?d"
      using "1.IH" [OF refl False] .
    also have "\<dots> = drop (length bs - length (snd (frames ?d))) bs"
      using le False by (simp add: drop_drop)
    finally have "snd (frames ?d) = drop (length bs - length (snd (frames ?d))) bs" .
    moreover have "length (a # b # bs) - length (snd (frames ?d)) = Suc (Suc (length bs - length (snd (frames ?d))))"
      using le by simp
    ultimately show ?thesis using False by (simp add: Let_def split_beta)
  qed (simp add: Let_def)
qed auto

lemma deliver_append: "deliver rd (xs @ ys) s = res_bind (deliver rd xs s) (deliver rd ys)"
proof (induction xs arbitrary: s)
  case (Cons x xs)
  then show ?case by (cases "rd x s") auto
qed simp

section \<open>The receive buffer holds the incomplete tail of the stream\<close>

definition content :: "recv \<Rightarrow> bytes" where
  "content r = take (unat (remainLen r)) (recvBuf r)"

definition recv_wf :: "recv \<Rightarrow> bool" where
  "recv_wf r \<longleftrightarrow> length (recvBuf r) = unat RECV_BUF_MAX_LEN \<and> unat (remainLen r) \<le> 65536 \<and>
     frames (content r) = ([], content r)"

lemma recv_wf_new [simp]: "recv_wf new_recv" "content new_recv = []"
  by (simp_all add: recv_wf_def new_recv_def content_def)

lemma length_content: "recv_wf r \<Longrightarrow> length (content r) = unat (remainLen r)"
  by (simp add: content_def recv_wf_def)

lemma frames_rest_idem: "frames (snd (frames b)) = ([], snd (frames b))"
proof -
  have "fst (frames b) = fst (frames b) @ fst (frames (snd (frames b)))"
    "snd (frames (snd (frames b))) = snd (frames b)"
    using frames_append [of b "[]"] by (metis append_Nil2 fst_conv, metis append_Nil2 snd_conv)
  then show ?thesis by (metis append_self_conv prod.collapse)
qed

lemma recv_fill_remainLen:
  assumes "recv_wf r" "length d \<le> recv_space r"
  shows "unat (remainLen (recv_fill r d)) = unat (remainLen r) + length d"
    "unat (remainLen (recv_fill r d)) \<le> unat RECV_BUF_MAX_LEN"
proof -
  have le: "unat (remainLen r) + length d \<le> 10485760"
    using assms unfolding recv_wf_def recv_space_def unat_MAX by linarith
  then have "unat (of_nat (length d) :: u32) = length d" by (simp add: unat_of_nat_u32)
  with le show "unat (remainLen (recv_fill r d)) = unat (remainLen r) + length d"
    by (simp add: recv_fill_def unat_word_ariths)
  with le show "unat (remainLen (recv_fill r d)) \<le> unat RECV_BUF_MAX_LEN" by simp
qed

lemma recv_fill_content:
  assumes "recv_wf r" "length d \<le> recv_space r"
  shows "content (recv_fill r d) = content r @ d" "length (recvBuf (recv_fill r d)) = unat RECV_BUF_MAX_LEN"
proof -
  have b: "unat (remainLen r) \<le> length (recvBuf r)" using assms(1) by (simp add: recv_wf_def)
  have d: "length d \<le> length (recvBuf r) - unat (remainLen r)" using assms(2) by (simp add: recv_space_def)
  have "content (recv_fill r d) = take (unat (remainLen r) + length d) (recvBuf (recv_fill r d))"
    unfolding content_def recv_fill_remainLen(1) [OF assms] ..
  also have "recvBuf (recv_fill r d) =
      take (unat (remainLen r)) (recvBuf r) @ d @ drop (unat (remainLen r) + length d) (recvBuf r)"
    using d by (simp add: recv_fill_def go_copy_def add.commute)
  finally show "content (recv_fill r d) = content r @ d" using b by (simp add: content_def)
  show "length (recvBuf (recv_fill r d)) = unat RECV_BUF_MAX_LEN"
    using assms(1) b by (simp add: recv_fill_def recv_wf_def)
qed

lemma recv_consume_content:
  assumes "length (recvBuf r) = unat RECV_BUF_MAX_LEN" "unat (remainLen r) \<le> length (recvBuf r)"
    "unat n \<le> unat (remainLen r)"
  shows "content (recv_consume r n) = drop (unat n) (content r)"
    "unat (remainLen (recv_consume r n)) = unat (remainLen r) - unat n"
    "length (recvBuf (recv_consume r n)) = unat RECV_BUF_MAX_LEN"
proof -
  have "n \<le> remainLen r" using assms(3) by (simp add: word_le_nat_alt)
  then have u: "unat (remainLen r - n) = unat (remainLen r) - unat n" by (simp add: unat_sub)
  then show "unat (remainLen (recv_consume r n)) = unat (remainLen r) - unat n"
    by (simp add: recv_consume_def Let_def)
  show "length (recvBuf (recv_consume r n)) = unat RECV_BUF_MAX_LEN"
    using assms(1) by (simp add: recv_consume_def Let_def)
  show "content (recv_consume r n) = drop (unat n) (content r)"
    using assms by (simp add: content_def recv_consume_def Let_def u go_copy_def drop_take)
qed

text \<open>Read, decode and compact: the packets completed by the new bytes are delivered, the tail stays.\<close>

lemma recv_decode_fill:
  assumes "recv_wf r" "length d \<le> recv_space r"
  shows "\<exists>r'. recv_wf r' \<and> content r' = snd (frames (content r @ d)) \<and>
    recv_decode rd (recv_fill r d) s =
      res_bind (deliver rd (fst (frames (content r @ d))) s) (\<lambda>s'. Inr (r', s'))"
proof -
  define f m where "f = recv_fill r d" and "m = content r @ d"
  define n where "n = length m - length (snd (frames m))"
  have F: "content f = m" "length (recvBuf f) = unat RECV_BUF_MAX_LEN"
    "unat (remainLen f) = length m" "unat (remainLen f) \<le> unat RECV_BUF_MAX_LEN"
    using recv_fill_content [OF assms] recv_fill_remainLen [OF assms]
    by (simp_all add: f_def m_def length_content [OF assms(1)])
  have small: "length m < 2 ^ 32" using F(3,4) by simp
  have le: "n \<le> length m" by (simp add: n_def)
  then have un: "unat (of_nat n :: u32) = n" using small by (simp add: unat_of_nat_u32)
  have C: "content (recv_consume f (of_nat n)) = drop n m"
    "unat (remainLen (recv_consume f (of_nat n))) = length m - n"
    "length (recvBuf (recv_consume f (of_nat n))) = unat RECV_BUF_MAX_LEN"
    using recv_consume_content [of f "of_nat n"] F le un by simp_all
  have suf: "drop n m = snd (frames m)" using frames_suffix [of m] by (simp add: n_def)
  have bound: "length m - n \<le> 65536" using frames_rest_bound [of m] frames_rest_le [of m] by (simp add: n_def)
  have wf: "recv_wf (recv_consume f (of_nat n))"
    unfolding recv_wf_def C suf using bound frames_rest_idem by simp
  have dec: "recv_decode rd f s =
      res_bind (deliver rd (fst (frames m)) s) (\<lambda>s'. Inr (recv_consume f (of_nat n), s'))"
    unfolding recv_decode_def content_def [symmetric] F(1) MessageDecode_frames [OF small] n_def
    by (cases "deliver rd (fst (frames m)) s") (auto simp: split_beta)
  show ?thesis
    unfolding f_def [symmetric] m_def [symmetric]
    using wf C(1) [unfolded suf] dec by (intro exI conjI)
qed

lemma recv_run_frames:
  assumes "recv_wf r" "recv_run rd ns stream r s = Inr (stream', r', s')"
  shows "\<exists>got. stream = got @ stream' \<and> recv_wf r' \<and> content r' = snd (frames (content r @ got)) \<and>
    deliver rd (fst (frames (content r @ got))) s = Inr s'"
  using assms
proof (induction ns arbitrary: stream r s)
  case Nil
  then show ?case by (intro exI [of _ "[]"]) (auto simp: recv_wf_def)
next
  case (Cons n ns)
  let ?k = "min n (recv_space r)"
  let ?m = "content r @ take ?k stream"
  have len: "length (take ?k stream) \<le> recv_space r" by simp
  obtain r1 where r1: "recv_wf r1" "content r1 = snd (frames ?m)"
    "recv_decode rd (recv_fill r (take ?k stream)) s =
       res_bind (deliver rd (fst (frames ?m)) s) (\<lambda>s'. Inr (r1, s'))"
    using recv_decode_fill [OF Cons.prems(1) len, of rd s] by blast
  obtain s1 where s1: "deliver rd (fst (frames ?m)) s = Inr s1"
    "recv_run rd ns (drop ?k stream) r1 s1 = Inr (stream', r', s')"
    using Cons.prems(2) by (auto simp: Let_def r1(3) res_bind_Inr_iff)
  obtain got where got: "drop ?k stream = got @ stream'" "recv_wf r'"
    "content r' = snd (frames (content r1 @ got))" "deliver rd (fst (frames (content r1 @ got))) s1 = Inr s'"
    using Cons.IH [OF r1(1) s1(2)] by blast
  have "stream = (take ?k stream @ got) @ stream'" using got(1) by (metis append_assoc append_take_drop_id)
  moreover have "frames (content r @ take ?k stream @ got) =
      (fst (frames ?m) @ fst (frames (content r1 @ got)), snd (frames (content r1 @ got)))"
    using frames_append [of ?m got] by (simp add: r1(2))
  ultimately show ?case
    using got s1(1) by (intro exI [of _ "take ?k stream @ got"]) (simp add: deliver_append)
qed

lemma deliver_total:
  assumes "\<And>f t. \<exists>t'. rd f t = Inr t'"
  shows "\<exists>t'. deliver rd fs t = Inr t'"
proof (induction fs arbitrary: t)
  case (Cons f fs)
  obtain t1 where "rd f t = Inr t1" using assms by blast
  with Cons.IH [of t1] Cons.IH [of t] show ?case by simp
qed simp

lemma recv_run_total:
  assumes "recv_wf r" "\<And>f t. \<exists>t'. rd f t = Inr t'"
  shows "\<exists>x. recv_run rd ns stream r s = Inr x"
  using assms(1)
proof (induction ns arbitrary: stream r s)
  case (Cons n ns)
  let ?k = "min n (recv_space r)"
  let ?m = "content r @ take ?k stream"
  have len: "length (take ?k stream) \<le> recv_space r" by simp
  obtain r1 where r1: "recv_wf r1" "recv_decode rd (recv_fill r (take ?k stream)) s =
       res_bind (deliver rd (fst (frames ?m)) s) (\<lambda>s'. Inr (r1, s'))"
    using recv_decode_fill [OF Cons.prems len, of rd s] by blast
  obtain s1 where "deliver rd (fst (frames ?m)) s = Inr s1" using deliver_total [of rd] assms(2) by blast
  then show ?case using Cons.IH [OF r1(1), of "drop ?k stream" s1] by (simp add: Let_def r1(2))
qed simp

lemma recv_space_pos: "recv_wf r \<Longrightarrow> 0 < recv_space r"
  by (simp add: recv_wf_def recv_space_def)

lemma frames_concat_encoded:
  assumes "list_all (\<lambda>m. length m \<le> 16384) ms" "map MessageEncode ms = map Inr es"
  shows "frames (concat es @ rest) = (ms @ fst (frames rest), snd (frames rest))"
  using assms
proof (induction ms arbitrary: es)
  case (Cons m ms)
  then obtain e es' where "es = e # es'" "MessageEncode m = Inr e" "map MessageEncode ms = map Inr es'" by auto
  with Cons show ?case using frames_encoded [of m e "concat es' @ rest"] by simp
qed simp

text \<open>A relation that every packet keeps is kept by the whole of a read.\<close>

lemma decode_loop_rel:
  assumes "reflp R" "transp R" "\<And>b s s'. rd b s = Inr s' \<Longrightarrow> R s s'"
  shows "decode_loop rd msg n off s = Inr (k, s') \<Longrightarrow> R s s'"
proof (induction "unat n - unat off" arbitrary: off s rule: less_induct)
  case less
  show ?case
  proof (cases "off < n \<and> \<not> n - off < MESSAGE_SIZE_LEN")
    case True
    show ?thesis
    proof (cases "ReadPacketLen (drop (unat off) msg)")
      case (Inr m)
      show ?thesis
      proof (cases "n - off < MESSAGE_SIZE_LEN + m")
        case False
        let ?off = "off + MESSAGE_SIZE_LEN + m"
        note dec = decode_decreases [OF conjunct1 [OF True] False Inr]
        show ?thesis
        proof (cases "m > MAX_PACKET_SIZE")
          case True
          then show ?thesis using less.hyps [OF dec] less.prems \<open>off < n \<and> _\<close> Inr False
            by (subst (asm) decode_loop.simps) (simp add: Let_def)
        next
          case small: False
          then obtain s1 where "rd (take (unat m) (drop (unat (off + MESSAGE_SIZE_LEN)) msg)) s = Inr s1"
            "decode_loop rd msg n ?off s1 = Inr (k, s')"
            using less.prems True Inr False
            by (subst (asm) decode_loop.simps) (auto simp: Let_def split: sum.splits)
          with less.hyps [OF dec] assms(3) show ?thesis by (blast intro: transpD [OF assms(2)])
        qed
      qed (use less.prems True Inr reflpD [OF assms(1)] in \<open>auto simp: decode_loop.simps [of rd msg n off s]\<close>)
    qed (use less.prems True in \<open>auto simp: decode_loop.simps [of rd msg n off s]\<close>)
  qed (use less.prems reflpD [OF assms(1)] in \<open>auto simp: decode_loop.simps [of rd msg n off s] split: if_splits\<close>)
qed

lemma recv_decode_rel:
  assumes "reflp R" "transp R" "\<And>b s s'. rd b s = Inr s' \<Longrightarrow> R s s'" "recv_decode rd r s = Inr (r', s')"
  shows "R s s'"
  using assms(4) decode_loop_rel [OF assms(1-3)]
  by (auto simp: recv_decode_def MessageDecode_def res_bind_Inr_iff)

section \<open>Properties\<close>

text \<open>Property C14. \<open>MessageDecode\<close> on a buffer that is shorter than 4 GB runs \<open>RpcDecode\<close> exactly on the packets the
  reference parser finds (skipping those above \<open>MAX_PACKET_SIZE\<close>), in order, stops at the first panic, and
  returns the number of bytes before the incomplete tail, so an undersized or partial packet is never consumed.\<close>

theorem decode_is_reference_parser:
  assumes "length msg < 2 ^ 32"
  shows "MessageDecode rd msg s =
    (case frames msg of
       (fs, r) \<Rightarrow> res_bind (deliver rd fs s) (\<lambda>s'. Inr (of_nat (length msg - length r), s')))
    \<and> snd (frames msg) = drop (length msg - length (snd (frames msg))) msg"
  using MessageDecode_frames [OF assms] frames_suffix [of msg] by simp

text \<open>The trace of the packets, as a concrete \<open>RpcDecode\<close>.\<close>

definition log_packet :: "bytes \<Rightarrow> bytes list \<Rightarrow> bytes list res" where
  "log_packet p ps = Inr (ps @ [p])"

lemma deliver_log: "list_all (\<lambda>m. length m \<le> 16384) ms \<Longrightarrow> deliver log_packet ms ps = Inr (ps @ ms)"
  by (induction ms arbitrary: ps) (auto simp: log_packet_def)

lemma frames_demo: "frames [0, 1, 7, 0, 2, 8, 9, 0, 5, 1] = ([[7], [8, 9]], [0, 5, 1])"
  by (simp add: packet_len_def Let_def)

theorem decode_is_reference_parser_witness:
  "MessageDecode log_packet [0, 1, 7, 0, 2, 8, 9, 0, 5, 1] [] = Inr (7, [[7], [8, 9]])"
  using conjunct1 [OF decode_is_reference_parser [of "[0, 1, 7, 0, 2, 8, 9, 0, 5, 1]" log_packet "[]"]]
  by (simp add: frames_demo deliver_log del: frames.simps deliver.simps)

text \<open>Property C6. Framing round trip over a real connection. Messages of at most 16 KB, encoded by
  \<open>MessageEncode\<close> and sent back to back, are delivered to \<open>RpcDecode\<close> exactly once each and in order by a
  connection that starts with an empty buffer, however the network cuts the stream into reads, and the buffer
  ends empty. (\<open>rd\<close> is any decoder that does not panic.)\<close>

theorem framing_stream_roundtrip:
  assumes "list_all (\<lambda>m. length m \<le> 16384) ms" "map MessageEncode ms = map Inr es"
    "recv_run rd ns (concat es) new_recv s = Inr ([], r', s')"
  shows "deliver rd ms s = Inr s' \<and> content r' = [] \<and> recv_wf r'"
proof -
  obtain got where got: "concat es = got @ []" "recv_wf r'" "content r' = snd (frames (content new_recv @ got))"
    "deliver rd (fst (frames (content new_recv @ got))) s = Inr s'"
    using recv_run_frames [OF recv_wf_new(1) assms(3)] by blast
  moreover have "frames (concat es) = (ms, [])" using frames_concat_encoded [OF assms(1,2), of "[]"] by simp
  ultimately show ?thesis by simp
qed

lemma recv_run_demo:
  "\<exists>r' s'. recv_run log_packet [1, 3, 10] (concat [[0, 1, 7], [0, 2, 8, 9]]) new_recv [] = Inr ([], r', s')"
proof -
  have enough: "recv_wf r \<Longrightarrow> 10 \<le> recv_space r" for r
    unfolding recv_wf_def recv_space_def unat_MAX by linarith
  have step: "\<exists>r1 s1. recv_wf r1 \<and> recv_run log_packet (n # ns) st r s = recv_run log_packet ns (drop n st) r1 s1"
    if "recv_wf r" "n \<le> 10" for n ns st r s
  proof -
    have k: "min n (recv_space r) = n" using enough [OF that(1)] that(2) by simp
    have len: "length (take n st) \<le> recv_space r" using enough [OF that(1)] that(2) by simp
    obtain s1 where "deliver log_packet (fst (frames (content r @ take n st))) s = Inr s1"
      using deliver_total [of log_packet] by (auto simp: log_packet_def)
    then show ?thesis using recv_decode_fill [OF that(1) len, of log_packet s] by (fastforce simp: k Let_def)
  qed
  obtain r1 s1 where "recv_wf r1" and 1: "recv_run log_packet [1, 3, 10] [0, 1, 7, 0, 2, 8, 9] new_recv [] =
      recv_run log_packet [3, 10] [1, 7, 0, 2, 8, 9] r1 s1"
    using step [of new_recv 1 "[3, 10]" "[0, 1, 7, 0, 2, 8, 9]" "[]"] by auto
  then obtain r2 s2 where "recv_wf r2" and 2: "recv_run log_packet [3, 10] [1, 7, 0, 2, 8, 9] r1 s1 =
      recv_run log_packet [10] [2, 8, 9] r2 s2"
    using step [of r1 3 "[10]" "[1, 7, 0, 2, 8, 9]" s1] by (auto simp: numeral_eq_Suc)
  then obtain r3 s3 where "recv_run log_packet [10] [2, 8, 9] r2 s2 = recv_run log_packet [] [] r3 s3"
    using step [of r2 10 "[]" "[2, 8, 9]" s2] by auto
  with 1 2 show ?thesis by simp
qed

theorem framing_stream_roundtrip_witness:
  "\<exists>r' s'. recv_run log_packet [1, 3, 10] (concat [[0, 1, 7], [0, 2, 8, 9]]) new_recv [] = Inr ([], r', s') \<and>
     s' = [[7], [8, 9]] \<and> content r' = []"
proof -
  obtain r' s' where run: "recv_run log_packet [1, 3, 10] (concat [[0, 1, 7], [0, 2, 8, 9]]) new_recv [] = Inr ([], r', s')"
    using recv_run_demo by blast
  have "deliver log_packet [[7], [8, 9]] [] = Inr s' \<and> content r' = [] \<and> recv_wf r'"
    by (rule framing_stream_roundtrip [OF _ _ run]) (simp_all add: MessageEncode_ok low_byte_def drop_bit_eq_div)
  with run show ?thesis by (auto simp: deliver_log simp del: recv_run.simps deliver.simps)
qed

text \<open>Property C23. The receive buffer never fills: starting from a fresh connection, whatever bytes arrive and
  however they are cut, at most 65536 bytes are pending between reads, there is always room for the next read,
  the unread bytes are the incomplete tail of what was received, and adding a read never exceeds
  \<open>RECV_BUF_MAX_LEN\<close>: the ``buff cache overflow'' branch of the read loops is never taken.\<close>

theorem receive_buffer_bounded:
  assumes "recv_run rd ns stream new_recv s = Inr (stream', r, s')"
  shows "unat (remainLen r) \<le> 65536 \<and> 0 < recv_space r
    \<and> (\<exists>got. stream = got @ stream' \<and> content r = snd (frames got))
    \<and> (\<forall>d. length d \<le> recv_space r \<longrightarrow> \<not> remainLen (recv_fill r d) > RECV_BUF_MAX_LEN)"
proof -
  obtain got where "stream = got @ stream'" "recv_wf r" "content r = snd (frames (content new_recv @ got))"
    using recv_run_frames [OF recv_wf_new(1) assms] by blast
  then show ?thesis
    using recv_fill_remainLen(2) [OF \<open>recv_wf r\<close>] recv_space_pos
    by (auto simp: recv_wf_def word_less_nat_alt not_less)
qed

theorem receive_buffer_bounded_witness:
  "\<exists>r s'. recv_run log_packet [1, 3, 10] (concat [[0, 1, 7], [0, 2, 8, 9]]) new_recv [] = Inr ([], r, s') \<and>
     unat (remainLen r) \<le> 65536 \<and> 0 < recv_space r"
proof -
  obtain r' s' where run: "recv_run log_packet [1, 3, 10] (concat [[0, 1, 7], [0, 2, 8, 9]]) new_recv [] = Inr ([], r', s')"
    using recv_run_demo by blast
  from receive_buffer_bounded [OF run] run show ?thesis by blast
qed

text \<open>\<open>MessageEncode\<close> accepts exactly the payloads of at most 16384 bytes, adds a two-byte header,
  and panics on every other payload (below 4 GB); what it produces is decoded back by the parser.\<close>

theorem MessageEncode_exact:
  assumes "length buf < 2 ^ 32"
  shows "(length buf \<le> 16384 \<and> (\<exists>m. MessageEncode buf = Inr m \<and> length m = length buf + 2 \<and> frames m = ([buf], [])))
    \<or> (16384 < length buf \<and> MessageEncode buf = Inl (ExplicitPanic ''message len > %!s(uint32=16384)''))"
proof (cases "length buf \<le> 16384")
  case True
  from MessageEncode_ok [OF this] obtain m where m: "MessageEncode buf = Inr m" "length m = length buf + 2" by simp
  with frames_encoded [OF m(1) True, of "[]"] True show ?thesis by simp
qed (use MessageEncode_oversize assms in simp)

theorem MessageEncode_exact_witness:
  "MessageEncode (replicate 20000 0) = Inl (ExplicitPanic ''message len > %!s(uint32=16384)'')"
  using MessageEncode_exact [of "replicate 20000 0"] by simp

end
