(* ===== verification/Msgpack.thy ===== *)
theory Msgpack
  imports Prelude
begin

text \<open>
  The interface to \<open>github.com/vmihailenco/msgpack\<close>, which is not part of the repository. A \<open>gval\<close> is the
  msgpack value of a Go value, a \<open>gty\<close> the Go type of the variable a decoder writes to. A codec is a
  record of two functions: \<open>enc v\<close> is what \<open>Encoder.Encode\<close> appends to the writer and whether it
  succeeded, and \<open>dec t b\<close> is the value \<open>Decoder.Decode\<close> leaves in a fresh variable of type \<open>t\<close>, its
  error if any, and the unread bytes. Every definition that encodes or decodes takes the codec as its first
  argument. A \<open>float32\<close> is its bit pattern.

  \<open>codec_ok\<close> is what the code relies on: encoding a value and decoding it at its type gives the value
  back and leaves the rest of the stream. \<open>mp_codec\<close> is one concrete codec in the msgpack format (with the
  32-bit length forms only), and the lemma \<open>codec_ok_mp\<close> shows that the hypothesis can hold.
\<close>

section \<open>Values, types and codecs\<close>

datatype gval =
    VNil
  | VBool bool
  | VInt int
  | VStr string
  | VBytes bytes
  | VFloat u32
  | VList "gval list"
  | VMap "(string \<times> gval) list"

datatype gty = TString | TBytes | TBool | TUint32 | TInt32 | TInt | TFloat32 | TInt32List | TMap | TBoolMap

record msgpack =
  enc :: "gval \<Rightarrow> bytes \<times> bool"
  dec :: "gty \<Rightarrow> bytes \<Rightarrow> gval \<times> string option \<times> bytes"

fun wire_ok :: "gval \<Rightarrow> bool" and wire_ok_list :: "gval list \<Rightarrow> bool"
  and wire_ok_map :: "(string \<times> gval) list \<Rightarrow> bool" where
  "wire_ok VNil = True"
| "wire_ok (VBool b) = True"
| "wire_ok (VInt i) = (- (2 ^ 63) \<le> i \<and> i < 2 ^ 63)"
| "wire_ok (VStr s) = (length s < 2 ^ 32)"
| "wire_ok (VBytes b) = (length b < 2 ^ 32)"
| "wire_ok (VFloat f) = True"
| "wire_ok (VList vs) = (length vs < 2 ^ 32 \<and> wire_ok_list vs)"
| "wire_ok (VMap m) = (length m < 2 ^ 32 \<and> distinct (map fst m) \<and> wire_ok_map m)"
| "wire_ok_list [] = True"
| "wire_ok_list (v # vs) = (wire_ok v \<and> wire_ok_list vs)"
| "wire_ok_map [] = True"
| "wire_ok_map ((k, v) # m) = (length k < 2 ^ 32 \<and> wire_ok v \<and> wire_ok_map m)"

fun is_bool :: "gval \<Rightarrow> bool" where
  "is_bool (VBool _) = True"
| "is_bool _ = False"

fun is_int32 :: "gval \<Rightarrow> bool" where
  "is_int32 (VInt i) = (- (2 ^ 31) \<le> i \<and> i < 2 ^ 31)"
| "is_int32 _ = False"

definition fits :: "gval \<Rightarrow> gty \<Rightarrow> bool" where
  "fits v t =
     (case t of
        TString \<Rightarrow> (case v of VStr _ \<Rightarrow> True | _ \<Rightarrow> False)
      | TBytes \<Rightarrow> (case v of VBytes _ \<Rightarrow> True | _ \<Rightarrow> False)
      | TBool \<Rightarrow> is_bool v
      | TUint32 \<Rightarrow> (case v of VInt i \<Rightarrow> 0 \<le> i \<and> i < 2 ^ 32 | _ \<Rightarrow> False)
      | TInt32 \<Rightarrow> is_int32 v
      | TInt \<Rightarrow> (case v of VInt _ \<Rightarrow> True | _ \<Rightarrow> False)
      | TFloat32 \<Rightarrow> (case v of VFloat _ \<Rightarrow> True | _ \<Rightarrow> False)
      | TInt32List \<Rightarrow> (case v of VList vs \<Rightarrow> list_all is_int32 vs | _ \<Rightarrow> False)
      | TMap \<Rightarrow> (case v of VMap _ \<Rightarrow> True | VNil \<Rightarrow> True | _ \<Rightarrow> False)
      | TBoolMap \<Rightarrow> (case v of VMap m \<Rightarrow> list_all (is_bool \<circ> snd) m | _ \<Rightarrow> False))"

definition has_type :: "gval \<Rightarrow> gty \<Rightarrow> bool" where
  "has_type v t \<longleftrightarrow> wire_ok v \<and> fits v t"

definition codec_ok :: "msgpack \<Rightarrow> bool" where
  "codec_ok mp \<longleftrightarrow> (\<forall>v t rest. has_type v t \<longrightarrow>
     snd (enc mp v) \<and> dec mp t (fst (enc mp v) @ rest) = (v, None, rest))"

text \<open>A Go variable read back from a value of its type.\<close>

fun as_str :: "gval \<Rightarrow> string" where
  "as_str (VStr s) = s"
| "as_str _ = []"

fun as_bytes :: "gval \<Rightarrow> bytes" where
  "as_bytes (VBytes b) = b"
| "as_bytes _ = []"

fun as_bool :: "gval \<Rightarrow> bool" where
  "as_bool (VBool b) = b"
| "as_bool _ = False"

fun as_u32 :: "gval \<Rightarrow> u32" where
  "as_u32 (VInt i) = of_int i"
| "as_u32 _ = 0"

fun as_int :: "gval \<Rightarrow> int" where
  "as_int (VInt i) = i"
| "as_int _ = 0"

fun as_map :: "gval \<Rightarrow> (string \<times> gval) list" where
  "as_map (VMap m) = m"
| "as_map _ = []"

definition vu32 :: "u32 \<Rightarrow> gval" where
  "vu32 n = VInt (uint n)"

lemma as_u32_vu32 [simp]: "as_u32 (vu32 n) = n"
  by (simp add: vu32_def)

lemma has_type_vu32 [simp]: "has_type (vu32 n) TUint32"
proof -
  have "0 \<le> uint n" "uint n < 2 ^ 32" using unsigned_less [of n, where ?'a = int] by simp_all
  moreover have "- (2 ^ 63) \<le> (0 :: int)" "(2 :: int) ^ 32 \<le> 2 ^ 63" by simp_all
  ultimately have "- (2 ^ 63) \<le> uint n \<and> uint n < 2 ^ 63 \<and> 0 \<le> uint n \<and> uint n < 2 ^ 32" by linarith
  then show ?thesis unfolding has_type_def vu32_def by (simp only: wire_ok.simps fits_def gty.case gval.case)
qed

lemma has_type_simps [simp]:
  "has_type (VStr s) TString \<longleftrightarrow> length s < 2 ^ 32"
  "has_type (VBytes b) TBytes \<longleftrightarrow> length b < 2 ^ 32"
  "has_type (VBool x) TBool"
  "has_type VNil TMap"
  by (simp_all add: has_type_def fits_def)

lemma codec_roundtrip:
  assumes "codec_ok mp" "has_type v t"
  shows "dec mp t (fst (enc mp v) @ rest) = (v, None, rest)"
  using assms by (simp add: codec_ok_def)

section \<open>A concrete codec\<close>

definition be32 :: "nat \<Rightarrow> bytes" where
  "be32 n = [of_nat (n div 2 ^ 24), of_nat (n div 2 ^ 16), of_nat (n div 2 ^ 8), of_nat n]"

definition un32 :: "byte \<Rightarrow> byte \<Rightarrow> byte \<Rightarrow> byte \<Rightarrow> nat" where
  "un32 a b c d = unat a * 2 ^ 24 + unat b * 2 ^ 16 + unat c * 2 ^ 8 + unat d"

definition get32 :: "bytes \<Rightarrow> (nat \<times> bytes) option" where
  "get32 bs = (case bs of a # b # c # d # r \<Rightarrow> Some (un32 a b c d, r) | _ \<Rightarrow> None)"

definition get_block :: "bytes \<Rightarrow> (bytes \<times> bytes) option" where
  "get_block bs = (case get32 bs of None \<Rightarrow> None
     | Some (n, r) \<Rightarrow> if n \<le> length r then Some (take n r, drop n r) else None)"

definition put_str :: "string \<Rightarrow> bytes" where
  "put_str s = 0xdb # be32 (length s) @ bytes_of_string s"

fun mp_enc :: "gval \<Rightarrow> bytes" and mp_enc_list :: "gval list \<Rightarrow> bytes"
  and mp_enc_map :: "(string \<times> gval) list \<Rightarrow> bytes" where
  "mp_enc VNil = [0xc0]"
| "mp_enc (VBool b) = [if b then 0xc3 else 0xc2]"
| "mp_enc (VInt i) = 0xd3 # be32 (nat ((i + 2 ^ 63) div 2 ^ 32)) @ be32 (nat ((i + 2 ^ 63) mod 2 ^ 32))"
| "mp_enc (VStr s) = put_str s"
| "mp_enc (VBytes b) = 0xc6 # be32 (length b) @ b"
| "mp_enc (VFloat f) = 0xca # be32 (unat f)"
| "mp_enc (VList vs) = 0xdd # be32 (length vs) @ mp_enc_list vs"
| "mp_enc (VMap m) = 0xdf # be32 (length m) @ mp_enc_map m"
| "mp_enc_list [] = []"
| "mp_enc_list (v # vs) = mp_enc v @ mp_enc_list vs"
| "mp_enc_map [] = []"
| "mp_enc_map ((k, v) # m) = put_str k @ mp_enc v @ mp_enc_map m"

definition get_str :: "bytes \<Rightarrow> (string \<times> bytes) option" where
  "get_str bs = (case bs of [] \<Rightarrow> None | t # r \<Rightarrow>
     if t = 0xdb then map_option (apfst string_of_bytes) (get_block r) else None)"

definition get_int :: "bytes \<Rightarrow> (gval \<times> bytes) option" where
  "get_int bs = (case get32 bs of None \<Rightarrow> None | Some (h, r) \<Rightarrow>
     (case get32 r of None \<Rightarrow> None | Some (l, r') \<Rightarrow> Some (VInt (int h * 2 ^ 32 + int l - 2 ^ 63), r')))"

fun mp_dec :: "nat \<Rightarrow> bytes \<Rightarrow> (gval \<times> bytes) option"
  and mp_dec_list :: "nat \<Rightarrow> nat \<Rightarrow> bytes \<Rightarrow> (gval list \<times> bytes) option"
  and mp_dec_map :: "nat \<Rightarrow> nat \<Rightarrow> bytes \<Rightarrow> ((string \<times> gval) list \<times> bytes) option" where
  "mp_dec 0 bs = None"
| "mp_dec (Suc f) bs = (case bs of [] \<Rightarrow> None | t # r \<Rightarrow>
     if t = 0xc0 then Some (VNil, r)
     else if t = 0xc3 then Some (VBool True, r)
     else if t = 0xc2 then Some (VBool False, r)
     else if t = 0xd3 then get_int r
     else if t = 0xdb then map_option (apfst (VStr \<circ> string_of_bytes)) (get_block r)
     else if t = 0xc6 then map_option (apfst VBytes) (get_block r)
     else if t = 0xca then map_option (apfst (VFloat \<circ> of_nat)) (get32 r)
     else if t = 0xdd then (case get32 r of None \<Rightarrow> None
       | Some (n, r') \<Rightarrow> map_option (apfst VList) (mp_dec_list f n r'))
     else if t = 0xdf then (case get32 r of None \<Rightarrow> None
       | Some (n, r') \<Rightarrow> map_option (apfst VMap) (mp_dec_map f n r'))
     else None)"
| "mp_dec_list f 0 bs = Some ([], bs)"
| "mp_dec_list 0 (Suc n) bs = None"
| "mp_dec_list (Suc f) (Suc n) bs = (case mp_dec f bs of None \<Rightarrow> None | Some (v, r) \<Rightarrow>
     map_option (apfst ((#) v)) (mp_dec_list f n r))"
| "mp_dec_map f 0 bs = Some ([], bs)"
| "mp_dec_map 0 (Suc n) bs = None"
| "mp_dec_map (Suc f) (Suc n) bs = (case get_str bs of None \<Rightarrow> None | Some (k, r) \<Rightarrow>
     (case mp_dec f r of None \<Rightarrow> None | Some (v, r') \<Rightarrow>
       map_option (apfst ((#) (k, v))) (mp_dec_map f n r')))"

fun zero_val :: "gty \<Rightarrow> gval" where
  "zero_val TString = VStr []"
| "zero_val TBytes = VBytes []"
| "zero_val TBool = VBool False"
| "zero_val TUint32 = VInt 0"
| "zero_val TInt32 = VInt 0"
| "zero_val TInt = VInt 0"
| "zero_val TFloat32 = VFloat 0"
| "zero_val TInt32List = VList []"
| "zero_val TMap = VNil"
| "zero_val TBoolMap = VMap []"

definition mp_decode :: "gty \<Rightarrow> bytes \<Rightarrow> gval \<times> string option \<times> bytes" where
  "mp_decode t bs = (case mp_dec (length bs) bs of
      Some (v, r) \<Rightarrow> if fits v t then (v, None, r) else (zero_val t, Some ''unexpected code'', r)
    | None \<Rightarrow> (zero_val t, Some ''EOF'', []))"

definition mp_codec :: msgpack where
  "mp_codec = \<lparr>enc = (\<lambda>v. (mp_enc v, True)), dec = mp_decode\<rparr>"

section \<open>The concrete codec satisfies the hypothesis\<close>

lemma un32_be32:
  assumes "n < 2 ^ 32"
  shows "un32 (of_nat (n div 2 ^ 24)) (of_nat (n div 2 ^ 16)) (of_nat (n div 2 ^ 8)) (of_nat n) = n"
proof -
  define a b c where "a = n div 256" and "b = a div 256" and "c = b div 256"
  have d: "n div 2 ^ 8 = a" "n div 2 ^ 16 = b" "n div 2 ^ 24 = c"
    by (simp_all add: a_def b_def c_def div_mult2_eq [symmetric])
  define x y z where "x = n mod 256" and "y = a mod 256" and "z = b mod 256"
  have m: "n = a * 256 + x" "a = b * 256 + y" "b = c * 256 + z"
    by (simp_all add: a_def b_def c_def x_def y_def z_def)
  have "c < 256" using assms by (simp add: a_def b_def c_def)
  then have c: "c mod 256 = c" by simp
  have u: "unat (of_nat x :: byte) = x mod 256" for x by (simp add: unat_of_nat take_bit_eq_mod)
  have "un32 (of_nat c) (of_nat b) (of_nat a) (of_nat n) = c * 2 ^ 24 + z * 2 ^ 16 + y * 2 ^ 8 + x"
    unfolding un32_def u c x_def y_def z_def ..
  also have "\<dots> = n" using m by simp
  finally show ?thesis unfolding d .
qed

lemma get32_be32 [simp]: "n < 2 ^ 32 \<Longrightarrow> get32 (be32 n @ r) = Some (n, r)"
  unfolding be32_def get32_def using un32_be32 [of n] by simp

lemma length_be32 [simp]: "length (be32 n) = 4"
  by (simp add: be32_def)

lemma get_block_be32 [simp]: "length b < 2 ^ 32 \<Longrightarrow> get_block (be32 (length b) @ b @ r) = Some (b, r)"
  by (simp add: get_block_def)

lemma get_str_put_str [simp]: "length s < 2 ^ 32 \<Longrightarrow> get_str (put_str s @ r) = Some (s, r)"
  using get_block_be32 [of "bytes_of_string s" r] by (simp add: get_str_def put_str_def)

lemma get_int_put [simp]:
  assumes "- (2 ^ 63) \<le> i" "i < 2 ^ 63"
  shows "get_int (be32 (nat ((i + 2 ^ 63) div 2 ^ 32)) @ be32 (nat ((i + 2 ^ 63) mod 2 ^ 32)) @ r) = Some (VInt i, r)"
proof -
  have h: "nat ((i + 2 ^ 63) div 2 ^ 32) < 2 ^ 32" using assms by (simp add: nat_less_iff)
  have l: "nat ((i + 2 ^ 63) mod 2 ^ 32) < 2 ^ 32" by (simp add: nat_less_iff)
  have "int (nat ((i + 2 ^ 63) div 2 ^ 32)) * 2 ^ 32 + int (nat ((i + 2 ^ 63) mod 2 ^ 32)) = i + 2 ^ 63"
    using assms by (simp add: pos_imp_zdiv_nonneg_iff)
  then show ?thesis unfolding get_int_def using h l by simp
qed

lemma mp_enc_not_Nil: "0 < length (mp_enc v)"
  by (cases v) (simp_all add: put_str_def)

lemma mp_roundtrip:
  "wire_ok v \<Longrightarrow> length (mp_enc v) \<le> f \<Longrightarrow> mp_dec f (mp_enc v @ r) = Some (v, r)"
  "wire_ok_list vs \<Longrightarrow> length (mp_enc_list vs) < f \<Longrightarrow> mp_dec_list f (length vs) (mp_enc_list vs @ r) = Some (vs, r)"
  "wire_ok_map m \<Longrightarrow> length (mp_enc_map m) \<le> f \<Longrightarrow> mp_dec_map f (length m) (mp_enc_map m @ r) = Some (m, r)"
proof (induction v and vs and m arbitrary: f r and f r and f r rule: mp_enc_mp_enc_list_mp_enc_map.induct)
  case 1
  then show ?case by (cases f) simp_all
next
  case (2 b)
  then show ?case by (cases f; cases b) simp_all
next
  case (3 i)
  then obtain g where "f = Suc g" by (cases f) auto
  with 3 show ?case using get_int_put [of i r] by simp
next
  case (4 s)
  then obtain g where "f = Suc g" by (cases f) (auto simp: put_str_def)
  with 4 show ?case using get_block_be32 [of "bytes_of_string s" r] by (simp add: put_str_def)
next
  case (5 b)
  then obtain g where "f = Suc g" by (cases f) auto
  with 5 show ?case by simp
next
  case (6 x)
  then obtain g where "f = Suc g" by (cases f) auto
  then show ?case using unsigned_less [of x, where ?'a = nat] by simp
next
  case (7 vs)
  then obtain g where "f = Suc g" by (cases f) auto
  with 7 show ?case by simp
next
  case (8 m)
  then obtain g where "f = Suc g" by (cases f) auto
  with 8 show ?case by simp
next
  case 9
  then show ?case by (cases f) simp_all
next
  case (10 v vs)
  then obtain g where "f = Suc g" by (cases f) auto
  moreover have "length (mp_enc v) \<le> g" "length (mp_enc_list vs) < g"
    using 10(4) calculation mp_enc_not_Nil [of v] unfolding mp_enc_list.simps length_append by linarith+
  ultimately show ?case using 10 by simp
next
  case 11
  then show ?case by (cases f) simp_all
next
  case (12 k v m)
  then obtain g where g: "f = Suc g" by (cases f) (auto simp: put_str_def)
  then have "length (mp_enc v) \<le> g" "length (mp_enc_map m) \<le> g" using 12(4) by (auto simp: put_str_def)
  with 12 show ?case by (simp add: g)
qed

lemma codec_ok_mp: "codec_ok mp_codec"
  by (auto simp: codec_ok_def mp_codec_def mp_decode_def has_type_def mp_roundtrip)

end
