(* ===== verification/Task_Pool.thy ===== *)
theory Task_Pool
  imports Prelude
begin

text \<open>
  \<open>ms_framework/msf_task_pool_new.go\<close>: a pool of 500 worker goroutines fed by the channel \<open>taskCh\<close>, and one
  goroutine that runs the tasks of the unbuffered channel \<open>separateCh\<close> one after the other (the ordered
  requests). \<open>'a\<close> is the type of the tasks.

  In \<open>task_pool\<close>, \<open>taskCh\<close> is the queue of the channel (buffered tasks, then those whose producers wait
  for room), \<open>separateCh\<close> holds the tasks whose producers are blocked in the send, \<open>running\<close> the tasks the
  workers are executing and \<open>sepRunning\<close> the one the separate goroutine executes. \<open>size\<close> is the \<open>int32\<close>
  counter. A step is one atomic operation of one goroutine; \<open>src t\<close> is the connection whose read loop
  produced \<open>t\<close>: while that loop is blocked in a send on \<open>separateCh\<close> it produces nothing.
\<close>

section \<open>State and operations\<close>

definition coroutinesSize :: nat where "coroutinesSize = 500"

record 'a task_pool =
  taskCh :: "'a list"
  separateCh :: "'a list"
  running :: "'a list"
  sepRunning :: "'a option"
  size :: u32

definition new_TaskPool :: "'a task_pool" where
  "new_TaskPool = \<lparr>taskCh = [], separateCh = [], running = [], sepRunning = None, size = 0\<rparr>"

definition Size :: "'a task_pool \<Rightarrow> u32" where
  "Size t = size t"

definition ProduceTask :: "'a \<Rightarrow> 'a task_pool \<Rightarrow> 'a task_pool" where
  "ProduceTask task t = t\<lparr>size := size t + 1, taskCh := taskCh t @ [task]\<rparr>"

definition ProduceTaskSeparate :: "'a \<Rightarrow> 'a task_pool \<Rightarrow> 'a task_pool" where
  "ProduceTaskSeparate task t = t\<lparr>size := size t + 1, separateCh := separateCh t @ [task]\<rparr>"

text \<open>The loops of the goroutines \<open>Start\<close> spawns: receive a task, and count it down once it has returned.\<close>

definition worker_take :: "'a task_pool \<Rightarrow> ('a \<times> 'a task_pool) option" where
  "worker_take t =
     (if length (running t) < coroutinesSize
      then (case taskCh t of [] \<Rightarrow> None | x # xs \<Rightarrow> Some (x, t\<lparr>taskCh := xs, running := x # running t\<rparr>))
      else None)"

definition worker_done :: "'a \<Rightarrow> 'a task_pool \<Rightarrow> 'a task_pool" where
  "worker_done x t = t\<lparr>running := remove1 x (running t), size := size t - 1\<rparr>"

definition separate_take :: "'a \<Rightarrow> 'a task_pool \<Rightarrow> 'a task_pool option" where
  "separate_take x t =
     (if sepRunning t = None \<and> x \<in> set (separateCh t)
      then Some (t\<lparr>separateCh := remove1 x (separateCh t), sepRunning := Some x\<rparr>) else None)"

definition separate_done :: "'a task_pool \<Rightarrow> 'a task_pool" where
  "separate_done t = t\<lparr>sepRunning := None, size := size t - 1\<rparr>"

text \<open>One round of the loop of \<open>Monitor\<close>: the two numbers of the warning it logs. It reads the counter twice, here in the states
  \<open>t\<close> and \<open>t1\<close>.\<close>

definition Monitor_round :: "'a task_pool \<Rightarrow> 'a task_pool \<Rightarrow> (int \<times> int) option" where
  "Monitor_round t t1 = (let n = Size t in if n \<noteq> 0 then Some (sint n, sint (size t1)) else None)"

text \<open>The exit test of the loop of \<open>StopTaskPool\<close>.\<close>

definition StopTaskPool_exits :: "'a task_pool \<Rightarrow> bool" where
  "StopTaskPool_exits t \<longleftrightarrow> 0 = Size t"

section \<open>The step relation\<close>

text \<open>\<open>sepProduced\<close> and \<open>sepDone\<close> record the ordered tasks in the order they were produced and finished.\<close>

record 'a pool_sys = "'a task_pool" +
  sepProduced :: "'a list"
  sepDone :: "'a list"

definition init_pool_sys :: "'a pool_sys" where
  "init_pool_sys = \<lparr>taskCh = [], separateCh = [], running = [], sepRunning = None, size = 0,
     sepProduced = [], sepDone = []\<rparr>"

definition core :: "'a pool_sys \<Rightarrow> 'a task_pool" where
  "core s = task_pool.truncate s"

definition with_core :: "'a task_pool \<Rightarrow> 'a pool_sys \<Rightarrow> 'a pool_sys" where
  "with_core t s = s\<lparr>taskCh := taskCh t, separateCh := separateCh t, running := running t,
     sepRunning := sepRunning t, size := size t\<rparr>"

inductive pool_step :: "('a \<Rightarrow> conn) \<Rightarrow> 'a pool_sys \<Rightarrow> 'a pool_sys \<Rightarrow> bool" for src where
  produce: "src x \<notin> src ` set (separateCh s) \<Longrightarrow>
    pool_step src s (with_core (ProduceTask x (core s)) s)"
| produce_separate: "src x \<notin> src ` set (separateCh s) \<Longrightarrow>
    pool_step src s ((with_core (ProduceTaskSeparate x (core s)) s)\<lparr>sepProduced := sepProduced s @ [x]\<rparr>)"
| take_task: "worker_take (core s) = Some (x, t) \<Longrightarrow> pool_step src s (with_core t s)"
| finish: "x \<in> set (running s) \<Longrightarrow> pool_step src s (with_core (worker_done x (core s)) s)"
| take_separate: "separate_take x (core s) = Some t \<Longrightarrow> pool_step src s (with_core t s)"
| finish_separate: "sepRunning s = Some x \<Longrightarrow>
    pool_step src s ((with_core (separate_done (core s)) s)\<lparr>sepDone := sepDone s @ [x]\<rparr>)"

inductive pool_reachable :: "('a \<Rightarrow> conn) \<Rightarrow> 'a pool_sys \<Rightarrow> bool" for src where
  pool_init: "pool_reachable src init_pool_sys"
| pool_next: "pool_reachable src s \<Longrightarrow> pool_step src s s' \<Longrightarrow> pool_reachable src s'"

section \<open>Invariants\<close>

definition in_flight :: "('a, 'b) task_pool_scheme \<Rightarrow> nat" where
  "in_flight t = length (taskCh t) + length (running t) + length (separateCh t)
     + (if sepRunning t = None then 0 else 1)"

definition from_conn :: "('a \<Rightarrow> conn) \<Rightarrow> conn \<Rightarrow> 'a list \<Rightarrow> 'a list" where
  "from_conn src c xs = filter (\<lambda>x. src x = c) xs"

definition sep_queue :: "'a pool_sys \<Rightarrow> 'a list" where
  "sep_queue s = (case sepRunning s of None \<Rightarrow> [] | Some x \<Rightarrow> [x]) @ separateCh s"

definition pool_inv :: "('a \<Rightarrow> conn) \<Rightarrow> 'a pool_sys \<Rightarrow> bool" where
  "pool_inv src s \<longleftrightarrow>
     size s = of_nat (in_flight s)
     \<and> length (running s) \<le> coroutinesSize
     \<and> distinct (map src (separateCh s))
     \<and> (\<forall>c. from_conn src c (sepProduced s) = from_conn src c (sepDone s @ sep_queue s))"

lemma with_core_simps [simp]:
  "taskCh (with_core t s) = taskCh t" "separateCh (with_core t s) = separateCh t"
  "running (with_core t s) = running t" "sepRunning (with_core t s) = sepRunning t"
  "size (with_core t s) = size t" "sepProduced (with_core t s) = sepProduced s"
  "sepDone (with_core t s) = sepDone s"
  by (simp_all add: with_core_def)

lemma core_simps [simp]:
  "taskCh (core s) = taskCh s" "separateCh (core s) = separateCh s" "running (core s) = running s"
  "sepRunning (core s) = sepRunning s" "size (core s) = size s"
  by (simp_all add: core_def task_pool.truncate_def)

lemma from_conn_append [simp]: "from_conn src c (xs @ ys) = from_conn src c xs @ from_conn src c ys"
  by (simp add: from_conn_def)

lemma from_conn_Cons: "from_conn src c (x # xs) = (if src x = c then x # from_conn src c xs else from_conn src c xs)"
  by (simp add: from_conn_def)

lemma from_conn_Nil [simp]: "from_conn src c [] = []"
  by (simp add: from_conn_def)

text \<open>At most one waiting task per connection: taking any of them keeps each connection's order.\<close>

lemma from_conn_remove1:
  assumes "distinct (map src xs)" "x \<in> set xs"
  shows "from_conn src c (x # remove1 x xs) = from_conn src c xs"
  using assms
proof (induction xs)
  case (Cons y ys)
  show ?case
  proof (cases "y = x")
    case False
    then have "x \<in> set ys" using Cons.prems(2) by simp
    moreover have "src y \<notin> src ` set ys" using Cons.prems(1) by simp
    ultimately have "x \<in> set ys" "src x \<noteq> src y" by (metis image_eqI)+
    with Cons False show ?thesis by (auto simp: from_conn_Cons)
  qed simp
qed simp

lemma distinct_map_remove1: "distinct (map f xs) \<Longrightarrow> distinct (map f (remove1 x xs))"
  unfolding distinct_map using set_remove1_subset [of x xs] by (auto intro: inj_on_subset)

lemma length_remove1_Suc: "x \<in> set xs \<Longrightarrow> length xs = Suc (length (remove1 x xs))"
  using length_pos_if_in_set [of x xs] by (simp add: length_remove1)

lemma from_conn_at_most_one: "distinct (map src xs) \<Longrightarrow> length (from_conn src c xs) \<le> 1"
proof (induction xs)
  case (Cons x xs)
  have "from_conn src c xs = []" if "src x = c"
  proof -
    have "src x \<notin> src ` set xs" using Cons.prems by simp
    then show ?thesis unfolding from_conn_def filter_empty_conv that [symmetric] by (metis image_eqI)
  qed
  with Cons show ?case by (auto simp: from_conn_Cons)
qed simp

lemma worker_takeE:
  assumes "worker_take t = Some (x, t')"
  obtains xs where "taskCh t = x # xs" "t' = t\<lparr>taskCh := xs, running := x # running t\<rparr>"
    "length (running t) < coroutinesSize"
  using assms by (auto simp: worker_take_def split: if_splits list.splits)

lemma separate_takeE:
  assumes "separate_take x t = Some t'"
  obtains "sepRunning t = None" "x \<in> set (separateCh t)"
    "t' = t\<lparr>separateCh := remove1 x (separateCh t), sepRunning := Some x\<rparr>"
  using assms by (auto simp: separate_take_def split: if_splits)

lemma pool_inv_init: "pool_inv src init_pool_sys"
  by (simp add: pool_inv_def init_pool_sys_def in_flight_def sep_queue_def)

lemma pool_invI:
  assumes "size s = of_nat (in_flight s)" "length (running s) \<le> coroutinesSize"
    "distinct (map src (separateCh s))"
    "\<And>c. from_conn src c (sepProduced s) = from_conn src c (sepDone s) @ from_conn src c (sep_queue s)"
  shows "pool_inv src s"
  using assms by (simp add: pool_inv_def)

lemma pool_inv_step:
  assumes "pool_step src s s'" "pool_inv src s"
  shows "pool_inv src s'"
proof -
  have I: "size s = of_nat (in_flight s)" "length (running s) \<le> coroutinesSize"
    "distinct (map src (separateCh s))"
    "from_conn src c (sepProduced s) = from_conn src c (sepDone s) @ from_conn src c (sep_queue s)" for c
    using assms(2) by (simp_all add: pool_inv_def)
  from assms(1) show ?thesis
  proof (cases rule: pool_step.cases)
    case (produce x)
    then show ?thesis
      using I by (intro pool_invI) (simp_all add: in_flight_def ProduceTask_def sep_queue_def)
  next
    case (produce_separate x)
    then show ?thesis
      using I by (intro pool_invI) (simp_all add: in_flight_def ProduceTaskSeparate_def sep_queue_def)
  next
    case (take_task x t)
    from take_task(2) obtain xs where "taskCh s = x # xs" "t = (core s)\<lparr>taskCh := xs, running := x # running s\<rparr>"
      "length (running s) < coroutinesSize" by (auto elim: worker_takeE)
    with take_task(1) I show ?thesis
      by (intro pool_invI) (simp_all add: in_flight_def sep_queue_def)
  next
    case (finish x)
    note len = length_remove1_Suc [OF finish(2)]
    show ?thesis
      using I unfolding finish(1) by (intro pool_invI) (simp_all add: in_flight_def worker_done_def sep_queue_def len)
  next
    case (take_separate x t)
    from take_separate(2) have t: "sepRunning s = None" "x \<in> set (separateCh s)"
      "t = (core s)\<lparr>separateCh := remove1 x (separateCh s), sepRunning := Some x\<rparr>"
      by (auto elim: separate_takeE)
    note len = length_remove1_Suc [OF t(2)] and ord = from_conn_remove1 [OF I(3) t(2)]
    show ?thesis
      using I t(1) ord unfolding take_separate(1) t(3)
      by (intro pool_invI) (simp_all add: in_flight_def sep_queue_def distinct_map_remove1 len)
  next
    case (finish_separate x)
    then show ?thesis
      using I by (intro pool_invI) (simp_all add: in_flight_def separate_done_def sep_queue_def from_conn_Cons)
  qed
qed

lemma pool_inv_reachable: "pool_reachable src s \<Longrightarrow> pool_inv src s"
  by (induction rule: pool_reachable.induct) (auto intro: pool_inv_init pool_inv_step)

lemma in_flight_zero:
  "in_flight t = 0 \<longleftrightarrow> taskCh t = [] \<and> running t = [] \<and> separateCh t = [] \<and> sepRunning t = None"
  by (auto simp: in_flight_def)

text \<open>The monitor warns exactly while a task is in flight, and the number it prints is the number of tasks.\<close>

lemma monitor_reports:
  assumes "pool_reachable src s" "in_flight s < 2 ^ 31"
  shows "Monitor_round (core s) (core s) =
    (if in_flight s = 0 then None else Some (int (in_flight s), int (in_flight s)))"
proof -
  have n: "size s = of_nat (in_flight s)" using pool_inv_reachable [OF assms(1)] by (simp add: pool_inv_def)
  have z: "(of_nat (in_flight s) :: u32) = 0 \<longleftrightarrow> in_flight s = 0"
    using assms(2) by (auto simp: word_of_nat_eq_0_iff dest: dvd_imp_le)
  have "sint (of_nat (in_flight s) :: u32) = int (in_flight s)"
    using assms(2) by (simp add: signed_of_nat signed_take_bit_int_eq_self)
  then show ?thesis by (simp add: Monitor_round_def Size_def n z Let_def)
qed

section \<open>Properties\<close>

text \<open>Property C15. The size counter counts exactly the tasks that were produced and have not returned, and at most
  500 of them run on the workers. So when the loop of \<open>StopTaskPool\<close> exits, with fewer than \<open>2 ^ 32\<close> tasks in
  flight, no task is queued, waiting to be accepted, or running.\<close>

theorem stop_waits_for_all_tasks:
  assumes "pool_reachable src s"
  shows "size s = of_nat (in_flight s) \<and> length (running s) \<le> 500
    \<and> (StopTaskPool_exits (core s) \<and> in_flight s < 2 ^ 32 \<longrightarrow>
         taskCh s = [] \<and> running s = [] \<and> separateCh s = [] \<and> sepRunning s = None)"
proof -
  have inv: "pool_inv src s" using assms by (rule pool_inv_reachable)
  have "in_flight s = 0" if "StopTaskPool_exits (core s)" "in_flight s < 2 ^ 32"
  proof -
    have "(of_nat (in_flight s) :: u32) = 0"
      using that(1) inv by (simp add: StopTaskPool_exits_def Size_def pool_inv_def)
    then have "unat (of_nat (in_flight s) :: u32) = 0" by simp
    then show ?thesis using that(2) by (simp add: unat_of_nat take_bit_nat_eq_self)
  qed
  then show ?thesis using inv by (auto simp: pool_inv_def coroutinesSize_def in_flight_zero)
qed

text \<open>Property C16. Ordered requests (the tasks given to \<open>ProduceTaskSeparate\<close>) of one connection are executed one at a
  time in the order their connection produced them: the finished ones are a prefix of the produced ones, then
  comes the one that runs, then the one that waits.\<close>

theorem ordered_tasks_in_order:
  assumes "pool_reachable src s"
  shows "from_conn src c (sepProduced s) =
    from_conn src c (sepDone s) @ from_conn src c (case sepRunning s of None \<Rightarrow> [] | Some x \<Rightarrow> [x]) @ from_conn src c (separateCh s)
    \<and> length (from_conn src c (separateCh s)) \<le> 1"
proof -
  have inv: "pool_inv src s" using assms by (rule pool_inv_reachable)
  then have "length (from_conn src c (separateCh s)) \<le> 1"
    by (intro from_conn_at_most_one) (simp add: pool_inv_def)
  then show ?thesis using inv by (simp add: pool_inv_def sep_queue_def)
qed

text \<open>A concrete pool: connection ``a'' has one ordered task running and the next one blocked in its send, and a
  worker runs a task of connection ``b''.\<close>

definition demo_pool :: "(conn \<times> nat) pool_sys" where
  "demo_pool = \<lparr>taskCh = [], separateCh = [(''a'', 2)], running = [(''b'', 7)], sepRunning = Some (''a'', 1),
     size = 3, sepProduced = [(''a'', 1), (''a'', 2)], sepDone = []\<rparr>"

lemmas pool_ops = ProduceTask_def ProduceTaskSeparate_def worker_take_def separate_take_def with_core_def
  core_def task_pool.truncate_def init_pool_sys_def coroutinesSize_def

lemma demo_pool_reachable: "pool_reachable fst demo_pool"
proof -
  let ?p = "init_pool_sys :: (conn \<times> nat) pool_sys"
  let ?p1 = "?p\<lparr>separateCh := [(''a'', 1)], size := 1, sepProduced := [(''a'', 1)]\<rparr>"
  let ?p2 = "?p1\<lparr>separateCh := [], sepRunning := Some (''a'', 1)\<rparr>"
  let ?p3 = "?p2\<lparr>taskCh := [(''b'', 7)], size := 2\<rparr>"
  let ?p4 = "?p3\<lparr>taskCh := [], running := [(''b'', 7)]\<rparr>"
  have 1: "pool_step fst ?p ?p1"
    using produce_separate [of fst "(''a'', 1)" ?p] by (simp add: pool_ops)
  have 2: "pool_step fst ?p1 ?p2"
    using take_separate [of "(''a'', 1)" ?p1 _ fst] by (simp add: pool_ops)
  have 3: "pool_step fst ?p2 ?p3"
    using produce [of fst "(''b'', 7)" ?p2] by (simp add: pool_ops)
  have 4: "pool_step fst ?p3 ?p4"
    using take_task [of ?p3 "(''b'', 7)" _ fst] by (simp add: pool_ops)
  have 5: "pool_step fst ?p4 demo_pool"
    using produce_separate [of fst "(''a'', 2)" ?p4] by (simp add: pool_ops demo_pool_def)
  show ?thesis
    by (rule pool_next [OF pool_next [OF pool_next [OF pool_next [OF pool_next [OF pool_init 1] 2] 3] 4] 5])
qed

theorem stop_waits_for_all_tasks_witness:
  "size demo_pool = of_nat (in_flight demo_pool) \<and> length (running demo_pool) \<le> 500"
  using stop_waits_for_all_tasks [OF demo_pool_reachable] by blast

theorem ordered_tasks_in_order_witness:
  "[(''a'', 1), (''a'', 2)] = from_conn fst ''a'' (sepDone demo_pool) @ [(''a'', 1)] @ from_conn fst ''a'' (separateCh demo_pool)"
  using ordered_tasks_in_order [OF demo_pool_reachable, of "''a''"] by (simp add: demo_pool_def from_conn_def)

text \<open>The pool always makes progress: while a task is in flight some goroutine of the pool can take or
  finish one, and each such step decreases the outstanding work, so with no further requests every task that was
  accepted is run.\<close>

definition pool_work :: "'a pool_sys \<Rightarrow> nat" where
  "pool_work s = 2 * length (taskCh s) + 2 * length (separateCh s) + length (running s)
     + (if sepRunning s = None then 0 else 1)"

theorem pool_drains:
  assumes "0 < in_flight s"
  shows "\<exists>s'. pool_step src s s' \<and> pool_work s' < pool_work s \<and> sepProduced s' = sepProduced s"
proof -
  consider (run) x where "x \<in> set (running s)" | (sep) x where "sepRunning s = Some x"
    | (take) x xs where "running s = []" "taskCh s = x # xs"
    | (tsep) x where "sepRunning s = None" "x \<in> set (separateCh s)"
    using assms by (cases "running s"; cases "taskCh s"; cases "separateCh s"; cases "sepRunning s")
      (auto simp: in_flight_def)
  then show ?thesis
  proof cases
    case run
    have "pool_work (with_core (worker_done x (core s)) s) < pool_work s"
      using length_remove1_Suc [OF run] by (simp add: pool_work_def worker_done_def)
    with finish [OF run, of src] with_core_simps(6) show ?thesis by blast
  next
    case sep
    let ?s = "(with_core (separate_done (core s)) s)\<lparr>sepDone := sepDone s @ [x]\<rparr>"
    have "pool_work ?s < pool_work s" "sepProduced ?s = sepProduced s"
      using sep by (simp_all add: pool_work_def separate_done_def)
    with finish_separate [OF sep, of src] show ?thesis by blast
  next
    case take
    let ?t = "(core s)\<lparr>taskCh := xs, running := [x]\<rparr>"
    have "worker_take (core s) = Some (x, ?t)" using take by (simp add: worker_take_def coroutinesSize_def)
    moreover have "pool_work (with_core ?t s) < pool_work s" using take by (simp add: pool_work_def)
    ultimately show ?thesis using take_task [of s x ?t src] with_core_simps(6) by blast
  next
    case tsep
    let ?t = "(core s)\<lparr>separateCh := remove1 x (separateCh s), sepRunning := Some x\<rparr>"
    have "separate_take x (core s) = Some ?t" using tsep by (simp add: separate_take_def)
    moreover have "pool_work (with_core ?t s) < pool_work s"
      using tsep length_remove1_Suc [OF tsep(2)] by (simp add: pool_work_def)
    ultimately show ?thesis using take_separate [of x s ?t src] with_core_simps(6) by blast
  qed
qed

theorem pool_drains_witness:
  "\<exists>s'. pool_step fst demo_pool s' \<and> pool_work s' < pool_work demo_pool"
  using pool_drains [of demo_pool fst] by (auto simp: in_flight_def demo_pool_def)

end
