(* ===== verification/World.thy ===== *)
theory World
  imports Framing Msgpack Load_Balancer Callback_Mgr Task_Pool
begin

text \<open>
  The state of one process of the system, the union of the package variables of \<open>ms_framework\<close>:
  \<open>GlobalCfg\<close>, \<open>serverIdentity\<close>, \<open>rpcMgr\<close>, \<open>tcpServer\<close>, \<open>remoteMgr\<close>, the callback manager, \<open>globalGID\<close> and
  \<open>gTaskPool\<close>. \<open>'h\<close> is the type of the handler generators the process registers. The record is extensible:
  the gate and the push service add their own variables.

  The environment is part of the record: \<open>now\<close> is \<open>GetNowTimestampMs()\<close>, \<open>netWrite c m\<close> what \<open>conn.Write(m)\<close>
  returns on \<open>c\<close> (the bytes written, and whether \<open>err\<close> is nil), and \<open>out\<close> records what was written to which
  connection, in order. A \<open>net.Conn\<close> is its remote address, nil is \<open>None\<close>. A \<open>*Session\<close> is a \<open>session\<close> whose
  \<open>sid\<close> is its address; the mutable field \<open>err\<close> lives in \<open>sessErr\<close>, since one session is shared by all
  requests of one read.
\<close>

section \<open>Data\<close>

datatype server_identity = SERVER_IDENTITY_SERVICE | SERVER_IDENTITY_SERVICE_GATE | SERVER_IDENTITY_CLIENT_GATE

record DbConfig =
  db_Name :: string
  db_Type :: string
  db_Addr :: "string list"

record GlobalConfig =
  Namespace :: string
  Service :: string
  Port :: int
  LogLevel :: string
  Etcd :: "string list"
  DbCfg :: "DbConfig list"

datatype session_type = SessionTcpClient | SessionRemote

record session =
  styp :: session_type
  sconn :: conn
  sid :: nat

datatype client_state = TcpClientState_Init | TcpClientState_OK | TcpClientState_EXIT

record TcpClient =
  cconn :: conn
  crecv :: recv
  lastActiveTime :: int
  state :: client_state

record TcpServer =
  ip :: string
  port :: int
  listening :: bool
  clients :: "CONN_ID \<rightharpoonup> TcpClient"
  stop :: bool
  slb :: load_balancer

record Remote =
  remoteId :: REMOTE_ID
  rconn :: conn
  rrecv :: recv
  rlastActiveTime :: int

record RemoteMgr =
  remotes :: "CONN_ID \<rightharpoonup> Remote"
  lbs :: "REMOTE_ID \<rightharpoonup> load_balancer"
  orderedCache :: "CONN_ID \<rightharpoonup> (REMOTE_ID \<rightharpoonup> CONN_ID)"

text \<open>The values the code passes to \<open>AddCallBack\<close>: the route information of the gate and the channels of
  \<open>RpcCall\<close> (a channel is its address), and the callback functions of the client sdk. A time-out callback sends an
  error text to a channel, or calls a callback function with it.\<close>

record C2GRouteCbInfo =
  cb_rid :: u32
  cb_connID :: CONN_ID
  cb_nameSpace :: string
  cb_service :: string
  cb_rpcName :: string
  cb_createTime :: int

datatype gany = ARoute C2GRouteCbInfo | AChan nat | AFunc nat

datatype timeout_cb = SendTimeout nat string | RunTimeout nat string

text \<open>
  A message on the channel of an \<open>RpcCall\<close>: a \<open>RpcCallTimeOutError\<close>, or the error text and the reply. The
  channels are unbuffered: \<open>chanRecv\<close> holds those whose call is at its receive, and a send to any other never
  returns.
\<close>

datatype call_rsp = RspTimeout string | RspReply string gval

record 'h SimpleRpcMgr =
  rpcs :: "string \<rightharpoonup> 'h"
  clientAccess :: "(string \<times> bool) list"
  stopRegist :: bool

text \<open>The closure \<open>task\<close> of \<open>RpcDecode\<close>: its session, the decoded name and the bytes its decoder has left.\<close>

record task =
  tSession :: session
  tName :: string
  tArgs :: bytes

record 'h world =
  cfg :: GlobalConfig
  serverIdentity :: server_identity
  rpcMgr :: "'h SimpleRpcMgr"
  tcpServer :: TcpServer
  remoteMgr :: RemoteMgr
  cbMgr :: "(gany list, timeout_cb) cbmgr"
  globalGID :: u32
  gTaskPool :: "task task_pool"
  rpcFvcTotal :: nat
  sessErr :: "nat \<Rightarrow> string"
  nextSid :: nat
  chanMsgs :: "nat \<rightharpoonup> call_rsp"
  chanRecv :: "nat set"
  nextChan :: nat
  out :: "(conn \<times> bytes) list"
  now :: int
  netWrite :: "conn \<Rightarrow> bytes \<Rightarrow> nat \<times> bool"

text \<open>
  The interface \<open>RpcHandler\<close> with the optional \<open>RpcClientPermission\<close>: \<open>GetReqPtr\<close> gives the fields of the
  request struct (\<open>None\<close> for nil), \<open>GetRspPtr\<close> whether the handler has a response struct, \<open>ClientAccess\<close> is
  \<open>None\<close> for a type without that method. \<open>Process\<close> runs the handler on the decoded fields; its result is the panic
  that ended it, if any, the fields of the response struct and the state, which a panic does not undo.
\<close>

type_synonym 'w proc = "panic option \<times> (string \<times> gval) list option \<times> 'w"

record ('h, 'w) handlers =
  GetReqPtr :: "'h \<Rightarrow> (string \<times> gty) list option"
  ClientAccess :: "'h \<Rightarrow> bool option"
  Process :: "'h \<Rightarrow> gval list \<Rightarrow> session \<Rightarrow> 'w \<Rightarrow> 'w proc"

section \<open>Operations\<close>

definition GetConnID :: "conn \<Rightarrow> CONN_ID" where
  "GetConnID c = c"

definition GenConnIDByIPPort :: "string \<Rightarrow> u32 \<Rightarrow> CONN_ID" where
  "GenConnIDByIPPort i p = i @ '':'' @ show_nat (unat p)"

definition GetRemoteID :: "string \<Rightarrow> string \<Rightarrow> REMOTE_ID" where
  "GetRemoteID namespace svrName = namespace @ '':'' @ svrName"

definition CreateSession :: "session_type \<Rightarrow> conn \<Rightarrow> ('h, 'b) world_scheme \<Rightarrow> session \<times> ('h, 'b) world_scheme" where
  "CreateSession t c w =
     (\<lparr>styp = t, sconn = c, sid = nextSid w\<rparr>,
      w\<lparr>nextSid := Suc (nextSid w), sessErr := (sessErr w)(nextSid w := [])\<rparr>)"

definition SetResponseErr :: "session \<Rightarrow> string \<Rightarrow> ('h, 'b) world_scheme \<Rightarrow> ('h, 'b) world_scheme" where
  "SetResponseErr session err w = w\<lparr>sessErr := (sessErr w)(sid session := err)\<rparr>"

definition GetResponseErr :: "session \<Rightarrow> ('h, 'b) world_scheme \<Rightarrow> string" where
  "GetResponseErr session w = sessErr w (sid session)"

definition MessageSend :: "conn option \<Rightarrow> bytes \<Rightarrow> ('h, 'b) world_scheme \<Rightarrow> bool \<times> ('h, 'b) world_scheme" where
  "MessageSend conn msg w =
     (case conn of
        None \<Rightarrow> (False, w)
      | Some c \<Rightarrow>
          if length msg = 0 then (True, w)
          else (case netWrite w c msg of (wLen, ok) \<Rightarrow> (ok, w\<lparr>out := out w @ [(c, take wLen msg)]\<rparr>)))"

definition RpcEncode :: "msgpack \<Rightarrow> string \<Rightarrow> gval list \<Rightarrow> bytes" where
  "RpcEncode mp name args = fst (enc mp (VStr name)) @ concat (map (\<lambda>arg. fst (enc mp arg)) args)"

text \<open>The sequence \<open>RpcEncode\<close>, \<open>MessageEncode\<close>, \<open>MessageSend\<close> by which the code sends every message.\<close>

definition rpc_send ::
  "msgpack \<Rightarrow> conn option \<Rightarrow> string \<Rightarrow> gval list \<Rightarrow> ('h, 'b) world_scheme \<Rightarrow> bool res \<times> ('h, 'b) world_scheme" where
  "rpc_send mp conn name args w =
     (case MessageEncode (RpcEncode mp name args) of
        Inl e \<Rightarrow> (Inl e, w)
      | Inr msg \<Rightarrow> (case MessageSend conn msg w of (ok, w') \<Rightarrow> (Inr ok, w')))"

definition NewGid :: "('h, 'b) world_scheme \<Rightarrow> u32 \<times> ('h, 'b) world_scheme" where
  "NewGid w = (globalGID w + 1, w\<lparr>globalGID := globalGID w + 1\<rparr>)"

definition add_callback ::
  "u32 \<Rightarrow> gany list \<Rightarrow> int \<Rightarrow> timeout_cb option \<Rightarrow> ('h, 'b) world_scheme \<Rightarrow> unit res \<times> ('h, 'b) world_scheme" where
  "add_callback k cbs waitTime t w =
     (case AddCallBack k cbs waitTime t (now w div 1000) (cbMgr w) of
        None \<Rightarrow> (Inl Hang, w)
      | Some m \<Rightarrow> (Inr (), w\<lparr>cbMgr := m\<rparr>))"

definition get_callback ::
  "u32 \<Rightarrow> ('h, 'b) world_scheme \<Rightarrow> gany list option \<times> ('h, 'b) world_scheme" where
  "get_callback k w = (case GetCallBack k (cbMgr w) of (r, m) \<Rightarrow> (r, w\<lparr>cbMgr := m\<rparr>))"

definition GetTcpClient :: "CONN_ID \<Rightarrow> ('h, 'b) world_scheme \<Rightarrow> TcpClient option" where
  "GetTcpClient connID w = clients (tcpServer w) connID"

definition GetRemote :: "CONN_ID \<Rightarrow> ('h, 'b) world_scheme \<Rightarrow> Remote option" where
  "GetRemote connID w = remotes (remoteMgr w) connID"

definition SetState :: "CONN_ID \<Rightarrow> client_state \<Rightarrow> ('h, 'b) world_scheme \<Rightarrow> ('h, 'b) world_scheme" where
  "SetState connID st w =
     w\<lparr>tcpServer := (tcpServer w)\<lparr>clients :=
        (clients (tcpServer w))(connID := map_option (\<lambda>c. c\<lparr>state := st\<rparr>) (clients (tcpServer w) connID))\<rparr>\<rparr>"

definition chan_send :: "nat \<Rightarrow> call_rsp \<Rightarrow> ('h, 'b) world_scheme \<Rightarrow> unit res \<times> ('h, 'b) world_scheme" where
  "chan_send ch m w =
     (if ch \<in> chanRecv w then (Inr (), w\<lparr>chanRecv := chanRecv w - {ch}, chanMsgs := (chanMsgs w)(ch \<mapsto> m)\<rparr>)
      else (Inl Hang, w))"

definition RpcFvcCount :: "('h, 'b) world_scheme \<Rightarrow> ('h, 'b) world_scheme" where
  "RpcFvcCount w = w\<lparr>rpcFvcTotal := Suc (rpcFvcTotal w)\<rparr>"

section \<open>The initial state\<close>

definition CreateTcpServer :: "string \<Rightarrow> int \<Rightarrow> TcpServer" where
  "CreateTcpServer i p =
     \<lparr>ip = i, port = p, listening = False, clients = Map.empty, stop = False, slb = new_LoadBalancer\<rparr>"

definition GetTcpListenIP :: "server_identity \<Rightarrow> string \<Rightarrow> string" where
  "GetTcpListenIP identity localIP =
     (if SERVER_IDENTITY_CLIENT_GATE = identity then ''0.0.0.0''
      else if length localIP = 0 then ''0.0.0.0'' else localIP)"

definition CreateRemoteMgr :: RemoteMgr where
  "CreateRemoteMgr = \<lparr>remotes = Map.empty, lbs = Map.empty, orderedCache = Map.empty\<rparr>"

definition empty_rpcMgr :: "'h SimpleRpcMgr" where
  "empty_rpcMgr = \<lparr>rpcs = Map.empty, clientAccess = [], stopRegist = False\<rparr>"

text \<open>
  The state after \<open>Init\<close>, for the configuration, identity, local address and registry given; the last argument is the
  behaviour of the network.
\<close>

definition Init :: "GlobalConfig \<Rightarrow> server_identity \<Rightarrow> string \<Rightarrow> 'h SimpleRpcMgr \<Rightarrow> int \<Rightarrow> (conn \<Rightarrow> bytes \<Rightarrow> nat \<times> bool) \<Rightarrow> 'h world" where
  "Init c identity localIP r t nw =
     \<lparr>cfg = c, serverIdentity = identity, rpcMgr = r,
      tcpServer = CreateTcpServer (GetTcpListenIP identity localIP) (Port c),
      remoteMgr = CreateRemoteMgr, cbMgr = new_cbmgr, globalGID = 0, gTaskPool = new_TaskPool, rpcFvcTotal = 0,
      sessErr = (\<lambda>_. []), nextSid = 0, chanMsgs = Map.empty, chanRecv = {}, nextChan = 0,
      out = [], now = t, netWrite = nw\<rparr>"

text \<open>A network that writes everything.\<close>

definition good_net :: "conn \<Rightarrow> bytes \<Rightarrow> nat \<times> bool" where
  "good_net c m = (length m, True)"

section \<open>Lemmas\<close>

lemma MessageSend_out:
  "MessageSend c m w = (ok, w') \<Longrightarrow> \<exists>ms. out w' = out w @ ms \<and> (\<forall>x\<in>set ms. Some (fst x) = c)"
  by (auto simp: MessageSend_def split: option.splits if_splits prod.splits)

lemma same_out: "\<exists>o'. w = w\<lparr>out := o'\<rparr>" for w :: "('h, 'b) world_scheme"
  by (rule exI [of _ "out w"]) simp

lemma MessageSend_frame:
  "MessageSend c m w = (ok, w') \<Longrightarrow> \<exists>o'. w' = w\<lparr>out := o'\<rparr>"
  by (auto simp: MessageSend_def intro: same_out split: option.splits if_splits prod.splits)

lemma rpc_send_frame: "rpc_send mp c name args w = (r, w') \<Longrightarrow> \<exists>o'. w' = w\<lparr>out := o'\<rparr>"
  by (auto simp: rpc_send_def intro: same_out dest: MessageSend_frame split: sum.splits prod.splits)

lemma rpc_send_out:
  "rpc_send mp c name args w = (r, w') \<Longrightarrow> \<exists>ms. out w' = out w @ ms \<and> (\<forall>x\<in>set ms. Some (fst x) = c)"
  by (auto simp: rpc_send_def dest: MessageSend_out split: sum.splits prod.splits)

lemma rpc_send_ok:
  assumes "length (RpcEncode mp name args) \<le> 16384" "netWrite w c = (\<lambda>m. (length m, True))"
    "MessageEncode (RpcEncode mp name args) = Inr m"
  shows "rpc_send mp (Some c) name args w = (Inr True, w\<lparr>out := out w @ [(c, m)]\<rparr>)"
proof -
  have "m \<noteq> []" using assms(1,3) by (auto simp: MessageEncode_ok)
  then show ?thesis using assms(2,3) by (simp add: rpc_send_def MessageSend_def)
qed

lemma add_callback_law:
  assumes "cb_wf (cbMgr w)"
  shows "\<exists>m. add_callback k v t to w = (Inr (), w\<lparr>cbMgr := m\<rparr>) \<and> cb_wf m \<and> cb_lookup m = (cb_lookup (cbMgr w))(k \<mapsto> v)"
  using cb.add_law [OF assms, of k v t to "now w div 1000"] by (auto simp: add_callback_def)

lemma get_callback_law:
  assumes "cb_wf (cbMgr w)"
  shows "\<exists>m. get_callback k w = (cb_lookup (cbMgr w) k, w\<lparr>cbMgr := m\<rparr>) \<and> cb_wf m \<and> cb_lookup m = (cb_lookup (cbMgr w))(k := None)"
  using cb.get_law [OF assms, of k] by (auto simp: get_callback_def split: prod.splits)

end
