(* ===== verification/Simple_Rpc.thy ===== *)
theory Simple_Rpc
  imports World
begin

text \<open>
  \<open>SimpleRpcMgr\<close> of \<open>ms_framework/msf_simple_rpc.go\<close>: the handler registry, the check of the sending client,
  and the dispatch of one packet. \<open>hs\<close> is the handler interface, \<open>mp\<close> the msgpack codec. The closure \<open>task\<close>
  that \<open>RpcDecode\<close> builds is a value of type \<open>task\<close>, and \<open>run_task\<close> is its body: the two sync messages run it at
  once, the others hand it to the task pool.
\<close>

section \<open>The message names\<close>

definition MSG_C2G_RPC_ROUTE :: string where "MSG_C2G_RPC_ROUTE = ''a''"
definition MSG_G2S_RPC_CALL :: string where "MSG_G2S_RPC_CALL = ''b''"
definition MSG_S2G_RPC_RSP :: string where "MSG_S2G_RPC_RSP = ''c''"
definition MSG_G2C_RPC_RSP :: string where "MSG_G2C_RPC_RSP = ''d''"
definition MSG_G2S_RPC_CALL_ORDERED :: string where "MSG_G2S_RPC_CALL_ORDERED = ''t''"
definition MSG_HEART_BEAT_REQ :: string where "MSG_HEART_BEAT_REQ = ''e''"
definition MSG_HEART_BEAT_RSP :: string where "MSG_HEART_BEAT_RSP = ''f''"
definition MSG_C2G_VERTIFY :: string where "MSG_C2G_VERTIFY = ''g''"
definition MSG_GATE_LOGIN :: string where "MSG_GATE_LOGIN = ''h''"
definition MSG_GATE_LOGOFF :: string where "MSG_GATE_LOGOFF = ''i''"
definition MSG_P2G_REQ_LISTENADDR :: string where "MSG_P2G_REQ_LISTENADDR = ''j''"
definition MSG_G2P_RSP_LISTENADDR :: string where "MSG_G2P_RSP_LISTENADDR = ''k''"
definition MSG_S2P_PUSH :: string where "MSG_S2P_PUSH = ''l''"
definition MSG_P2G_PUSH :: string where "MSG_P2G_PUSH = ''m''"
definition MSG_G2C_PUSH :: string where "MSG_G2C_PUSH = ''n''"
definition MSG_PUSH_REPLY :: string where "MSG_PUSH_REPLY = ''o''"
definition MSG_PUSH_RESTORE :: string where "MSG_PUSH_RESTORE = ''p''"
definition MSG_S2G_RPC_ACCESS_REPORT :: string where "MSG_S2G_RPC_ACCESS_REPORT = ''r''"

lemmas msg_names [msf_defs] = MSG_C2G_RPC_ROUTE_def MSG_G2S_RPC_CALL_def MSG_S2G_RPC_RSP_def MSG_G2C_RPC_RSP_def
  MSG_G2S_RPC_CALL_ORDERED_def MSG_HEART_BEAT_REQ_def MSG_HEART_BEAT_RSP_def MSG_C2G_VERTIFY_def
  MSG_GATE_LOGIN_def MSG_GATE_LOGOFF_def MSG_P2G_REQ_LISTENADDR_def MSG_G2P_RSP_LISTENADDR_def
  MSG_S2P_PUSH_def MSG_P2G_PUSH_def MSG_G2C_PUSH_def MSG_PUSH_REPLY_def MSG_PUSH_RESTORE_def
  MSG_S2G_RPC_ACCESS_REPORT_def

section \<open>The registry\<close>

definition GenClientAccess :: "('h, 'w) handlers \<Rightarrow> string \<Rightarrow> 'h \<Rightarrow> 'h SimpleRpcMgr \<Rightarrow> 'h SimpleRpcMgr" where
  "GenClientAccess hs name gen r =
     (if ClientAccess hs gen = Some True
      then r\<lparr>clientAccess := AList.update name True (clientAccess r)\<rparr>
      else r\<lparr>clientAccess := AList.update name False (clientAccess r)\<rparr>)"

definition RegistRpcHandler :: "('h, 'w) handlers \<Rightarrow> string \<Rightarrow> 'h \<Rightarrow> 'h SimpleRpcMgr \<Rightarrow> 'h SimpleRpcMgr res" where
  "RegistRpcHandler hs name gen r =
     (if stopRegist r then Inl (ExplicitPanic ''can not retist rpc handler now'')
      else if rpcs r name \<noteq> None then Inl (ExplicitPanic (''RegistRpcHandler '' @ name @ '' repeat !!!''))
      else Inr (GenClientAccess hs name gen (r\<lparr>rpcs := (rpcs r)(name \<mapsto> gen)\<rparr>)))"

definition RegistRpcHandlerForce :: "('h, 'w) handlers \<Rightarrow> string \<Rightarrow> 'h \<Rightarrow> 'h SimpleRpcMgr \<Rightarrow> 'h SimpleRpcMgr res" where
  "RegistRpcHandlerForce hs name gen r =
     (if stopRegist r then Inl (ExplicitPanic ''can not retist rpc handler now'')
      else Inr (GenClientAccess hs name gen (r\<lparr>rpcs := (rpcs r)(name \<mapsto> gen)\<rparr>)))"

definition StopRcpHandlerRegist :: "'h SimpleRpcMgr \<Rightarrow> 'h SimpleRpcMgr" where
  "StopRcpHandlerRegist r = r\<lparr>stopRegist := True\<rparr>"

definition GetRpcHanderGenerator :: "string \<Rightarrow> 'h SimpleRpcMgr \<Rightarrow> 'h option" where
  "GetRpcHanderGenerator name r = rpcs r name"

text \<open>A sequence of registrations, as \<open>CreateSimpleRpcMgr\<close> and the \<open>main\<close> functions perform them.\<close>

fun regist_all :: "('h, 'w) handlers \<Rightarrow> (string \<times> 'h) list \<Rightarrow> 'h SimpleRpcMgr \<Rightarrow> 'h SimpleRpcMgr res" where
  "regist_all hs [] r = Inr r"
| "regist_all hs ((n, g) # gs) r = res_bind (RegistRpcHandler hs n g r) (regist_all hs gs)"

section \<open>Dispatch\<close>

definition PreCheck :: "session \<Rightarrow> string \<Rightarrow> ('h, 'b) world_scheme \<Rightarrow> bool res \<times> ('h, 'b) world_scheme" where
  "PreCheck session rpcName w =
     (if rpcName = MSG_C2G_VERTIFY then (Inr True, w)
      else if styp session \<noteq> SessionTcpClient then (Inr True, w)
      else case GetTcpClient (GetConnID (sconn session)) w of
          None \<Rightarrow> (Inl NilDeref, w)
        | Some tcpClient \<Rightarrow>
            if state tcpClient \<noteq> TcpClientState_OK
            then (Inr False, SetState (GetConnID (sconn session)) TcpClientState_EXIT w)
            else (Inr True, w))"

definition IsSync :: "string \<Rightarrow> bool" where
  "IsSync rpcName \<longleftrightarrow>
     rpcName = MSG_C2G_VERTIFY \<or> rpcName = MSG_GATE_LOGIN \<or> rpcName = MSG_G2S_RPC_CALL_ORDERED"

text \<open>The loop over the fields of the request struct: decode each at its type, stop at the first error.\<close>

fun decode_fields :: "msgpack \<Rightarrow> (string \<times> gty) list \<Rightarrow> bytes \<Rightarrow> (string \<times> gty \<times> string) + gval list" where
  "decode_fields mp [] bs = Inr []"
| "decode_fields mp ((n, t) # fs) bs =
     (case dec mp t bs of
        (v, Some err, _) \<Rightarrow> Inl (n, t, err)
      | (v, None, rest) \<Rightarrow>
          (case decode_fields mp fs rest of Inl e \<Rightarrow> Inl e | Inr vs \<Rightarrow> Inr (v # vs)))"

definition decode_name :: "msgpack \<Rightarrow> bytes \<Rightarrow> string \<times> bytes" where
  "decode_name mp buf = (case dec mp TString buf of (v, _, rest) \<Rightarrow> (as_str v, rest))"

definition run_task ::
  "msgpack \<Rightarrow> ('h, ('h, 'b) world_scheme) handlers \<Rightarrow> task \<Rightarrow> ('h, 'b) world_scheme \<Rightarrow> unit res \<times> ('h, 'b) world_scheme" where
  "run_task mp hs t w =
     (case GetRpcHanderGenerator (tName t) (rpcMgr w) of
        None \<Rightarrow> (Inr (), w)
      | Some h \<Rightarrow>
          (case (case GetReqPtr hs h of None \<Rightarrow> Inr [] | Some fs \<Rightarrow> decode_fields mp fs (tArgs t)) of
             Inl _ \<Rightarrow> (Inr (), w)
           | Inr args \<Rightarrow>
               (case Process hs h args (tSession t) w of
                  (Some e, _, w') \<Rightarrow> (Inl e, w')
                | (None, _, w') \<Rightarrow> (Inr (), w'))))"

definition RpcDecode ::
  "msgpack \<Rightarrow> ('h, ('h, 'b) world_scheme) handlers \<Rightarrow> session \<Rightarrow> bytes \<Rightarrow> ('h, 'b) world_scheme \<Rightarrow> unit res \<times> ('h, 'b) world_scheme" where
  "RpcDecode mp hs session buf w =
     (case decode_name mp buf of
        (rpcName, args) \<Rightarrow>
          let t = \<lparr>tSession = session, tName = rpcName, tArgs = args\<rparr> in
          (case PreCheck session rpcName w of
             (Inl e, w1) \<Rightarrow> (Inl e, w1)
           | (Inr False, w1) \<Rightarrow> (Inr (), w1)
           | (Inr True, w1) \<Rightarrow>
               if rpcName = MSG_C2G_VERTIFY \<or> rpcName = MSG_GATE_LOGIN then run_task mp hs t w1
               else if rpcName = MSG_G2S_RPC_CALL_ORDERED
               then (Inr (), w1\<lparr>gTaskPool := ProduceTaskSeparate t (gTaskPool w1)\<rparr>)
               else (Inr (), w1\<lparr>gTaskPool := ProduceTask t (gTaskPool w1)\<rparr>)))"

text \<open>\<open>RpcDecode\<close> as the state transformer that the framing layer runs on each packet.\<close>

definition packet_handler ::
  "msgpack \<Rightarrow> ('h, ('h, 'b) world_scheme) handlers \<Rightarrow> session \<Rightarrow> bytes \<Rightarrow> ('h, 'b) world_scheme \<Rightarrow> ('h, 'b) world_scheme res" where
  "packet_handler mp hs session buf w =
     (case RpcDecode mp hs session buf w of (Inl e, _) \<Rightarrow> Inl e | (Inr _, w') \<Rightarrow> Inr w')"

section \<open>Lemmas\<close>

lemma decode_name_RpcEncode:
  assumes "codec_ok mp" "length name < 2 ^ 32"
  shows "decode_name mp (RpcEncode mp name args) = (name, concat (map (\<lambda>arg. fst (enc mp arg)) args))"
  using codec_roundtrip [OF assms(1), of "VStr name" TString] assms(2)
  by (simp add: decode_name_def RpcEncode_def)

lemma decode_fields_args:
  assumes "codec_ok mp" "list_all2 has_type args (map snd fs)"
  shows "decode_fields mp fs (concat (map (\<lambda>arg. fst (enc mp arg)) args) @ rest) = Inr args"
  using assms(2)
proof (induction fs arbitrary: args)
  case (Cons f fs)
  then obtain v vs where "args = v # vs" "has_type v (snd f)" "list_all2 has_type vs (map snd fs)"
    by (auto simp: list_all2_Cons2)
  then show ?case
    using Cons.IH [of vs] codec_roundtrip [OF assms(1), of v "snd f"] by (cases f) simp
qed simp

lemma GenClientAccess_simps [simp]:
  "rpcs (GenClientAccess hs n g r) = rpcs r" "stopRegist (GenClientAccess hs n g r) = stopRegist r"
  "map_of (clientAccess (GenClientAccess hs n g r)) = (map_of (clientAccess r))(n \<mapsto> (ClientAccess hs g = Some True))"
  by (auto simp: GenClientAccess_def update_conv')

text \<open>The registry and the access table describe the same handlers.\<close>

definition registry_wf :: "('h, 'w) handlers \<Rightarrow> 'h SimpleRpcMgr \<Rightarrow> bool" where
  "registry_wf hs r \<longleftrightarrow>
     map_of (clientAccess r) = (\<lambda>n. map_option (\<lambda>h. ClientAccess hs h = Some True) (rpcs r n))
     \<and> distinct (map fst (clientAccess r))"

lemma registry_wf_empty [simp]: "registry_wf hs empty_rpcMgr"
  by (auto simp: registry_wf_def empty_rpcMgr_def)

lemma registry_wf_add:
  "registry_wf hs r \<Longrightarrow> registry_wf hs (GenClientAccess hs n g (r\<lparr>rpcs := (rpcs r)(n \<mapsto> g)\<rparr>))"
  by (auto simp: registry_wf_def GenClientAccess_def update_conv' distinct_update fun_eq_iff)

lemma regist_all_Inr:
  assumes "regist_all hs gs r = Inr r'"
  shows "rpcs r' = rpcs r ++ map_of gs \<and> distinct (map fst gs) \<and> fst ` set gs \<inter> dom (rpcs r) = {}
    \<and> (registry_wf hs r \<longrightarrow> registry_wf hs r') \<and> stopRegist r' = stopRegist r"
  using assms
proof (induction gs arbitrary: r)
  case (Cons x gs)
  obtain n g where x: "x = (n, g)" by (cases x)
  let ?r = "GenClientAccess hs n g (r\<lparr>rpcs := (rpcs r)(n \<mapsto> g)\<rparr>)"
  have fresh: "rpcs r n = None" and rest: "regist_all hs gs ?r = Inr r'"
    using Cons.prems by (auto simp: x RegistRpcHandler_def res_bind_Inr_iff split: if_splits)
  note IH = Cons.IH [OF rest]
  have n: "n \<notin> fst ` set gs" and d: "fst ` set gs \<inter> dom (rpcs r) = {}" using IH by auto
  have "rpcs r' = (rpcs r)(n \<mapsto> g) ++ map_of gs" using IH by (simp add: fun_upd_def)
  also have "\<dots> = rpcs r ++ map_of (x # gs)"
    using n [folded map_of_eq_None_iff] by (auto simp: x fun_eq_iff map_add_def split: option.splits)
  finally have "rpcs r' = rpcs r ++ map_of (x # gs)" .
  moreover have "distinct (map fst (x # gs))" using IH n by (simp add: x)
  moreover have "fst ` set (x # gs) \<inter> dom (rpcs r) = {}" using d fresh by (auto simp: x)
  moreover have "registry_wf hs r \<longrightarrow> registry_wf hs r'" "stopRegist r' = stopRegist r"
    using IH registry_wf_add [of hs r n g] by simp_all
  ultimately show ?case by blast
qed simp

lemma regist_all_total:
  assumes "distinct (map fst gs)" "fst ` set gs \<inter> dom (rpcs r) = {}" "\<not> stopRegist r"
  shows "\<exists>r'. regist_all hs gs r = Inr r'"
  using assms
proof (induction gs arbitrary: r)
  case (Cons x gs)
  obtain n g where x: "x = (n, g)" by (cases x)
  let ?r = "GenClientAccess hs n g (r\<lparr>rpcs := (rpcs r)(n \<mapsto> g)\<rparr>)"
  have "n \<notin> fst ` set gs" "fst ` set gs \<inter> dom (rpcs r) = {}" using Cons.prems(1,2) by (auto simp: x)
  then have d: "fst ` set gs \<inter> dom (rpcs ?r) = {}" by (auto split: if_splits)
  have "\<exists>r'. regist_all hs gs ?r = Inr r'" using Cons.prems(1,3) by (intro Cons.IH [OF _ d]) simp_all
  moreover have "rpcs r n = None" using Cons.prems(2) by (auto simp: x)
  ultimately show ?case using Cons.prems(3) by (simp add: x RegistRpcHandler_def)
qed simp

end
