(* ===== verification/Remote_Mgr.thy ===== *)
theory Remote_Mgr
  imports Simple_Rpc
begin

text \<open>
  \<open>ms_framework/msf_remote_mgr.go\<close> without its read loop: the connections of a gate to the services it discovered,
  one load balancer per service name, and the cache that pins the ordered requests of a client to one instance.
  \<open>dial\<close> is what \<open>net.DialTimeout\<close> does on each attempt (true when it connects); a new connection is
  named by the address it was dialled with.
\<close>

section \<open>Operations\<close>

text \<open>\<open>ConnectRemote\<close> after a successful dial, under the lock. The result is the new manager; the new
  connection is closed again when the address is already connected.\<close>

definition ConnectRemote :: "string \<Rightarrow> string \<Rightarrow> string \<Rightarrow> u32 \<Rightarrow> int \<Rightarrow> RemoteMgr \<Rightarrow> RemoteMgr" where
  "ConnectRemote namespace svrName i p t m =
     (let connID = GenConnIDByIPPort i p in
      if remotes m connID \<noteq> None then m
      else let rid = GetRemoteID namespace svrName;
               m1 = (if lbs m rid = None then m\<lparr>lbs := (lbs m)(rid \<mapsto> new_LoadBalancer)\<rparr> else m)
        in case AddElement (the (lbs m1 rid)) connID of
             (ok, lb) \<Rightarrow>
               let m2 = m1\<lparr>lbs := (lbs m1)(rid \<mapsto> lb)\<rparr> in
               if \<not> ok then m2
               else m2\<lparr>remotes := (remotes m2)(connID \<mapsto>
                      \<lparr>remoteId = rid, rconn = connID, rrecv = new_recv, rlastActiveTime = t\<rparr>)\<rparr>)"

text \<open>The retry loop of \<open>OnRemoteDiscover\<close>: at most five dials.\<close>

fun connect_retry ::
  "nat \<Rightarrow> (nat \<Rightarrow> bool) \<Rightarrow> string \<Rightarrow> string \<Rightarrow> string \<Rightarrow> u32 \<Rightarrow> int \<Rightarrow> RemoteMgr \<Rightarrow> RemoteMgr" where
  "connect_retry 0 dial namespace svrName i p t m = m"
| "connect_retry (Suc retryCnt) dial namespace svrName i p t m =
     (if dial (Suc retryCnt) then ConnectRemote namespace svrName i p t m
      else connect_retry retryCnt dial namespace svrName i p t m)"

definition OnRemoteDiscover ::
  "(nat \<Rightarrow> bool) \<Rightarrow> string \<Rightarrow> string \<Rightarrow> string \<Rightarrow> u32 \<Rightarrow> int \<Rightarrow> RemoteMgr \<Rightarrow> RemoteMgr" where
  "OnRemoteDiscover dial namespace svrName i p t m =
     (if remotes m (GenConnIDByIPPort i p) \<noteq> None then m
      else connect_retry 5 dial namespace svrName i p t m)"

text \<open>A missing load balancer is a nil pointer, on which \<open>DelElement\<close> panics.\<close>

definition OnRemoteDisappear :: "REMOTE_ID \<Rightarrow> CONN_ID \<Rightarrow> RemoteMgr \<Rightarrow> RemoteMgr res" where
  "OnRemoteDisappear rid connID m =
     (if remotes m connID = None then Inr m
      else let m1 = m\<lparr>remotes := (remotes m)(connID := None)\<rparr> in
        case lbs m1 rid of
          None \<Rightarrow> Inl NilDeref
        | Some lb \<Rightarrow> Inr (m1\<lparr>lbs := (lbs m1)(rid \<mapsto> snd (DelElement lb connID))\<rparr>))"

definition ChioceRemoteFromOrderCache :: "REMOTE_ID \<Rightarrow> CONN_ID \<Rightarrow> RemoteMgr \<Rightarrow> Remote option \<times> RemoteMgr" where
  "ChioceRemoteFromOrderCache rid clientID m =
     (case orderedCache m clientID of
        None \<Rightarrow> (None, m)
      | Some cache \<Rightarrow>
          (case cache rid of
             None \<Rightarrow> (None, m)
           | Some connID \<Rightarrow>
               (case remotes m connID of
                  None \<Rightarrow> (None, m\<lparr>orderedCache := (orderedCache m)(clientID \<mapsto> cache(rid := None))\<rparr>)
                | Some remote \<Rightarrow> (Some remote, m))))"

definition UpdateRemoteOrderCache :: "REMOTE_ID \<Rightarrow> CONN_ID \<Rightarrow> CONN_ID \<Rightarrow> RemoteMgr \<Rightarrow> RemoteMgr" where
  "UpdateRemoteOrderCache rid clientID connID m =
     (let cache = (case orderedCache m clientID of None \<Rightarrow> Map.empty | Some c \<Rightarrow> c)
      in m\<lparr>orderedCache := (orderedCache m)(clientID \<mapsto> cache(rid \<mapsto> connID))\<rparr>)"

definition DelRemoteOrderCache :: "CONN_ID \<Rightarrow> RemoteMgr \<Rightarrow> RemoteMgr" where
  "DelRemoteOrderCache clientID m = m\<lparr>orderedCache := (orderedCache m)(clientID := None)\<rparr>"

definition ChoiceRemote :: "(nat \<Rightarrow> nat) \<Rightarrow> REMOTE_ID \<Rightarrow> bool \<Rightarrow> CONN_ID \<Rightarrow> RemoteMgr \<Rightarrow> Remote option res \<times> RemoteMgr" where
  "ChoiceRemote intn rid isOrdered clientID m =
     (case (if isOrdered then ChioceRemoteFromOrderCache rid clientID m else (None, m)) of
        (Some remote, m1) \<Rightarrow> (Inr (Some remote), m1)
      | (None, m1) \<Rightarrow>
          (case lbs m1 rid of
             None \<Rightarrow> (Inr None, m1)
           | Some lb \<Rightarrow>
               (case LoadBalance BALANCE_STRATEGY intn lb of
                  Inl e \<Rightarrow> (Inl e, m1)
                | Inr (connID, lb') \<Rightarrow>
                    let m2 = m1\<lparr>lbs := (lbs m1)(rid \<mapsto> lb')\<rparr>;
                        remote = remotes m2 connID
                    in (Inr remote,
                        if isOrdered \<and> remote \<noteq> None then UpdateRemoteOrderCache rid clientID connID m2 else m2))))"

section \<open>Invariant\<close>

text \<open>
  A connection is stored under its own address with an empty or valid buffer, and is a member of the load balancer of
  its service; every member of a load balancer is a connection of that service.
\<close>

definition remote_inv :: "RemoteMgr \<Rightarrow> bool" where
  "remote_inv m \<longleftrightarrow>
     (\<forall>c r. remotes m c = Some r \<longrightarrow> rconn r = c \<and> recv_wf (rrecv r))
     \<and> (\<forall>rid lb. lbs m rid = Some lb \<longrightarrow> lb_wf lb \<and> [] \<notin> keys lb)
     \<and> (\<forall>c rid. (\<exists>r. remotes m c = Some r \<and> remoteId r = rid) \<longleftrightarrow> (\<exists>lb. lbs m rid = Some lb \<and> c \<in> keys lb))"

lemma remote_invD:
  assumes "remote_inv m"
  shows "remotes m c = Some r \<Longrightarrow> rconn r = c"
    and "remotes m c = Some r \<Longrightarrow> recv_wf (rrecv r)"
    and "lbs m rid = Some lb \<Longrightarrow> lb_wf lb"
    and "lbs m rid = Some lb \<Longrightarrow> [] \<notin> keys lb"
    and "remotes m c = Some r \<Longrightarrow> \<exists>lb. lbs m (remoteId r) = Some lb \<and> c \<in> keys lb"
    and "lbs m rid = Some lb \<Longrightarrow> c \<in> keys lb \<Longrightarrow> \<exists>r. remotes m c = Some r \<and> remoteId r = rid"
  using assms unfolding remote_inv_def by blast+

lemma remote_inv_create [simp]: "remote_inv CreateRemoteMgr"
  by (simp add: remote_inv_def CreateRemoteMgr_def)

lemma GenConnIDByIPPort_not_Nil [simp]: "GenConnIDByIPPort i p \<noteq> []"
  by (simp add: GenConnIDByIPPort_def)

text \<open>\<open>AddElement\<close> succeeds for an address that is not connected.\<close>

lemma ConnectRemote_new:
  fixes ns svc :: string
  assumes "remote_inv m" "remotes m (GenConnIDByIPPort i p) = None"
  defines "c \<equiv> GenConnIDByIPPort i p" and "rid \<equiv> GetRemoteID ns svc"
  defines "lb \<equiv> (case lbs m rid of None \<Rightarrow> new_LoadBalancer | Some l \<Rightarrow> l)"
  shows "ConnectRemote ns svc i p t m =
    m\<lparr>lbs := (lbs m)(rid \<mapsto> snd (AddElement lb c)),
      remotes := (remotes m)(c \<mapsto> \<lparr>remoteId = rid, rconn = c, rrecv = new_recv, rlastActiveTime = t\<rparr>)\<rparr>"
    and "lb_wf lb \<and> [] \<notin> keys lb \<and> c \<notin> keys lb"
proof -
  have c: "c \<notin> keys lb"
    using assms(2) remote_invD(6) [OF assms(1), of rid _ c] by (fastforce simp: lb_def c_def split: option.splits)
  then have ok: "fst (AddElement lb c)" by (simp add: AddElement_fst)
  show "ConnectRemote ns svc i p t m =
    m\<lparr>lbs := (lbs m)(rid \<mapsto> snd (AddElement lb c)),
      remotes := (remotes m)(c \<mapsto> \<lparr>remoteId = rid, rconn = c, rrecv = new_recv, rlastActiveTime = t\<rparr>)\<rparr>"
    using ok assms(2)
    by (cases "lbs m rid"; cases "AddElement lb c")
      (simp_all add: ConnectRemote_def lb_def c_def rid_def Let_def)
  show "lb_wf lb \<and> [] \<notin> keys lb \<and> c \<notin> keys lb"
    using c remote_invD(3,4) [OF assms(1)] by (auto simp: lb_def split: option.splits)
qed

lemma remote_inv_ConnectRemote [inv_intros]:
  assumes "remote_inv m"
  shows "remote_inv (ConnectRemote ns svc i p t m)"
proof (cases "remotes m (GenConnIDByIPPort i p)")
  case None
  note N = ConnectRemote_new [OF assms None, of ns svc]
  let ?c = "GenConnIDByIPPort i p" and ?rid = "GetRemoteID ns svc"
  let ?lb = "case lbs m ?rid of None \<Rightarrow> new_LoadBalancer | Some l \<Rightarrow> l"
  let ?m = "m\<lparr>lbs := (lbs m)(?rid \<mapsto> snd (AddElement ?lb ?c)),
      remotes := (remotes m)(?c \<mapsto> \<lparr>remoteId = ?rid, rconn = ?c, rrecv = new_recv, rlastActiveTime = t\<rparr>)\<rparr>"
  have mem: "(\<exists>l. lbs ?m r2 = Some l \<and> d \<in> keys l) \<longleftrightarrow> (r2 = ?rid \<and> d = ?c) \<or> (\<exists>l. lbs m r2 = Some l \<and> d \<in> keys l)" for r2 d
    by (auto split: option.splits)
  show ?thesis
    unfolding N(1) remote_inv_def mem
  proof (intro conjI allI impI)
    fix d r2
    have no: "\<not> (\<exists>lb. lbs m r2 = Some lb \<and> ?c \<in> keys lb)" using remote_invD(6) [OF assms, of r2 _ ?c] None by force
    show "(\<exists>r. remotes ?m d = Some r \<and> remoteId r = r2) \<longleftrightarrow>
        (r2 = ?rid \<and> d = ?c) \<or> (\<exists>lb. lbs m r2 = Some lb \<and> d \<in> keys lb)"
      using assms no by (cases "d = ?c") (auto simp: remote_inv_def)
  qed (use remote_invD(1-4) [OF assms] N(2) in \<open>auto simp: lb_wf_AddElement GenConnIDByIPPort_not_Nil [symmetric] split: if_splits\<close>)
next
  case (Some r)
  then show ?thesis using assms by (simp add: ConnectRemote_def)
qed

lemma remote_inv_connect_retry [inv_intros]:
  "remote_inv m \<Longrightarrow> remote_inv (connect_retry n dial ns svc i p t m)"
  by (induction n) (auto intro: inv_intros)

lemma remote_inv_OnRemoteDiscover [inv_intros]:
  "remote_inv m \<Longrightarrow> remote_inv (OnRemoteDiscover dial ns svc i p t m)"
  by (simp add: OnRemoteDiscover_def inv_intros)

text \<open>A disappearance reported under the service the connection belongs to.\<close>

lemma OnRemoteDisappear_ok:
  assumes "remote_inv m" "\<And>r. remotes m c = Some r \<Longrightarrow> remoteId r = rid"
  shows "\<exists>m'. OnRemoteDisappear rid c m = Inr m' \<and> remote_inv m' \<and> remotes m' = (remotes m)(c := None)
    \<and> orderedCache m' = orderedCache m"
proof (cases "remotes m c")
  case None
  then have "remotes m = (remotes m)(c := None)" by auto
  with None assms(1) show ?thesis by (simp add: OnRemoteDisappear_def)
next
  case (Some r)
  then have rid: "remoteId r = rid" by (rule assms(2))
  obtain lb where lb: "lbs m rid = Some lb" "c \<in> keys lb" using remote_invD(5) [OF assms(1) Some] rid by auto
  let ?m = "m\<lparr>remotes := (remotes m)(c := None), lbs := (lbs m)(rid \<mapsto> snd (DelElement lb c))\<rparr>"
  have only: "lbs m r2 = Some l2 \<Longrightarrow> c \<in> keys l2 \<Longrightarrow> r2 = rid" for r2 l2
    using remote_invD(6) [OF assms(1), of r2 l2 c] Some rid by auto
  have mem: "(\<exists>l. lbs ?m r2 = Some l \<and> d \<in> keys l) \<longleftrightarrow> d \<noteq> c \<and> (\<exists>l. lbs m r2 = Some l \<and> d \<in> keys l)" for r2 d
    using lb only [of r2] by (cases "r2 = rid") auto
  have "remote_inv ?m"
    unfolding remote_inv_def mem
  proof (intro conjI allI impI)
    fix d r2 show "(\<exists>r. remotes ?m d = Some r \<and> remoteId r = r2) \<longleftrightarrow> d \<noteq> c \<and> (\<exists>l. lbs m r2 = Some l \<and> d \<in> keys l)"
      using assms(1) by (auto simp: remote_inv_def)
  qed (use remote_invD(1-4) [OF assms(1)] lb in \<open>auto simp: lb_wf_DelElement split: if_splits\<close>)
  moreover have "OnRemoteDisappear rid c m = Inr ?m" using Some lb by (simp add: OnRemoteDisappear_def Let_def)
  ultimately show ?thesis by auto
qed

text \<open>A balancer picks a member, so a pick is a live connection of the requested service.\<close>

lemma pick_remote:
  assumes "remote_inv m" "lbs m rid = Some lb"
  obtains c lb' where "LoadBalance BALANCE_STRATEGY intn lb = Inr (c, lb')" "keys lb' = keys lb" "lb_wf lb'"
    "keys lb = {} \<Longrightarrow> remotes m c = None"
    "keys lb \<noteq> {} \<Longrightarrow> c \<in> keys lb \<and> (\<exists>r. remotes m c = Some r \<and> remoteId r = rid \<and> rconn r = c)"
proof -
  obtain c lb' where p: "LoadBalance BalanceStrategy_RoundRobin intn lb = Inr (c, lb')"
    using rr.pick_total by blast
  have f: "keys lb' = keys lb" "lb_wf lb'" using rr.pick_frame [OF p] remote_invD(3) [OF assms] by auto
  have e: "remotes m c = None" if "keys lb = {}"
  proof (rule ccontr)
    assume "remotes m c \<noteq> None"
    then obtain r where r: "remotes m c = Some r" by auto
    have "c = []" using rr.pick_empty [OF that, of intn] p by simp
    moreover obtain l where "lbs m (remoteId r) = Some l" "c \<in> keys l" using remote_invD(5) [OF assms(1) r] by auto
    ultimately show False using remote_invD(4) [OF assms(1)] by auto
  qed
  have m: "c \<in> keys lb \<and> (\<exists>r. remotes m c = Some r \<and> remoteId r = rid \<and> rconn r = c)" if "keys lb \<noteq> {}"
    using rr.pick_in_members [OF p that] remote_invD(1,6) [OF assms(1)] assms(2) by blast
  show thesis
    using that [of c lb'] p f e m by (simp add: BALANCE_STRATEGY_def)
qed

text \<open>The order cache changes neither the connections nor the balancers.\<close>

lemma remote_inv_orderedCache [simp]: "remote_inv (m\<lparr>orderedCache := x\<rparr>) = remote_inv m"
  by (simp add: remote_inv_def)

lemma remote_inv_UpdateRemoteOrderCache [simp]:
  "remote_inv (UpdateRemoteOrderCache rid k c m) = remote_inv m"
  by (simp add: UpdateRemoteOrderCache_def Let_def)

lemma remote_inv_DelRemoteOrderCache [simp]: "remote_inv (DelRemoteOrderCache c m) = remote_inv m"
  by (simp add: DelRemoteOrderCache_def)

lemma FromOrderCache_cases:
  obtains (hit) cache c r where "orderedCache m k = Some cache" "cache rid = Some c" "remotes m c = Some r"
      "ChioceRemoteFromOrderCache rid k m = (Some r, m)"
    | (miss) oc where "ChioceRemoteFromOrderCache rid k m = (None, m\<lparr>orderedCache := oc\<rparr>)"
proof -
  show thesis
  proof (cases "orderedCache m k")
    case None
    then show thesis by (intro miss [of "orderedCache m"]) (simp add: ChioceRemoteFromOrderCache_def)
  next
    case (Some cache)
    show thesis
    proof (cases "cache rid")
      case None
      with Some show thesis by (intro miss [of "orderedCache m"]) (simp add: ChioceRemoteFromOrderCache_def)
    next
      case (Some c)
      with \<open>orderedCache m k = Some cache\<close> show thesis
        using miss hit by (cases "remotes m c") (simp_all add: ChioceRemoteFromOrderCache_def)
    qed
  qed
qed

section \<open>The choice of a connection\<close>

text \<open>The entries of the order cache agree with the services of the connections.\<close>

definition cache_inv :: "RemoteMgr \<Rightarrow> bool" where
  "cache_inv m \<longleftrightarrow> (\<forall>k cache rid c r. orderedCache m k = Some cache \<longrightarrow> cache rid = Some c \<longrightarrow>
     remotes m c = Some r \<longrightarrow> remoteId r = rid)"

definition pinned :: "RemoteMgr \<Rightarrow> CONN_ID \<Rightarrow> REMOTE_ID \<Rightarrow> CONN_ID option" where
  "pinned m k rid = (case orderedCache m k of None \<Rightarrow> None | Some cache \<Rightarrow> cache rid)"

lemma pinned_Update [simp]:
  "pinned (UpdateRemoteOrderCache rid k c m) k2 rid2 = (if k2 = k \<and> rid2 = rid then Some c else pinned m k2 rid2)"
  by (simp add: pinned_def UpdateRemoteOrderCache_def Let_def split: option.splits)

lemma remotes_Update [simp]: "remotes (UpdateRemoteOrderCache rid k c m) = remotes m"
  by (simp add: UpdateRemoteOrderCache_def Let_def)

text \<open>The part of \<open>ChoiceRemote\<close> after a cache miss.\<close>

lemma ChoiceRemote_miss:
  assumes "remote_inv m" "lbs m1 = lbs m" "remotes m1 = remotes m"
    "(if ordered then ChioceRemoteFromOrderCache rid k m else (None, m)) = (None, m1)"
  shows "\<exists>res m'. ChoiceRemote intn rid ordered k m = (Inr res, m') \<and> remote_inv m' \<and> remotes m' = remotes m
    \<and> (res = None \<longleftrightarrow> (\<forall>c r. remotes m c = Some r \<longrightarrow> remoteId r \<noteq> rid))
    \<and> (\<forall>r. res = Some r \<longrightarrow> remotes m (rconn r) = Some r \<and> remoteId r = rid)
    \<and> (\<forall>k2 rid2. pinned m' k2 rid2 =
         (if ordered \<and> k2 = k \<and> rid2 = rid \<and> res \<noteq> None then Some (rconn (the res)) else pinned m1 k2 rid2))"
proof (cases "lbs m rid")
  case None
  have "remoteId r \<noteq> rid" if "remotes m c = Some r" for c r using remote_invD(5) [OF assms(1) that] None by auto
  moreover have "ChoiceRemote intn rid ordered k m = (Inr None, m1)"
    unfolding ChoiceRemote_def assms(4) using None assms(2) by simp
  moreover have "remote_inv m1" using assms(1-3) by (simp add: remote_inv_def)
  ultimately show ?thesis using assms(3) by auto
next
  case (Some lb)
  obtain c lb' where p: "LoadBalance BALANCE_STRATEGY intn lb = Inr (c, lb')" "keys lb' = keys lb" "lb_wf lb'"
    "keys lb = {} \<Longrightarrow> remotes m c = None"
    "keys lb \<noteq> {} \<Longrightarrow> c \<in> keys lb \<and> (\<exists>r. remotes m c = Some r \<and> remoteId r = rid \<and> rconn r = c)"
    using pick_remote [OF assms(1) Some] by blast
  define m2 where "m2 = m1\<lparr>lbs := (lbs m1)(rid \<mapsto> lb')\<rparr>"
  have mem: "(\<exists>l. lbs m2 r2 = Some l \<and> d \<in> keys l) \<longleftrightarrow> (\<exists>l. lbs m r2 = Some l \<and> d \<in> keys l)" for r2 d
    using Some p(2) assms(2) by (auto simp: m2_def)
  have inv2: "remote_inv m2"
    unfolding remote_inv_def mem
    using assms(1) p(2,3) Some assms(2,3) by (auto simp: remote_inv_def m2_def)
  have c: "ChoiceRemote intn rid ordered k m =
      (Inr (remotes m c), if ordered \<and> remotes m c \<noteq> None then UpdateRemoteOrderCache rid k c m2 else m2)"
    unfolding ChoiceRemote_def assms(4) using Some assms(2,3) p(1) by (auto simp: m2_def Let_def)
  have none: "remotes m c = None \<longleftrightarrow> (\<forall>d r. remotes m d = Some r \<longrightarrow> remoteId r \<noteq> rid)"
  proof (cases "keys lb = {}")
    case True
    then show ?thesis using p(4) remote_invD(5) [OF assms(1)] Some by fastforce
  next
    case False
    then show ?thesis using p(5) by auto
  qed
  have some: "rconn r = c \<and> remoteId r = rid" if "remotes m c = Some r" for r
    using p(4,5) that by (cases "keys lb = {}") auto
  have pin: "pinned m2 k2 rid2 = pinned m1 k2 rid2" for k2 rid2 by (simp add: m2_def pinned_def)
  let ?m = "if ordered \<and> remotes m c \<noteq> None then UpdateRemoteOrderCache rid k c m2 else m2"
  have keep: "remote_inv ?m" "remotes ?m = remotes m" using inv2 assms(3) by (simp_all add: m2_def)
  have pinned: "pinned ?m k2 rid2 = (if ordered \<and> k2 = k \<and> rid2 = rid \<and> remotes m c \<noteq> None
      then Some (rconn (the (remotes m c))) else pinned m1 k2 rid2)" for k2 rid2
    using some by (auto simp: pin)
  show ?thesis
    by (intro exI conjI allI impI, rule c, rule keep, rule keep, rule none)
      (use some in simp, use some in simp, rule pinned)
qed

lemma ChoiceRemote_unordered:
  assumes "remote_inv m"
  shows "\<exists>res m'. ChoiceRemote intn rid False k m = (Inr res, m') \<and> remote_inv m' \<and> remotes m' = remotes m
    \<and> (res = None \<longleftrightarrow> (\<forall>c r. remotes m c = Some r \<longrightarrow> remoteId r \<noteq> rid))
    \<and> (\<forall>r. res = Some r \<longrightarrow> remotes m (rconn r) = Some r \<and> remoteId r = rid)
    \<and> (\<forall>k2 rid2. pinned m' k2 rid2 = pinned m k2 rid2)"
  using ChoiceRemote_miss [OF assms refl refl, of False rid k intn] by auto

lemma ChoiceRemote_hit:
  assumes "pinned m k rid = Some c" "remotes m c = Some r"
  shows "ChoiceRemote intn rid True k m = (Inr (Some r), m)"
  using assms by (auto simp: pinned_def ChoiceRemote_def ChioceRemoteFromOrderCache_def split: option.splits)

lemma ChoiceRemote_ordered_miss:
  assumes "remote_inv m" "\<And>c. pinned m k rid = Some c \<Longrightarrow> remotes m c = None"
  shows "\<exists>res m'. ChoiceRemote intn rid True k m = (Inr res, m') \<and> remote_inv m' \<and> remotes m' = remotes m
    \<and> (res = None \<longleftrightarrow> (\<forall>c r. remotes m c = Some r \<longrightarrow> remoteId r \<noteq> rid))
    \<and> (\<forall>r. res = Some r \<longrightarrow> remotes m (rconn r) = Some r \<and> remoteId r = rid)
    \<and> (\<forall>k2 rid2. pinned m' k2 rid2 =
         (if k2 = k \<and> rid2 = rid then map_option rconn res else pinned m k2 rid2))"
proof -
  obtain m1 where m1: "ChioceRemoteFromOrderCache rid k m = (None, m1)" "lbs m1 = lbs m" "remotes m1 = remotes m"
    "pinned m1 = (\<lambda>k2 rid2. if k2 = k \<and> rid2 = rid then None else pinned m k2 rid2)"
    using assms(2) by (fastforce simp: ChioceRemoteFromOrderCache_def pinned_def fun_eq_iff split: option.splits)
  have "(if True then ChioceRemoteFromOrderCache rid k m else (None, m)) = (None, m1)" using m1(1) by simp
  from ChoiceRemote_miss [OF assms(1) m1(2,3) this, of intn] obtain res m' where
    *: "ChoiceRemote intn rid True k m = (Inr res, m')" "remote_inv m'" "remotes m' = remotes m"
    "res = None \<longleftrightarrow> (\<forall>c r. remotes m c = Some r \<longrightarrow> remoteId r \<noteq> rid)"
    "\<forall>r. res = Some r \<longrightarrow> remotes m (rconn r) = Some r \<and> remoteId r = rid"
    "\<forall>k2 rid2. pinned m' k2 rid2 =
         (if True \<and> k2 = k \<and> rid2 = rid \<and> res \<noteq> None then Some (rconn (the res)) else pinned m1 k2 rid2)"
    by blast
  have "pinned m' k2 rid2 = (if k2 = k \<and> rid2 = rid then map_option rconn res else pinned m k2 rid2)" for k2 rid2
    using *(6) m1(4) by (cases res) auto
  with *(1-5) show ?thesis by blast
qed

text \<open>Every choice keeps the invariant and the connections, and never re-pins a live pin.\<close>

lemma ChoiceRemote_keeps:
  assumes "remote_inv m"
  shows "\<exists>res m'. ChoiceRemote intn rid ordered k m = (Inr res, m') \<and> remote_inv m' \<and> remotes m' = remotes m
    \<and> (\<forall>k2 rid2 c. pinned m k2 rid2 = Some c \<longrightarrow> remotes m c \<noteq> None \<longrightarrow> pinned m' k2 rid2 = Some c)
    \<and> (ordered \<longrightarrow> (\<forall>r. res = Some r \<longrightarrow> pinned m' k rid = Some (rconn r) \<and> remotes m (rconn r) = Some r))"
proof (cases "ordered \<and> (\<exists>c r. pinned m k rid = Some c \<and> remotes m c = Some r)")
  case True
  then obtain c r where "ordered" "pinned m k rid = Some c" "remotes m c = Some r" by auto
  then show ?thesis using ChoiceRemote_hit [of m k rid c r intn] remote_invD(1) [OF assms] assms by auto
next
  case False
  show ?thesis
  proof (cases ordered)
    case True
    have miss: "pinned m k rid = Some c \<Longrightarrow> remotes m c = None" for c
      using False True by (cases "remotes m c") auto
    obtain res m' where "ChoiceRemote intn rid True k m = (Inr res, m')" "remote_inv m'" "remotes m' = remotes m"
      "\<forall>r. res = Some r \<longrightarrow> remotes m (rconn r) = Some r \<and> remoteId r = rid"
      "\<forall>k2 rid2. pinned m' k2 rid2 = (if k2 = k \<and> rid2 = rid then map_option rconn res else pinned m k2 rid2)"
      using ChoiceRemote_ordered_miss [where intn = intn, OF assms miss] by blast
    with True miss show ?thesis by (intro exI [of _ res] exI [of _ m']) auto
  next
    case ord: False
    obtain res m' where "ChoiceRemote intn rid False k m = (Inr res, m')" "remote_inv m'" "remotes m' = remotes m"
      "\<forall>k2 rid2. pinned m' k2 rid2 = pinned m k2 rid2"
      using ChoiceRemote_unordered [OF assms, of intn rid k] by blast
    with ord show ?thesis by (intro exI [of _ res] exI [of _ m']) auto
  qed
qed

section \<open>Properties\<close>

text \<open>A run of choices made by any clients for any services.\<close>

fun choice_run :: "(nat \<Rightarrow> nat) \<Rightarrow> (REMOTE_ID \<times> bool \<times> CONN_ID) list \<Rightarrow> RemoteMgr \<Rightarrow> RemoteMgr" where
  "choice_run intn [] m = m"
| "choice_run intn ((rid, ordered, k) # cs) m = choice_run intn cs (snd (ChoiceRemote intn rid ordered k m))"

lemma choice_run_keeps:
  assumes "remote_inv m"
  shows "remote_inv (choice_run intn cs m) \<and> remotes (choice_run intn cs m) = remotes m
    \<and> (\<forall>k rid c. pinned m k rid = Some c \<longrightarrow> remotes m c \<noteq> None \<longrightarrow> pinned (choice_run intn cs m) k rid = Some c)"
  using assms
proof (induction cs arbitrary: m)
  case (Cons x cs)
  obtain rid ordered k where x: "x = (rid, ordered, k)" by (cases x)
  obtain res m' where m': "ChoiceRemote intn rid ordered k m = (Inr res, m')" "remote_inv m'" "remotes m' = remotes m"
    "\<And>k2 rid2 c. pinned m k2 rid2 = Some c \<Longrightarrow> remotes m c \<noteq> None \<Longrightarrow> pinned m' k2 rid2 = Some c"
    using ChoiceRemote_keeps [OF Cons.prems, of intn rid ordered k] by blast
  have run: "choice_run intn (x # cs) m = choice_run intn cs m'" by (simp add: x m'(1))
  from Cons.IH [OF m'(2)] m'(3,4) show ?case unfolding run by metis
qed simp

text \<open>Property C17. The choice of a service instance is sound and complete: on a well-formed manager an unordered request
  never panics, gets a live connection that belongs to the requested \<open>namespace:service\<close>, and gets none exactly when no
  instance of that service is connected.\<close>

theorem choice_sound_complete:
  assumes "remote_inv m"
  shows "\<exists>res m'. ChoiceRemote intn rid False k m = (Inr res, m') \<and> remote_inv m' \<and> remotes m' = remotes m
    \<and> (res = None \<longleftrightarrow> (\<forall>c r. remotes m c = Some r \<longrightarrow> remoteId r \<noteq> rid))
    \<and> (\<forall>r. res = Some r \<longrightarrow> remotes m (rconn r) = Some r \<and> remoteId r = rid)"
  using ChoiceRemote_unordered [OF assms, of intn rid k] by blast

text \<open>Two instances of \<open>ServiceA\<close> and one of \<open>ServiceB\<close>, discovered in turn.\<close>

definition demo_remotes :: RemoteMgr where
  "demo_remotes =
     OnRemoteDiscover (\<lambda>n. n = 3) ''ns'' ''ServiceB'' ''10.0.0.3'' 80 0
       (OnRemoteDiscover (\<lambda>_. True) ''ns'' ''ServiceA'' ''10.0.0.2'' 80 0
         (OnRemoteDiscover (\<lambda>_. True) ''ns'' ''ServiceA'' ''10.0.0.1'' 80 0 CreateRemoteMgr))"

lemma demo_remotes_inv: "remote_inv demo_remotes"
  unfolding demo_remotes_def by (intro inv_intros remote_inv_create)

lemma connect_retry_numeral [simp]:
  "connect_retry (numeral v) dial ns svc i p t m =
     (if dial (numeral v) then ConnectRemote ns svc i p t m else connect_retry (pred_numeral v) dial ns svc i p t m)"
  by (simp add: numeral_eq_Suc)

lemma demo_addrs:
  "GenConnIDByIPPort ''10.0.0.1'' 80 = ''10.0.0.1:80''" "GenConnIDByIPPort ''10.0.0.2'' 80 = ''10.0.0.2:80''"
  "GenConnIDByIPPort ''10.0.0.3'' 80 = ''10.0.0.3:80''"
  "GetRemoteID ''ns'' ''ServiceA'' = ''ns:ServiceA''" "GetRemoteID ''ns'' ''ServiceB'' = ''ns:ServiceB''"
  by code_simp+

lemmas discover_defs = OnRemoteDiscover_def ConnectRemote_def CreateRemoteMgr_def Let_def demo_addrs
  AddElement_def new_LoadBalancer_def elems_def

lemma demo_remotes_map:
  "map_option remoteId (remotes demo_remotes ''10.0.0.1:80'') = Some ''ns:ServiceA''"
  "map_option remoteId (remotes demo_remotes ''10.0.0.3:80'') = Some ''ns:ServiceB''"
  "orderedCache demo_remotes = Map.empty"
  by (simp_all add: demo_remotes_def discover_defs)

theorem choice_sound_complete_witness:
  "\<exists>r m'. ChoiceRemote id ''ns:ServiceB'' False ''c'' demo_remotes = (Inr (Some r), m') \<and> remoteId r = ''ns:ServiceB''"
proof -
  obtain res m' where r: "ChoiceRemote id ''ns:ServiceB'' False ''c'' demo_remotes = (Inr res, m')"
    "res = None \<longleftrightarrow> (\<forall>c r. remotes demo_remotes c = Some r \<longrightarrow> remoteId r \<noteq> ''ns:ServiceB'')"
    "\<And>r. res = Some r \<Longrightarrow> remoteId r = ''ns:ServiceB''"
    using choice_sound_complete [OF demo_remotes_inv, of id "''ns:ServiceB''" "''c''"] by blast
  have "res \<noteq> None" using r(2) demo_remotes_map(2) by auto
  with r show ?thesis by auto
qed

text \<open>Property C18. Ordered requests stick to one instance: once an ordered request of client \<open>k\<close> for a service got a connection,
  every later ordered request of \<open>k\<close> for that service gets the same one, whatever other choices are made in between,
  as long as that connection lives.\<close>

theorem ordered_choice_sticky:
  assumes "remote_inv m" "ChoiceRemote intn rid True k m = (Inr (Some r), m1)"
  shows "fst (ChoiceRemote intn rid True k (choice_run intn cs m1)) = Inr (Some r)"
proof -
  have m1: "remote_inv m1" "remotes m1 = remotes m" "pinned m1 k rid = Some (rconn r)" "remotes m (rconn r) = Some r"
    using ChoiceRemote_keeps [OF assms(1), of intn rid True k] assms(2) by auto
  have "pinned (choice_run intn cs m1) k rid = Some (rconn r)" "remotes (choice_run intn cs m1) (rconn r) = Some r"
    using choice_run_keeps [OF m1(1), of intn cs] m1(2-4) by auto
  from ChoiceRemote_hit [OF this] show ?thesis by simp
qed

theorem ordered_choice_sticky_witness:
  "\<exists>r m1. ChoiceRemote id ''ns:ServiceA'' True ''c'' demo_remotes = (Inr (Some r), m1)
     \<and> fst (ChoiceRemote id ''ns:ServiceA'' True ''c'' (choice_run id [(''ns:ServiceA'', False, ''d'')] m1)) = Inr (Some r)"
proof -
  have "pinned demo_remotes ''c'' rid = None" for rid
    by (simp add: pinned_def demo_remotes_map)
  then obtain res m1 where r: "ChoiceRemote id ''ns:ServiceA'' True ''c'' demo_remotes = (Inr res, m1)"
    "res = None \<longleftrightarrow> (\<forall>c r. remotes demo_remotes c = Some r \<longrightarrow> remoteId r \<noteq> ''ns:ServiceA'')"
    using ChoiceRemote_ordered_miss [OF demo_remotes_inv, of "''c''" "''ns:ServiceA''" id] by auto
  have "res \<noteq> None" using r(2) demo_remotes_map(1) by auto
  then obtain r where "ChoiceRemote id ''ns:ServiceA'' True ''c'' demo_remotes = (Inr (Some r), m1)" using r(1) by auto
  with ordered_choice_sticky [OF demo_remotes_inv this] show ?thesis by blast
qed



end
