(* ===== verification/Default_Handlers.thy ===== *)
theory Default_Handlers
  imports Simple_Rpc
begin

text \<open>
  The handlers every process registers (\<open>ms_framework/msf_default_rpc_handler.go\<close>): the service side of an rpc
  call, the response to a call and the heart beats, and the registry that \<open>CreateSimpleRpcMgr\<close> builds.
\<close>

section \<open>Handlers\<close>

definition RpcG2SRpcCallReq :: "(string \<times> gty) list" where
  "RpcG2SRpcCallReq = [(''GRid'', TUint32), (''InnerRpc'', TBytes)]"

definition RpcG2CRpcRspReq :: "(string \<times> gty) list" where
  "RpcG2CRpcRspReq = [(''Rid'', TUint32), (''Error'', TString), (''Reply'', TMap)]"

fun type_name :: "gty \<Rightarrow> string" where
  "type_name TString = ''*string''"
| "type_name TBytes = ''*[]uint8''"
| "type_name TBool = ''*bool''"
| "type_name TUint32 = ''*uint32''"
| "type_name TInt32 = ''*int32''"
| "type_name TInt = ''*int''"
| "type_name TFloat32 = ''*float32''"
| "type_name TInt32List = ''*[]int32''"
| "type_name TMap = ''*map[string]interface {}''"
| "type_name TBoolMap = ''*map[string]bool''"

text \<open>\<open>doProcessWithPanicProtect\<close>: a panic of the inner handler is recovered, its effects so far remain.\<close>

definition doProcessWithPanicProtect ::
  "('h, 'w) handlers \<Rightarrow> 'h \<Rightarrow> gval list \<Rightarrow> session \<Rightarrow> 'w \<Rightarrow> (string \<times> gval) list option res \<times> 'w" where
  "doProcessWithPanicProtect hs h args session w =
     (case Process hs h args session w of
        (Some Hang, _, w') \<Rightarrow> (Inl Hang, w')
      | (_, rsp, w') \<Rightarrow> (Inr rsp, w'))"

definition rpcHandle ::
  "msgpack \<Rightarrow> ('h, ('h, 'b) world_scheme) handlers \<Rightarrow> u32 \<Rightarrow> bytes \<Rightarrow> session \<Rightarrow> ('h, 'b) world_scheme \<Rightarrow>
     (string \<times> gval) res \<times> ('h, 'b) world_scheme" where
  "rpcHandle mp hs grid innerRpc session w =
     (case decode_name mp innerRpc of
        (rpcName, rest) \<Rightarrow>
          (case GetRpcHanderGenerator rpcName (rpcMgr w) of
             None \<Rightarrow> (Inr (''rpc '' @ rpcName @ '' not exist'', VNil), w)
           | Some h \<Rightarrow>
               (case (case GetReqPtr hs h of None \<Rightarrow> Inr [] | Some fs \<Rightarrow> decode_fields mp fs rest) of
                  Inl (n, t, err) \<Rightarrow>
                    (Inr (''rpc '' @ rpcName @ '' arg '' @ n @ ''('' @ type_name t @ '') decode error: '' @ err, VNil), w)
                | Inr args \<Rightarrow>
                    (case doProcessWithPanicProtect hs h args session w of
                       (Inl e, w') \<Rightarrow> (Inl e, w')
                     | (Inr rsp, w') \<Rightarrow>
                         if grid \<noteq> 0
                         then (case rsp of
                                 None \<Rightarrow> (Inr (''rpc '' @ rpcName @ '' need response but get nil'', VNil), w')
                               | Some stMap \<Rightarrow> (Inr (GetResponseErr session w', VMap stMap), w'))
                         else (Inr ([], VNil), w')))))"

text \<open>The result of a handler that has no response struct.\<close>

definition no_rsp :: "'a res \<times> 'w \<Rightarrow> 'w proc" where
  "no_rsp r = (case r of (Inl e, w) \<Rightarrow> (Some e, None, w) | (Inr _, w) \<Rightarrow> (None, None, w))"

definition RpcG2SRpcCall_Process ::
  "msgpack \<Rightarrow> ('h, ('h, 'b) world_scheme) handlers \<Rightarrow> gval list \<Rightarrow> session \<Rightarrow> ('h, 'b) world_scheme \<Rightarrow>
     ('h, 'b) world_scheme proc" where
  "RpcG2SRpcCall_Process mp hs req session w =
     (let grid = as_u32 (req ! 0); innerRpc = as_bytes (req ! 1) in
      case rpcHandle mp hs grid innerRpc session (RpcFvcCount w) of
        (Inl e, w1) \<Rightarrow> (Some e, None, w1)
      | (Inr (error, reply), w1) \<Rightarrow>
          if grid \<noteq> 0
          then no_rsp (rpc_send mp (Some (sconn session)) MSG_S2G_RPC_RSP [vu32 grid, VStr error, reply] w1)
          else (None, None, w1))"

definition RpcG2CRpcRsp_Process ::
  "gval list \<Rightarrow> session \<Rightarrow> ('h, 'b) world_scheme \<Rightarrow> ('h, 'b) world_scheme proc" where
  "RpcG2CRpcRsp_Process req session w =
     (case get_callback (as_u32 (req ! 0)) w of
        (None, w1) \<Rightarrow> (None, None, w1)
      | (Some cbs, w1) \<Rightarrow>
          (case cbs of
             [] \<Rightarrow> (Some IndexOutOfRange, None, w1)
           | AChan ch # _ \<Rightarrow> no_rsp (chan_send ch (RspReply (as_str (req ! 1)) (req ! 2)) w1)
           | _ # _ \<Rightarrow> (Some TypeAssertion, None, w1)))"

definition RpcHeartBeatReq_Process ::
  "msgpack \<Rightarrow> gval list \<Rightarrow> session \<Rightarrow> ('h, 'b) world_scheme \<Rightarrow> ('h, 'b) world_scheme proc" where
  "RpcHeartBeatReq_Process mp req session w =
     no_rsp (rpc_send mp (Some (sconn session)) MSG_HEART_BEAT_RSP [] w)"

definition RpcHeartBeatRsp_Process ::
  "gval list \<Rightarrow> session \<Rightarrow> ('h, 'b) world_scheme \<Rightarrow> ('h, 'b) world_scheme proc" where
  "RpcHeartBeatRsp_Process req session w = (None, None, w)"

section \<open>Registration of the defaults\<close>

text \<open>The handler type of a process: the defaults, and the handlers \<open>'u\<close> of its own.\<close>

datatype 'u handler = H_G2SRpcCall | H_G2CRpcRsp | H_HeartBeatReq | H_HeartBeatRsp | H_User 'u

definition default_handlers :: "(string \<times> 'u handler) list" where
  "default_handlers =
     [(MSG_G2S_RPC_CALL, H_G2SRpcCall), (MSG_G2S_RPC_CALL_ORDERED, H_G2SRpcCall),
      (MSG_G2C_RPC_RSP, H_G2CRpcRsp),
      (MSG_HEART_BEAT_REQ, H_HeartBeatReq), (MSG_HEART_BEAT_RSP, H_HeartBeatRsp)]"

definition CreateSimpleRpcMgr :: "('u handler, 'w) handlers \<Rightarrow> 'u handler SimpleRpcMgr res" where
  "CreateSimpleRpcMgr hs = regist_all hs default_handlers empty_rpcMgr"

text \<open>
  The handler interface of a process whose own handlers are \<open>us\<close>. An rpc call runs a registered handler, which
  may again be the rpc call handler; \<open>n\<close> bounds that nesting (each level consumes one message inside the
  message, so the nesting is below the length of the packet).
\<close>

fun process_handlers ::
  "msgpack \<Rightarrow> ('u, ('u handler, 'b) world_scheme) handlers \<Rightarrow> nat \<Rightarrow>
     ('u handler, ('u handler, 'b) world_scheme) handlers" where
  "process_handlers mp us n =
     \<lparr>GetReqPtr = (\<lambda>h. case h of
          H_G2SRpcCall \<Rightarrow> Some RpcG2SRpcCallReq
        | H_G2CRpcRsp \<Rightarrow> Some RpcG2CRpcRspReq
        | H_HeartBeatReq \<Rightarrow> None
        | H_HeartBeatRsp \<Rightarrow> None
        | H_User u \<Rightarrow> GetReqPtr us u),
      ClientAccess = (\<lambda>h. case h of H_User u \<Rightarrow> ClientAccess us u | _ \<Rightarrow> None),
      Process = (\<lambda>h req session w. case h of
          H_G2SRpcCall \<Rightarrow>
            (case n of 0 \<Rightarrow> (Some Hang, None, w)
             | Suc m \<Rightarrow> RpcG2SRpcCall_Process mp (process_handlers mp us m) req session w)
        | H_G2CRpcRsp \<Rightarrow> RpcG2CRpcRsp_Process req session w
        | H_HeartBeatReq \<Rightarrow> RpcHeartBeatReq_Process mp req session w
        | H_HeartBeatRsp \<Rightarrow> RpcHeartBeatRsp_Process req session w
        | H_User u \<Rightarrow> Process us u req session w)\<rparr>"

declare process_handlers.simps [simp del]

lemma process_handlers_GetReqPtr [simp]:
  "GetReqPtr (process_handlers mp us n) h = (case h of
          H_G2SRpcCall \<Rightarrow> Some RpcG2SRpcCallReq
        | H_G2CRpcRsp \<Rightarrow> Some RpcG2CRpcRspReq
        | H_HeartBeatReq \<Rightarrow> None
        | H_HeartBeatRsp \<Rightarrow> None
        | H_User u \<Rightarrow> GetReqPtr us u)"
  by (subst process_handlers.simps) simp

lemma process_handlers_ClientAccess [simp]:
  "ClientAccess (process_handlers mp us n) h = (case h of H_User u \<Rightarrow> ClientAccess us u | _ \<Rightarrow> None)"
  by (subst process_handlers.simps) simp

lemma process_handlers_Process [simp]:
  "Process (process_handlers mp us (Suc n)) H_G2SRpcCall = RpcG2SRpcCall_Process mp (process_handlers mp us n)"
  "Process (process_handlers mp us n) H_G2CRpcRsp = RpcG2CRpcRsp_Process"
  "Process (process_handlers mp us n) H_HeartBeatReq = RpcHeartBeatReq_Process mp"
  "Process (process_handlers mp us n) H_HeartBeatRsp = RpcHeartBeatRsp_Process"
  "Process (process_handlers mp us n) (H_User u) = Process us u"
  by (subst process_handlers.simps, auto)+

section \<open>The registry of a started process\<close>

text \<open>The registrations of a \<open>main\<close> function between \<open>Init\<close> and \<open>Start\<close>.\<close>

definition start_registry :: "('u handler, 'w) handlers \<Rightarrow> (string \<times> 'u handler) list \<Rightarrow> 'u handler SimpleRpcMgr res" where
  "start_registry hs regs =
     res_bind (CreateSimpleRpcMgr hs) (\<lambda>r. res_bind (regist_all hs regs r) (\<lambda>r1. Inr (StopRcpHandlerRegist r1)))"

lemma start_registry_ok:
  fixes regs :: "(string \<times> 'u handler) list"
  assumes "distinct (map fst regs)" "fst ` set regs \<inter> fst ` set (default_handlers :: (string \<times> 'u handler) list) = {}"
  shows "\<exists>r. start_registry hs regs = Inr r \<and> rpcs r = map_of (default_handlers @ regs) \<and> stopRegist r \<and> registry_wf hs r"
proof -
  have d: "distinct (map fst (default_handlers :: (string \<times> 'u handler) list))"
    by (simp add: default_handlers_def msg_names)
  then obtain r1 where r1: "regist_all hs default_handlers empty_rpcMgr = Inr r1"
    using regist_all_total [of default_handlers empty_rpcMgr hs] by (auto simp: empty_rpcMgr_def)
  have R1: "rpcs r1 = map_of default_handlers" "registry_wf hs r1" "\<not> stopRegist r1"
    using regist_all_Inr [OF r1] by (auto simp: empty_rpcMgr_def registry_wf_empty [unfolded empty_rpcMgr_def])
  have dj: "fst ` set regs \<inter> dom (rpcs r1) = {}" using assms(2) by (simp add: R1(1) dom_map_of_conv_image_fst)
  then obtain r2 where r2: "regist_all hs regs r1 = Inr r2"
    using regist_all_total [OF assms(1) dj R1(3)] by blast
  have R2: "rpcs r2 = rpcs r1 ++ map_of regs" "registry_wf hs r2" using regist_all_Inr [OF r2] R1(2) by auto
  have "map_of default_handlers ++ map_of regs = map_of (default_handlers @ regs)"
    using dj by (subst map_add_comm) (auto simp: R1(1) dom_map_of_conv_image_fst simp flip: map_of_append)
  moreover have "start_registry hs regs = Inr (StopRcpHandlerRegist r2)"
    by (simp add: start_registry_def CreateSimpleRpcMgr_def r1 r2)
  ultimately show ?thesis using R1(1) R2 by (simp add: StopRcpHandlerRegist_def registry_wf_def)
qed

end
