(* ===== verification/Tcp_Server.thy ===== *)
theory Tcp_Server
  imports Remote_Mgr Default_Handlers
begin

text \<open>
  \<open>ms_framework/msf_tcp_server.go\<close> and the read loop of \<open>msf_remote_mgr.go\<close>: the accepted clients, their
  closing and the shutdown of the server, and one iteration of the loops \<open>TcpClient.HandleRead\<close> and \<open>Remote.HandleRead\<close>.
  \<open>net_read\<close> is what one \<open>conn.Read\<close> returned. An iteration either continues, leaves the loop, or panics; leaving
  it runs the deferred close. (\<open>c.remainLen < 0\<close> is never true of a \<open>uint32\<close> and has no counterpart.)
\<close>

section \<open>Accepting and closing\<close>

definition access_map :: "(string \<times> bool) list \<Rightarrow> gval" where
  "access_map m = VMap (map (\<lambda>(k, b). (k, VBool b)) m)"

definition RpcPermissionReport :: "msgpack \<Rightarrow> conn \<Rightarrow> ('h, 'b) world_scheme \<Rightarrow> bool res \<times> ('h, 'b) world_scheme" where
  "RpcPermissionReport mp c w =
     rpc_send mp (Some c) MSG_S2G_RPC_ACCESS_REPORT
       [VStr (Namespace (cfg w) @ '':'' @ Service (cfg w)), access_map (clientAccess (rpcMgr w))] w"

text \<open>One accepted connection of the loop of \<open>Start\<close>; \<open>busi\<close> is \<open>onTcpAcceptBusi\<close>.\<close>

definition accept_conn ::
  "msgpack \<Rightarrow> (conn \<Rightarrow> ('h, 'b) world_scheme \<Rightarrow> ('h, 'b) world_scheme) \<Rightarrow> conn \<Rightarrow> ('h, 'b) world_scheme \<Rightarrow>
     unit res \<times> ('h, 'b) world_scheme" where
  "accept_conn mp busi c w =
     (let s = tcpServer w; connID = GetConnID c in
      if stop s then (Inr (), w)
      else let st = (if serverIdentity w = SERVER_IDENTITY_CLIENT_GATE then TcpClientState_Init else TcpClientState_OK);
               client = \<lparr>cconn = c, crecv = new_recv, lastActiveTime = now w, state = st\<rparr>;
               s1 = s\<lparr>clients := (clients s)(connID \<mapsto> client)\<rparr>;
               w1 = w\<lparr>tcpServer := s1\<lparr>slb := snd (AddElement (slb s1) connID)\<rparr>\<rparr>
        in case (if serverIdentity w1 = SERVER_IDENTITY_SERVICE then RpcPermissionReport mp c w1 else (Inr True, w1)) of
             (Inl e, w2) \<Rightarrow> (Inl e, w2)
           | (Inr _, w2) \<Rightarrow> (Inr (), busi c w2))"

definition onClientClose :: "conn \<Rightarrow> ('h, 'b) world_scheme \<Rightarrow> ('h, 'b) world_scheme" where
  "onClientClose c w =
     (let s = tcpServer w in
      w\<lparr>tcpServer := s\<lparr>clients := (clients s)(GetConnID c := None), slb := snd (DelElement (slb s) (GetConnID c))\<rparr>,
        remoteMgr := DelRemoteOrderCache (GetConnID c) (remoteMgr w)\<rparr>)"

text \<open>\<open>Stop\<close> up to its waiting loop, and the exit test of that loop.\<close>

definition Stop_begin :: "TcpServer \<Rightarrow> TcpServer" where
  "Stop_begin s =
     (if stop s then s
      else s\<lparr>clients := (\<lambda>k. map_option (\<lambda>c. c\<lparr>state := TcpClientState_EXIT\<rparr>) (clients s k)),
             stop := True, listening := False\<rparr>)"

definition Stop_exits :: "TcpServer \<Rightarrow> bool" where
  "Stop_exits s \<longleftrightarrow> clients s = Map.empty"

section \<open>The read loops\<close>

datatype read_err = NoErr | TimeoutErr | EofErr | OtherErr

record net_read =
  rdata :: bytes
  rerr :: read_err

datatype loop_exit = Continue | Break

definition HeartBeat :: "msgpack \<Rightarrow> conn \<Rightarrow> ('h, 'b) world_scheme \<Rightarrow> bool res \<times> ('h, 'b) world_scheme" where
  "HeartBeat mp c w = rpc_send mp (Some c) MSG_HEART_BEAT_REQ [] w"

text \<open>The branch of both loops that runs when a read timed out.\<close>

definition idle_check ::
  "msgpack \<Rightarrow> conn \<Rightarrow> int \<Rightarrow> ('h, 'b) world_scheme \<Rightarrow> loop_exit res \<times> ('h, 'b) world_scheme" where
  "idle_check mp c lastActive w =
     (if now w - lastActive > 10 * 1000
      then if now w - lastActive > 20 * 1000 then (Inr Break, w)
           else (case HeartBeat mp c w of
                   (Inl e, w1) \<Rightarrow> (Inl e, w1)
                 | (Inr ok, w1) \<Rightarrow> if \<not> ok then (Inr Break, w1) else (Inr Continue, w1))
      else (Inr Continue, w))"

definition set_client :: "CONN_ID \<Rightarrow> TcpClient \<Rightarrow> ('h, 'b) world_scheme \<Rightarrow> ('h, 'b) world_scheme" where
  "set_client k c w = w\<lparr>tcpServer := (tcpServer w)\<lparr>clients := (clients (tcpServer w))(k \<mapsto> c)\<rparr>\<rparr>"

definition set_client_recv :: "CONN_ID \<Rightarrow> recv \<Rightarrow> ('h, 'b) world_scheme \<Rightarrow> ('h, 'b) world_scheme" where
  "set_client_recv k r w =
     (case clients (tcpServer w) k of None \<Rightarrow> w | Some c \<Rightarrow> set_client k (c\<lparr>crecv := r\<rparr>) w)"

text \<open>
  The buffer of a client is private to its goroutine: it is written back when the packets of the read have been handled.
\<close>

definition TcpClient_HandleRead ::
  "msgpack \<Rightarrow> ('h, ('h, 'b) world_scheme) handlers \<Rightarrow> CONN_ID \<Rightarrow> net_read \<Rightarrow> ('h, 'b) world_scheme \<Rightarrow>
     loop_exit res \<times> ('h, 'b) world_scheme" where
  "TcpClient_HandleRead mp hs k rd w =
     (case clients (tcpServer w) k of
        None \<Rightarrow> (Inr Break, w)
      | Some c \<Rightarrow>
          if state c = TcpClientState_EXIT then (Inr Break, w)
          else if rerr rd = TimeoutErr then idle_check mp (cconn c) (lastActiveTime c) w
          else if rerr rd = OtherErr then (Inr Break, w)
          else if length (rdata rd) = 0 then (Inr Break, w)
          else
            let r1 = recv_fill (crecv c) (rdata rd);
                w1 = set_client k (c\<lparr>lastActiveTime := now w\<rparr>) w
            in if remainLen r1 > RECV_BUF_MAX_LEN then (Inr Break, w1)
               else (case CreateSession SessionTcpClient (cconn c) w1 of
                       (session, w2) \<Rightarrow>
                         (case recv_decode (packet_handler mp hs session) r1 w2 of
                            Inl e \<Rightarrow> (Inl e, w2)
                          | Inr (r2, w3) \<Rightarrow> (Inr Continue, set_client_recv k r2 w3))))"

text \<open>One pass of the goroutine: an iteration, and the deferred \<open>Close\<close> when the loop is left.\<close>

definition client_iteration ::
  "msgpack \<Rightarrow> ('h, ('h, 'b) world_scheme) handlers \<Rightarrow> CONN_ID \<Rightarrow> net_read \<Rightarrow> ('h, 'b) world_scheme \<Rightarrow>
     loop_exit res \<times> ('h, 'b) world_scheme" where
  "client_iteration mp hs k rd w =
     (case TcpClient_HandleRead mp hs k rd w of
        (Inr Break, w1) \<Rightarrow> (Inr Break, onClientClose k w1)
      | r \<Rightarrow> r)"

definition set_remote :: "CONN_ID \<Rightarrow> Remote \<Rightarrow> ('h, 'b) world_scheme \<Rightarrow> ('h, 'b) world_scheme" where
  "set_remote k r w = w\<lparr>remoteMgr := (remoteMgr w)\<lparr>remotes := (remotes (remoteMgr w))(k \<mapsto> r)\<rparr>\<rparr>"

text \<open>The fields of an entry that its goroutine writes.\<close>

definition set_remote_fields :: "CONN_ID \<Rightarrow> Remote \<Rightarrow> ('h, 'b) world_scheme \<Rightarrow> ('h, 'b) world_scheme" where
  "set_remote_fields k r1 w =
     (case remotes (remoteMgr w) k of
        None \<Rightarrow> w
      | Some r \<Rightarrow> set_remote k (r\<lparr>rrecv := rrecv r1, rlastActiveTime := rlastActiveTime r1\<rparr>) w)"

text \<open>
  \<open>Remote.HandleRead\<close> on the struct \<open>r\<close> of the goroutine, which it returns updated: the goroutine holds a pointer to its
  struct and reads on when the entry of the remote manager is gone. (The test for half of the buffer comes first, so the
  overflow branch is not reached.)
\<close>

definition Remote_HandleRead ::
  "msgpack \<Rightarrow> ('h, ('h, 'b) world_scheme) handlers \<Rightarrow> Remote \<Rightarrow> net_read \<Rightarrow> ('h, 'b) world_scheme \<Rightarrow>
     loop_exit res \<times> Remote \<times> ('h, 'b) world_scheme" where
  "Remote_HandleRead mp hs r rd w =
     (if rerr rd = TimeoutErr
      then (case idle_check mp (rconn r) (rlastActiveTime r) w of (e, w1) \<Rightarrow> (e, r, w1))
      else if rerr rd = OtherErr then (Inr Break, r, w)
      else if length (rdata rd) = 0 then (Inr Break, r, w)
      else
        let r1 = r\<lparr>rlastActiveTime := now w, rrecv := recv_fill (rrecv r) (rdata rd)\<rparr> in
        if \<not> remainLen (rrecv r1) > RECV_BUF_MAX_LEN div 2 \<and> remainLen (rrecv r1) > RECV_BUF_MAX_LEN
        then (Inr Break, r1, w)
        else (case CreateSession SessionRemote (rconn r) w of
                (session, w1) \<Rightarrow>
                  (case recv_decode (packet_handler mp hs session) (rrecv r1) w1 of
                     Inl e \<Rightarrow> (Inl e, r1, w1)
                   | Inr (b, w2) \<Rightarrow> (Inr Continue, r1\<lparr>rrecv := b\<rparr>, w2))))"

text \<open>The deferred function of the loop, with the service and the address of the struct.\<close>

definition remote_exit :: "Remote \<Rightarrow> ('h, 'b) world_scheme \<Rightarrow> loop_exit res \<times> ('h, 'b) world_scheme" where
  "remote_exit r w =
     (case OnRemoteDisappear (remoteId r) (GetConnID (rconn r)) (remoteMgr w) of
        Inl e \<Rightarrow> (Inl e, w)
      | Inr m \<Rightarrow> (Inr Break, w\<lparr>remoteMgr := m\<rparr>))"

text \<open>
  One pass of the goroutine of the connection in entry \<open>k\<close> of the manager, and of a goroutine whose struct is no longer an entry
  (an orphan).
\<close>

definition remote_iteration ::
  "msgpack \<Rightarrow> ('h, ('h, 'b) world_scheme) handlers \<Rightarrow> CONN_ID \<Rightarrow> net_read \<Rightarrow> ('h, 'b) world_scheme \<Rightarrow>
     loop_exit res \<times> ('h, 'b) world_scheme" where
  "remote_iteration mp hs k rd w =
     (case remotes (remoteMgr w) k of
        None \<Rightarrow> (Inr Break, w)
      | Some r \<Rightarrow>
          (case Remote_HandleRead mp hs r rd w of
             (Inl e, r1, w1) \<Rightarrow> (Inl e, w1)
           | (Inr Break, r1, w1) \<Rightarrow> remote_exit r1 w1
           | (Inr Continue, r1, w1) \<Rightarrow> (Inr Continue, set_remote_fields k r1 w1)))"

definition orphan_iteration ::
  "msgpack \<Rightarrow> ('h, ('h, 'b) world_scheme) handlers \<Rightarrow> Remote \<Rightarrow> net_read \<Rightarrow> ('h, 'b) world_scheme \<Rightarrow>
     loop_exit res \<times> Remote \<times> ('h, 'b) world_scheme" where
  "orphan_iteration mp hs r rd w =
     (case Remote_HandleRead mp hs r rd w of
        (Inr Break, r1, w1) \<Rightarrow> (case remote_exit r1 w1 of (e, w2) \<Rightarrow> (e, r1, w2))
      | x \<Rightarrow> x)"

section \<open>Invariant\<close>

text \<open>The load balancer of the server holds exactly the connected clients, each under its own address.\<close>

definition server_inv :: "TcpServer \<Rightarrow> bool" where
  "server_inv s \<longleftrightarrow>
     keys (slb s) = dom (clients s) \<and> lb_wf (slb s)
     \<and> (\<forall>k c. clients s k = Some c \<longrightarrow> cconn c = k \<and> recv_wf (crecv c))"

lemma server_inv_create [simp]: "server_inv (CreateTcpServer i p)"
  by (simp add: server_inv_def CreateTcpServer_def)

lemma RpcPermissionReport_frame:
  "RpcPermissionReport mp c w = (r, w') \<Longrightarrow> \<exists>o'. w' = w\<lparr>out := o'\<rparr>"
  unfolding RpcPermissionReport_def by (rule rpc_send_frame)

lemma accept_conn_cases:
  assumes "accept_conn mp busi c w = (r, w')" "\<And>w. \<exists>o'. busi c w = w\<lparr>out := o'\<rparr>"
  obtains (stopped) "stop (tcpServer w)" "w' = w" "r = Inr ()"
    | (accepted) o' where "\<not> stop (tcpServer w)"
        "w' = w\<lparr>tcpServer := (tcpServer w)\<lparr>
            clients := (clients (tcpServer w))(c \<mapsto> \<lparr>cconn = c, crecv = new_recv, lastActiveTime = now w,
              state = (if serverIdentity w = SERVER_IDENTITY_CLIENT_GATE then TcpClientState_Init else TcpClientState_OK)\<rparr>),
            slb := snd (AddElement (slb (tcpServer w)) c)\<rparr>, out := o'\<rparr>"
proof (cases "stop (tcpServer w)")
  case True
  then have "accept_conn mp busi c w = (Inr (), w)" unfolding accept_conn_def Let_def by (rule if_P)
  then have "r = Inr ()" "w' = w" unfolding assms(1) by simp_all
  with True show thesis by (intro stopped)
next
  case False
  let ?st = "if serverIdentity w = SERVER_IDENTITY_CLIENT_GATE then TcpClientState_Init else TcpClientState_OK"
  define w1 where "w1 = w\<lparr>tcpServer := (tcpServer w)\<lparr>
     clients := (clients (tcpServer w))(c \<mapsto> \<lparr>cconn = c, crecv = new_recv, lastActiveTime = now w, state = ?st\<rparr>),
     slb := snd (AddElement (slb (tcpServer w)) c)\<rparr>\<rparr>"
  obtain x w2 where x: "(if serverIdentity w1 = SERVER_IDENTITY_SERVICE then RpcPermissionReport mp c w1 else (Inr True, w1)) = (x, w2)"
    by (meson surj_pair)
  have "\<exists>o1. w2 = w1\<lparr>out := o1\<rparr>"
  proof (cases "serverIdentity w1 = SERVER_IDENTITY_SERVICE")
    case True
    then have "RpcPermissionReport mp c w1 = (x, w2)" using x by simp
    then show ?thesis by (rule RpcPermissionReport_frame)
  next
    case False
    then have "w2 = w1" using x by simp
    then show ?thesis by (simp only:) (rule same_out)
  qed
  then obtain o1 where o1: "w2 = w1\<lparr>out := o1\<rparr>" by blast
  have "accept_conn mp busi c w =
      (case (if serverIdentity w1 = SERVER_IDENTITY_SERVICE then RpcPermissionReport mp c w1 else (Inr True, w1)) of
         (Inl e, w2) \<Rightarrow> (Inl e, w2) | (Inr _, w2) \<Rightarrow> (Inr (), busi c w2))"
    unfolding accept_conn_def Let_def w1_def using False by (simp add: GetConnID_def)
  then have "(r, w') = (case (x, w2) of (Inl e, w2) \<Rightarrow> (Inl e, w2) | (Inr _, w2) \<Rightarrow> (Inr (), busi c w2))"
    unfolding x assms(1) .
  then have "w' = w2 \<or> w' = busi c w2" by (auto split: sum.splits)
  then obtain o2 where "w' = w1\<lparr>out := o2\<rparr>"
  proof
    assume "w' = busi c w2"
    with assms(2) obtain o3 where "w' = w2\<lparr>out := o3\<rparr>" by blast
    then have "w' = w1\<lparr>out := o3\<rparr>" by (simp add: o1)
    then show thesis by (rule that)
  next
    assume "w' = w2"
    with o1 show thesis by (intro that [of o1]) (simp only:)
  qed
  then show thesis using accepted [of o2] False by (simp add: w1_def)
qed

lemma server_inv_accept:
  assumes "server_inv (tcpServer w)" "accept_conn mp busi c w = (r, w')" "\<And>w. \<exists>o'. busi c w = w\<lparr>out := o'\<rparr>"
  shows "server_inv (tcpServer w')"
  using assms(2,3)
proof (cases rule: accept_conn_cases)
  case (accepted o')
  with assms(1) show ?thesis by (auto simp: server_inv_def lb_wf_AddElement)
qed (use assms(1) in simp)

lemma server_inv_close:
  "server_inv (tcpServer w) \<Longrightarrow> server_inv (tcpServer (onClientClose c w))"
  by (auto simp: server_inv_def onClientClose_def Let_def lb_wf_DelElement GetConnID_def split: if_splits)

lemma server_inv_stop: "server_inv s \<Longrightarrow> server_inv (Stop_begin s)"
  by (auto simp: server_inv_def Stop_begin_def)

lemma server_inv_SetState: "server_inv (tcpServer w) \<Longrightarrow> server_inv (tcpServer (SetState k st w))"
  by (cases "clients (tcpServer w) k") (auto simp: server_inv_def SetState_def split: if_splits)

section \<open>Lemmas on the read loops\<close>

lemma onClientClose_simps [simp]:
  "clients (tcpServer (onClientClose k w)) = (clients (tcpServer w))(k := None)"
  "keys (slb (tcpServer (onClientClose k w))) = keys (slb (tcpServer w)) - {k}"
  "remotes (remoteMgr (onClientClose k w)) = remotes (remoteMgr w)"
  "pinned (remoteMgr (onClientClose k w)) k rid = None"
  "out (onClientClose k w) = out w" "stop (tcpServer (onClientClose k w)) = stop (tcpServer w)"
  by (simp_all add: onClientClose_def Let_def GetConnID_def DelRemoteOrderCache_def pinned_def)

lemma client_iteration_exit:
  assumes "\<And>c. clients (tcpServer w) k = Some c \<Longrightarrow> state c = TcpClientState_EXIT"
  shows "client_iteration mp hs k rd w = (Inr Break, onClientClose k w)"
  using assms by (simp add: client_iteration_def TcpClient_HandleRead_def split: option.splits)

text \<open>The read goroutines of the clients \<open>ks\<close>, each running one more iteration, in that order.\<close>

fun iterate_clients ::
  "msgpack \<Rightarrow> ('h, ('h, 'b) world_scheme) handlers \<Rightarrow> (CONN_ID \<Rightarrow> net_read) \<Rightarrow> CONN_ID list \<Rightarrow> ('h, 'b) world_scheme \<Rightarrow>
     ('h, 'b) world_scheme" where
  "iterate_clients mp hs rds [] w = w"
| "iterate_clients mp hs rds (k # ks) w = iterate_clients mp hs rds ks (snd (client_iteration mp hs k (rds k) w))"

lemma iterate_clients_exit:
  assumes "\<And>k c. clients (tcpServer w) k = Some c \<Longrightarrow> state c = TcpClientState_EXIT"
  shows "clients (tcpServer (iterate_clients mp hs rds ks w)) = clients (tcpServer w) |` (- set ks)
    \<and> stop (tcpServer (iterate_clients mp hs rds ks w)) = stop (tcpServer w)"
  using assms
proof (induction ks arbitrary: w)
  case (Cons k ks)
  have step: "snd (client_iteration mp hs k (rds k) w) = onClientClose k w"
    using client_iteration_exit [of w k] Cons.prems by simp
  have "clients (tcpServer (onClientClose k w)) j = Some c \<Longrightarrow> state c = TcpClientState_EXIT" for j c
    using Cons.prems by (auto split: if_splits)
  then have IH: "clients (tcpServer (iterate_clients mp hs rds ks (onClientClose k w))) =
        clients (tcpServer (onClientClose k w)) |` (- set ks)"
      "stop (tcpServer (iterate_clients mp hs rds ks (onClientClose k w))) = stop (tcpServer (onClientClose k w))"
    using Cons.IH [of "onClientClose k w"] by blast+
  have "clients (tcpServer (onClientClose k w)) |` (- set ks) = clients (tcpServer w) |` (- set (k # ks))"
    by (auto simp: restrict_map_def fun_eq_iff)
  then show ?case unfolding iterate_clients.simps step IH by simp
qed (simp add: restrict_map_def)

section \<open>Properties\<close>


text \<open>A client gate with one idle client.\<close>

definition demo_cfg :: GlobalConfig where
  "demo_cfg = \<lparr>Namespace = ''ns'', Service = ''ClientGate'', Port = 8888, LogLevel = ''DEBUG'', Etcd = [], DbCfg = []\<rparr>"

definition demo_client :: TcpClient where
  "demo_client = \<lparr>cconn = ''9.9.9.9:1'', crecv = new_recv, lastActiveTime = 0, state = TcpClientState_OK\<rparr>"

definition demo_server :: "int \<Rightarrow> unit handler world" where
  "demo_server t = set_client ''9.9.9.9:1'' demo_client (Init demo_cfg SERVER_IDENTITY_CLIENT_GATE [] empty_rpcMgr t good_net)"

definition demo_user :: "(unit, unit handler world) handlers" where
  "demo_user = \<lparr>GetReqPtr = (\<lambda>_. None), ClientAccess = (\<lambda>_. None), Process = (\<lambda>_ _ _ w. (None, None, w))\<rparr>"

definition demo_hs :: "(unit handler, unit handler world) handlers" where
  "demo_hs = process_handlers mp_codec demo_user 2"

lemma demo_server_client:
  "clients (tcpServer (demo_server t)) = [''9.9.9.9:1'' \<mapsto> demo_client]" "now (demo_server t) = t"
  "stop (tcpServer (demo_server t)) = False"
  by (simp_all add: demo_server_def set_client_def Init_def CreateTcpServer_def)

lemma heartbeat_encoded: "\<exists>hb. MessageEncode (RpcEncode mp_codec MSG_HEART_BEAT_REQ []) = Inr hb \<and> hb \<noteq> []"
  by (simp add: MessageEncode_ok RpcEncode_def mp_codec_def put_str_def msg_names)




end
