(* ===== verification/Db_Driver.thy ===== *)
theory Db_Driver
  imports World
begin

text \<open>
  \<open>ms_framework/msf_db_driver.go\<close>: the table of database clients of a process, created from the configuration at start,
  read by the handlers and released at shutdown. The redis and mongo drivers are not part of the repository: a client is
  the kind and the address it was created with, \<open>connect\<close> is the error of connecting it, and a command is recorded in
  \<open>dbLog\<close> and answered by \<open>dbAnswer\<close>.
\<close>

section \<open>Clients, commands and answers\<close>

datatype db_client = RedisClient string | RedisClusterClient "string list" | MongoClient string

datatype bson = BInt int | BString string | BBinary bytes | BObjectID bytes | BDoc "(string \<times> bson) list"

datatype db_cmd =
    RedisSet string string
  | RedisDel string
  | RedisGet string
  | RedisHMSet string "(string \<times> bson) list"
  | RedisHMGet string "string list"
  | MongoInsertOne string string "(string \<times> bson) list"
  | MongoUpdateOne string string "(string \<times> bson) list" "(string \<times> bson) list"
  | MongoFind string string "(string \<times> bson) list"
  | MongoDeleteMany string string "(string \<times> bson) list"

text \<open>An error, or what the caller reads of the result: nothing, a string, an inserted id, or the documents found.\<close>

datatype db_answer = DbErr string | DbOk | DbString string | DbId bson | DbDocs "(string \<times> bson) list list"

record db =
  gDBResource :: "string \<rightharpoonup> db_client"
  dbAnswer :: "db_client \<Rightarrow> db_cmd \<Rightarrow> db_answer"
  dbLog :: "(db_client \<times> db_cmd) list"

definition db_do :: "db_client \<Rightarrow> db_cmd \<Rightarrow> db \<Rightarrow> db_answer \<times> db" where
  "db_do c cmd d = (dbAnswer d c cmd, d\<lparr>dbLog := dbLog d @ [(c, cmd)]\<rparr>)"

section \<open>Creation\<close>

definition CeateRedisSingle :: "(db_client \<Rightarrow> string option) \<Rightarrow> string list \<Rightarrow> db_client res" where
  "CeateRedisSingle connect addr =
     res_bind (index addr 0) (\<lambda>a.
       case connect (RedisClient a) of
         Some err \<Rightarrow> Inl (ExplicitPanic (''redis client init error '' @ err))
       | None \<Rightarrow> Inr (RedisClient a))"

definition CreateRedisCluster :: "(db_client \<Rightarrow> string option) \<Rightarrow> string list \<Rightarrow> db_client res" where
  "CreateRedisCluster connect addr =
     (case connect (RedisClusterClient addr) of
        Some err \<Rightarrow> Inl (ExplicitPanic (''redis cluster init error '' @ err))
      | None \<Rightarrow> Inr (RedisClusterClient addr))"

definition CreateMongo :: "(db_client \<Rightarrow> string option) \<Rightarrow> string list \<Rightarrow> db_client res" where
  "CreateMongo connect addr =
     res_bind (index addr 0) (\<lambda>a.
       case connect (MongoClient a) of
         Some err \<Rightarrow> Inl (ExplicitPanic (''mongo client init error '' @ err))
       | None \<Rightarrow> Inr (MongoClient a))"

text \<open>The loop of \<open>CreateDBResource\<close>; an entry of an unknown type is skipped.\<close>

definition create_one :: "(db_client \<Rightarrow> string option) \<Rightarrow> DbConfig \<Rightarrow> (string \<rightharpoonup> db_client) \<Rightarrow> (string \<rightharpoonup> db_client) res" where
  "create_one connect dbCfg g =
     (if db_Type dbCfg = ''redisSingle''
      then res_bind (CeateRedisSingle connect (db_Addr dbCfg)) (\<lambda>c. Inr (g(db_Name dbCfg \<mapsto> c)))
      else if db_Type dbCfg = ''redisCluster''
      then res_bind (CreateRedisCluster connect (db_Addr dbCfg)) (\<lambda>c. Inr (g(db_Name dbCfg \<mapsto> c)))
      else if db_Type dbCfg = ''mongo''
      then res_bind (CreateMongo connect (db_Addr dbCfg)) (\<lambda>c. Inr (g(db_Name dbCfg \<mapsto> c)))
      else Inr g)"

fun CreateDBResource :: "(db_client \<Rightarrow> string option) \<Rightarrow> DbConfig list \<Rightarrow> (string \<rightharpoonup> db_client) \<Rightarrow> (string \<rightharpoonup> db_client) res" where
  "CreateDBResource connect [] g = Inr g"
| "CreateDBResource connect (c # cs) g = res_bind (create_one connect c g) (CreateDBResource connect cs)"

section \<open>Access\<close>

fun is_redis :: "db_client \<Rightarrow> bool" where
  "is_redis (RedisClient _) = True"
| "is_redis _ = False"

fun is_cluster :: "db_client \<Rightarrow> bool" where
  "is_cluster (RedisClusterClient _) = True"
| "is_cluster _ = False"

fun is_mongo :: "db_client \<Rightarrow> bool" where
  "is_mongo (MongoClient _) = True"
| "is_mongo _ = False"

text \<open>\<open>v.(T)\<close> of a stored client.\<close>

definition assert_client :: "(db_client \<Rightarrow> bool) \<Rightarrow> db_client \<Rightarrow> db_client res" where
  "assert_client P c = (if P c then Inr c else Inl TypeAssertion)"

definition get_client :: "(db_client \<Rightarrow> bool) \<Rightarrow> string \<Rightarrow> (string \<rightharpoonup> db_client) \<Rightarrow> db_client option res" where
  "get_client P name g =
     (case g name of None \<Rightarrow> Inr None | Some c \<Rightarrow> res_bind (assert_client P c) (\<lambda>c. Inr (Some c)))"

definition GetRedisSingle :: "string \<Rightarrow> (string \<rightharpoonup> db_client) \<Rightarrow> db_client option res" where
  "GetRedisSingle = get_client is_redis"

definition GetRedisCluster :: "string \<Rightarrow> (string \<rightharpoonup> db_client) \<Rightarrow> db_client option res" where
  "GetRedisCluster = get_client is_cluster"

definition GetMongo :: "string \<Rightarrow> (string \<rightharpoonup> db_client) \<Rightarrow> db_client option res" where
  "GetMongo = get_client is_mongo"

text \<open>A command on the client a getter returned: a nil client is dereferenced.\<close>

definition db_call :: "db_client option res \<Rightarrow> db_cmd \<Rightarrow> db \<Rightarrow> db_answer res \<times> db" where
  "db_call c cmd d =
     (case c of
        Inl e \<Rightarrow> (Inl e, d)
      | Inr None \<Rightarrow> (Inl NilDeref, d)
      | Inr (Some cl) \<Rightarrow> (case db_do cl cmd d of (a, d') \<Rightarrow> (Inr a, d')))"

fun is_err :: "db_answer \<Rightarrow> bool" where
  "is_err (DbErr _) = True"
| "is_err _ = False"

section \<open>Release\<close>

text \<open>One entry of the loop of \<open>ReleaseDBResource\<close>: the client it closes, if any.\<close>

definition release_one :: "DbConfig \<Rightarrow> (string \<rightharpoonup> db_client) \<Rightarrow> db_client option res" where
  "release_one dbCfg g =
     (if db_Type dbCfg = ''redisSingle'' then GetRedisSingle (db_Name dbCfg) g
      else if db_Type dbCfg = ''redisCluster'' then GetRedisCluster (db_Name dbCfg) g
      else if db_Type dbCfg = ''mongo'' then GetMongo (db_Name dbCfg) g
      else Inr None)"

fun release_all :: "DbConfig list \<Rightarrow> (string \<rightharpoonup> db_client) \<Rightarrow> db_client list res" where
  "release_all [] g = Inr []"
| "release_all (c # cs) g =
     res_bind (release_one c g) (\<lambda>x. res_bind (release_all cs g) (\<lambda>xs. Inr (case x of None \<Rightarrow> xs | Some y \<Rightarrow> y # xs)))"

definition ReleaseDBResource :: "DbConfig list \<Rightarrow> (string \<rightharpoonup> db_client) \<Rightarrow> (db_client list \<times> (string \<rightharpoonup> db_client)) res" where
  "ReleaseDBResource cs g = res_bind (release_all cs g) (\<lambda>closed. Inr (closed, Map.empty))"

section \<open>Lemmas\<close>

text \<open>The kind of client a configuration entry asks for.\<close>

definition kind_of :: "DbConfig \<Rightarrow> (db_client \<Rightarrow> bool) option" where
  "kind_of dbCfg =
     (if db_Type dbCfg = ''redisSingle'' then Some is_redis
      else if db_Type dbCfg = ''redisCluster'' then Some is_cluster
      else if db_Type dbCfg = ''mongo'' then Some is_mongo else None)"

lemma create_one_cases:
  assumes "create_one connect c g = Inr g'"
  obtains (skip) "kind_of c = None" "g' = g"
    | (new) P cl where "kind_of c = Some P" "P cl" "g' = g(db_Name c \<mapsto> cl)"
proof -
  have "kind_of c = None \<and> g' = g
    \<or> kind_of c = Some is_redis \<and> (\<exists>a. g' = g(db_Name c \<mapsto> RedisClient a))
    \<or> kind_of c = Some is_cluster \<and> (\<exists>a. g' = g(db_Name c \<mapsto> RedisClusterClient a))
    \<or> kind_of c = Some is_mongo \<and> (\<exists>a. g' = g(db_Name c \<mapsto> MongoClient a))"
    using assms
    by (auto simp: create_one_def kind_of_def CeateRedisSingle_def CreateRedisCluster_def CreateMongo_def res_bind_Inr_iff
        split: if_splits option.splits)
  then show thesis
    using skip new [of is_redis "RedisClient _"] new [of is_cluster "RedisClusterClient _"] new [of is_mongo "MongoClient _"]
    by (elim disjE conjE exE) simp_all
qed

lemma release_one_kind:
  "release_one c g = (case kind_of c of None \<Rightarrow> Inr None | Some P \<Rightarrow> get_client P (db_Name c) g)"
  by (simp add: release_one_def kind_of_def GetRedisSingle_def GetRedisCluster_def GetMongo_def)

lemma CreateDBResource_other:
  "CreateDBResource connect cs g = Inr g' \<Longrightarrow> n \<notin> db_Name ` set cs \<Longrightarrow> g' n = g n"
proof (induction cs arbitrary: g)
  case (Cons c cs)
  then obtain g1 where "create_one connect c g = Inr g1" "CreateDBResource connect cs g1 = Inr g'"
    by (auto simp: res_bind_Inr_iff)
  with Cons show ?case by (elim create_one_cases) auto
qed simp

lemma CreateDBResource_entry:
  "CreateDBResource connect cs g = Inr g' \<Longrightarrow> distinct (map db_Name cs) \<Longrightarrow> c \<in> set cs \<Longrightarrow> kind_of c = Some P \<Longrightarrow>
     \<exists>cl. g' (db_Name c) = Some cl \<and> P cl"
proof (induction cs arbitrary: g)
  case (Cons d cs)
  then obtain g1 where g1: "create_one connect d g = Inr g1" "CreateDBResource connect cs g1 = Inr g'"
    by (auto simp: res_bind_Inr_iff)
  show ?case
  proof (cases "c = d")
    case True
    then have "g' (db_Name c) = g1 (db_Name c)"
      using Cons.prems(2) by (intro CreateDBResource_other [OF g1(2)]) auto
    with g1(1) True Cons.prems(4) show ?thesis by (elim create_one_cases) auto
  next
    case False
    then show ?thesis using Cons.IH [OF g1(2)] Cons.prems by auto
  qed
qed simp

lemma release_all_closes:
  assumes "\<forall>c\<in>set cs. case kind_of c of None \<Rightarrow> True | Some P \<Rightarrow> (\<exists>cl. g (db_Name c) = Some cl \<and> P cl)"
  shows "release_all cs g = Inr (map (\<lambda>c. the (g (db_Name c))) (filter (\<lambda>c. kind_of c \<noteq> None) cs))"
  using assms
  by (induction cs) (auto simp: release_one_kind get_client_def assert_client_def split: option.splits)

section \<open>Properties\<close>

text \<open>Property C32. Life cycle of the database clients: when the configured names are distinct and creation succeeds, every entry of a known
  type is found under its name at its type, asking for it at another type panics, and the release closes exactly the
  clients of those entries, each once, and leaves no client behind.\<close>

theorem db_resource_lifecycle:
  assumes "CreateDBResource connect cs Map.empty = Inr g" "distinct (map db_Name cs)"
  shows "(\<forall>c\<in>set cs. \<forall>P. kind_of c = Some P \<longrightarrow> (\<exists>cl. g (db_Name c) = Some cl \<and> P cl
       \<and> (\<forall>Q. get_client Q (db_Name c) g = (if Q cl then Inr (Some cl) else Inl TypeAssertion))))
    \<and> ReleaseDBResource cs g = Inr (map (\<lambda>c. the (g (db_Name c))) (filter (\<lambda>c. kind_of c \<noteq> None) cs), Map.empty)
    \<and> (\<forall>name. GetRedisSingle name Map.empty = Inr None \<and> GetRedisCluster name Map.empty = Inr None \<and> GetMongo name Map.empty = Inr None)"
proof -
  have e: "\<exists>cl. g (db_Name c) = Some cl \<and> P cl" if "c \<in> set cs" "kind_of c = Some P" for c P
    by (rule CreateDBResource_entry [OF assms that])
  then have "release_all cs g = Inr (map (\<lambda>c. the (g (db_Name c))) (filter (\<lambda>c. kind_of c \<noteq> None) cs))"
    by (intro release_all_closes) (auto split: option.splits)
  moreover have "get_client Q n g = (if Q cl then Inr (Some cl) else Inl TypeAssertion)" if "g n = Some cl" for Q n cl
    using that by (simp add: get_client_def assert_client_def)
  ultimately show ?thesis
    using e by (fastforce simp: ReleaseDBResource_def GetRedisSingle_def GetRedisCluster_def GetMongo_def get_client_def)
qed

definition demo_dbcfg :: "DbConfig list" where
  "demo_dbcfg = [\<lparr>db_Name = ''myRedis2'', db_Type = ''redisCluster'', db_Addr = [''a:1'', ''b:1'']\<rparr>,
     \<lparr>db_Name = ''myMongo'', db_Type = ''mongo'', db_Addr = [''m:1'']\<rparr>]"

theorem db_resource_lifecycle_witness:
  "\<exists>g closed. CreateDBResource (\<lambda>_. None) demo_dbcfg Map.empty = Inr g \<and> ReleaseDBResource demo_dbcfg g = Inr (closed, Map.empty)
     \<and> closed = [RedisClusterClient [''a:1'', ''b:1''], MongoClient ''m:1'']"
proof -
  have c: "CreateDBResource (\<lambda>_. None) demo_dbcfg Map.empty =
      Inr [''myRedis2'' \<mapsto> RedisClusterClient [''a:1'', ''b:1''], ''myMongo'' \<mapsto> MongoClient ''m:1'']"
    by (simp add: demo_dbcfg_def create_one_def CreateRedisCluster_def CreateMongo_def)
  have "distinct (map db_Name demo_dbcfg)" by (simp add: demo_dbcfg_def)
  from db_resource_lifecycle [OF c this] c show ?thesis by (auto simp: demo_dbcfg_def kind_of_def)
qed

end
