(* ===== verification/Gate.thy ===== *)
theory Gate
  imports Tcp_Server Db_Driver
begin

text \<open>
  The gate (\<open>ms_gate/src\<close>): the handlers that route the requests of clients to services and the responses back, log
  clients in and off, push to clients, verify clients and record the permissions services report. The gate adds to
  the state of a process the table \<open>gClientAccess\<close>, the address of its listener and the database clients.
\<close>

section \<open>State\<close>

datatype gate_h = G_C2GRpcRoute | G_S2GRpcRsp | G_GateLogin | G_GateLogoff | G_ReqListenAddr | G_P2GPush
  | G_C2GVertify | G_S2GRpcAccessReport

record gate_world = "gate_h handler world" +
  gClientAccess :: "string \<rightharpoonup> (string \<rightharpoonup> bool)"
  listenAddr :: string
  gdb :: db

section \<open>Routing\<close>

definition RpcC2GRpcRouteReq :: "(string \<times> gty) list" where
  "RpcC2GRpcRouteReq =
     [(''NameSpace'', TString), (''Service'', TString), (''Rid'', TUint32), (''IsOrdered'', TBool), (''InnerRpc'', TBytes)]"

record route_req =
  rNameSpace :: string
  rService :: string
  rRid :: u32
  rIsOrdered :: bool
  rInnerRpc :: bytes

definition as_route_req :: "gval list \<Rightarrow> route_req" where
  "as_route_req vs = \<lparr>rNameSpace = as_str (vs ! 0), rService = as_str (vs ! 1), rRid = as_u32 (vs ! 2),
     rIsOrdered = as_bool (vs ! 3), rInnerRpc = as_bytes (vs ! 4)\<rparr>"

text \<open>The permission check at the head of \<open>RpcC2GRpcRouteHandler.Process\<close>: the error text, empty when allowed.\<close>

definition route_check :: "msgpack \<Rightarrow> route_req \<Rightarrow> session \<Rightarrow> gate_world \<Rightarrow> string" where
  "route_check mp req session w =
     (if serverIdentity w = SERVER_IDENTITY_CLIENT_GATE \<and> styp session = SessionTcpClient
      then (case gClientAccess w (rNameSpace req @ '':'' @ rService req) of
              None \<Rightarrow> ''service '' @ rNameSpace req @ '':'' @ rService req @ '' not exist''
            | Some rpcPermissions \<Rightarrow>
                let rpcName = fst (decode_name mp (rInnerRpc req)) in
                (case rpcPermissions rpcName of
                   Some True \<Rightarrow> []
                 | _ \<Rightarrow> ''rpc '' @ rNameSpace req @ '':'' @ rService req @ '':'' @ rpcName @ '' not allow''))
      else [])"

text \<open>Both error exits: a response when the client expects one.\<close>

definition route_error :: "msgpack \<Rightarrow> route_req \<Rightarrow> session \<Rightarrow> string \<Rightarrow> gate_world \<Rightarrow> gate_world proc" where
  "route_error mp req session err w =
     (if rRid req \<noteq> 0
      then no_rsp (rpc_send mp (Some (sconn session)) MSG_G2C_RPC_RSP [vu32 (rRid req), VStr err, VNil] w)
      else (None, None, w))"

definition route_cbInfo :: "msgpack \<Rightarrow> route_req \<Rightarrow> session \<Rightarrow> gate_world \<Rightarrow> C2GRouteCbInfo" where
  "route_cbInfo mp req session w =
     \<lparr>cb_rid = rRid req, cb_connID = GetConnID (sconn session), cb_nameSpace = rNameSpace req,
      cb_service = rService req, cb_rpcName = fst (decode_name mp (rInnerRpc req)), cb_createTime = now w\<rparr>"

definition RpcC2GRpcRoute_Process ::
  "msgpack \<Rightarrow> (nat \<Rightarrow> nat) \<Rightarrow> route_req \<Rightarrow> session \<Rightarrow> gate_world \<Rightarrow> gate_world proc" where
  "RpcC2GRpcRoute_Process mp intn req session w =
     (let w0 = RpcFvcCount w; err = route_check mp req session w0 in
      if length err \<noteq> 0 then route_error mp req session err w0
      else
        let clientID = GetConnID (sconn session);
            rid = GetRemoteID (rNameSpace req) (rService req)
        in case ChoiceRemote intn rid (rIsOrdered req) clientID (remoteMgr w0) of
             (Inl e, m) \<Rightarrow> (Some e, None, w0\<lparr>remoteMgr := m\<rparr>)
           | (Inr None, m) \<Rightarrow>
               route_error mp req session (''service '' @ rNameSpace req @ '':'' @ rService req @ '' not exist'')
                 (w0\<lparr>remoteMgr := m\<rparr>)
           | (Inr (Some remote), m) \<Rightarrow>
               let w1 = w0\<lparr>remoteMgr := m\<rparr> in
               (case (if rRid req \<noteq> 0
                      then (case NewGid w1 of (grid, w2) \<Rightarrow>
                              (case add_callback grid [ARoute (route_cbInfo mp req session w2)] 101 None w2 of
                                 (r, w3) \<Rightarrow> (r, grid, w3)))
                      else (Inr (), 0, w1)) of
                  (Inl e, _, w3) \<Rightarrow> (Some e, None, w3)
                | (Inr _, grid, w3) \<Rightarrow>
                    no_rsp (rpc_send mp (Some (rconn remote))
                      (if rIsOrdered req then MSG_G2S_RPC_CALL_ORDERED else MSG_G2S_RPC_CALL)
                      [vu32 grid, VBytes (rInnerRpc req)] w3)))"

definition RpcS2GRpcRsp :: "(string \<times> gty) list" where
  "RpcS2GRpcRsp = [(''GRid'', TUint32), (''Error'', TString), (''Reply'', TMap)]"

text \<open>The connection a response goes to: the client of that address, else the remote.\<close>

definition rsp_conn :: "CONN_ID \<Rightarrow> gate_world \<Rightarrow> conn option" where
  "rsp_conn connID w =
     (case GetTcpClient connID w of
        Some client \<Rightarrow> Some (cconn client)
      | None \<Rightarrow> (case GetRemote connID w of Some remote \<Rightarrow> Some (rconn remote) | None \<Rightarrow> None))"

definition RpcS2GRpcRsp_Process :: "msgpack \<Rightarrow> gval list \<Rightarrow> session \<Rightarrow> gate_world \<Rightarrow> gate_world proc" where
  "RpcS2GRpcRsp_Process mp req session w =
     (case get_callback (as_u32 (req ! 0)) w of
        (None, w1) \<Rightarrow> (None, None, w1)
      | (Some cbs, w1) \<Rightarrow>
          (case cbs of
             [] \<Rightarrow> (Some IndexOutOfRange, None, w1)
           | ARoute cbInfo # _ \<Rightarrow>
               (case rsp_conn (cb_connID cbInfo) w1 of
                  None \<Rightarrow> (None, None, w1)
                | Some c \<Rightarrow> no_rsp (rpc_send mp (Some c) MSG_G2C_RPC_RSP [vu32 (cb_rid cbInfo), req ! 1, req ! 2] w1))
           | _ # _ \<Rightarrow> (Some TypeAssertion, None, w1)))"

section \<open>Login, logoff, push, verification and access report\<close>

definition login_key :: "string \<Rightarrow> string \<Rightarrow> string option" where
  "login_key service clientID =
     (if ''ServiceGate'' = service then Some (''s_'' @ clientID)
      else if ''ClientGate'' = service then Some (''c_'' @ clientID) else None)"

definition RpcGateLogin_Process :: "gval list \<Rightarrow> session \<Rightarrow> gate_world \<Rightarrow> gate_world proc" where
  "RpcGateLogin_Process req session w =
     (case login_key (Service (cfg w)) (as_str (req ! 0)) of
        None \<Rightarrow> (None, Some [(''Success'', VBool True)], w)
      | Some key \<Rightarrow>
          (case db_call (GetRedisCluster ''myRedis2'' (gDBResource (gdb w)))
                 (RedisSet key (listenAddr w @ ''/'' @ GetConnID (sconn session))) (gdb w) of
             (Inl e, d) \<Rightarrow> (Some e, Some [(''Success'', VBool True)], w\<lparr>gdb := d\<rparr>)
           | (Inr a, d) \<Rightarrow> (None, Some [(''Success'', VBool (\<not> is_err a))], w\<lparr>gdb := d\<rparr>)))"

definition RpcGateLogoff_Process :: "gval list \<Rightarrow> session \<Rightarrow> gate_world \<Rightarrow> gate_world proc" where
  "RpcGateLogoff_Process req session w =
     (case login_key (Service (cfg w)) (as_str (req ! 0)) of
        None \<Rightarrow> (None, Some [(''Success'', VBool True)], w)
      | Some key \<Rightarrow>
          (case db_call (GetRedisCluster ''myRedis2'' (gDBResource (gdb w))) (RedisDel key) (gdb w) of
             (Inl e, d) \<Rightarrow> (Some e, Some [(''Success'', VBool True)], w\<lparr>gdb := d\<rparr>)
           | (Inr a, d) \<Rightarrow> (None, Some [(''Success'', VBool (\<not> is_err a))], w\<lparr>gdb := d\<rparr>)))"

definition RpcReqListenAddr_Process :: "msgpack \<Rightarrow> session \<Rightarrow> gate_world \<Rightarrow> gate_world proc" where
  "RpcReqListenAddr_Process mp session w =
     (case rpc_send mp (Some (sconn session)) MSG_G2P_RSP_LISTENADDR [VStr (listenAddr w)] w of
        (Inl e, w1) \<Rightarrow> (Some e, Some [(''Addr'', VStr [])], w1)
      | (Inr _, w1) \<Rightarrow> (None, Some [(''Addr'', VStr [])], w1))"

definition RpcP2GPushReq :: "(string \<times> gty) list" where
  "RpcP2GPushReq = [(''ConnID'', TString), (''Pid'', TBytes), (''Namespace'', TString), (''InnerRpc'', TBytes)]"

definition RpcP2GPush_Process :: "msgpack \<Rightarrow> gval list \<Rightarrow> session \<Rightarrow> gate_world \<Rightarrow> gate_world proc" where
  "RpcP2GPush_Process mp req session w =
     (case GetTcpClient (as_str (req ! 0)) w of
        None \<Rightarrow> (None, None, w)
      | Some client \<Rightarrow>
          no_rsp (rpc_send mp (Some (cconn client)) MSG_G2C_PUSH [req ! 1, req ! 2, req ! 3] w))"

definition RpcC2GVertify_Process :: "gval list \<Rightarrow> session \<Rightarrow> gate_world \<Rightarrow> gate_world proc" where
  "RpcC2GVertify_Process req session w =
     (if as_str (req ! 0) \<noteq> VERTIFY_SECRET_KEY then (None, None, w)
      else let connID = GetConnID (sconn session) in
        (case GetTcpClient connID w of
           None \<Rightarrow> (None, None, w)
         | Some _ \<Rightarrow> (None, None, SetState connID TcpClientState_OK w)))"

definition RpcS2GRpcAccessReport_Process :: "gval list \<Rightarrow> session \<Rightarrow> gate_world \<Rightarrow> gate_world proc" where
  "RpcS2GRpcAccessReport_Process req session w =
     (None, None,
      w\<lparr>gClientAccess := (gClientAccess w)(as_str (req ! 0) \<mapsto> map_of (map (\<lambda>(k, v). (k, as_bool v)) (as_map (req ! 1))))\<rparr>)"

section \<open>The handlers of a gate\<close>

definition gate_user :: "msgpack \<Rightarrow> (nat \<Rightarrow> nat) \<Rightarrow> (gate_h, gate_world) handlers" where
  "gate_user mp intn =
     \<lparr>GetReqPtr = (\<lambda>h. case h of
          G_C2GRpcRoute \<Rightarrow> Some RpcC2GRpcRouteReq
        | G_S2GRpcRsp \<Rightarrow> Some RpcS2GRpcRsp
        | G_GateLogin \<Rightarrow> Some [(''ClientID'', TString)]
        | G_GateLogoff \<Rightarrow> Some [(''ClientID'', TString)]
        | G_ReqListenAddr \<Rightarrow> None
        | G_P2GPush \<Rightarrow> Some RpcP2GPushReq
        | G_C2GVertify \<Rightarrow> Some [(''SecretKey'', TString)]
        | G_S2GRpcAccessReport \<Rightarrow> Some [(''ServiceKey'', TString), (''Access'', TBoolMap)]),
      ClientAccess = (\<lambda>_. None),
      Process = (\<lambda>h req session w. case h of
          G_C2GRpcRoute \<Rightarrow> RpcC2GRpcRoute_Process mp intn (as_route_req req) session w
        | G_S2GRpcRsp \<Rightarrow> RpcS2GRpcRsp_Process mp req session w
        | G_GateLogin \<Rightarrow> RpcGateLogin_Process req session w
        | G_GateLogoff \<Rightarrow> RpcGateLogoff_Process req session w
        | G_ReqListenAddr \<Rightarrow> RpcReqListenAddr_Process mp session w
        | G_P2GPush \<Rightarrow> RpcP2GPush_Process mp req session w
        | G_C2GVertify \<Rightarrow> RpcC2GVertify_Process req session w
        | G_S2GRpcAccessReport \<Rightarrow> RpcS2GRpcAccessReport_Process req session w)\<rparr>"

definition gate_handlers :: "msgpack \<Rightarrow> (nat \<Rightarrow> nat) \<Rightarrow> nat \<Rightarrow> (gate_h handler, gate_world) handlers" where
  "gate_handlers mp intn n = process_handlers mp (gate_user mp intn) n"

text \<open>The registrations of \<open>main\<close>, and the identity it sets.\<close>

definition gate_registrations :: "(string \<times> gate_h handler) list" where
  "gate_registrations =
     [(MSG_C2G_RPC_ROUTE, H_User G_C2GRpcRoute), (MSG_S2G_RPC_RSP, H_User G_S2GRpcRsp),
      (MSG_GATE_LOGIN, H_User G_GateLogin), (MSG_GATE_LOGOFF, H_User G_GateLogoff),
      (MSG_P2G_REQ_LISTENADDR, H_User G_ReqListenAddr), (MSG_P2G_PUSH, H_User G_P2GPush),
      (MSG_C2G_VERTIFY, H_User G_C2GVertify), (MSG_S2G_RPC_ACCESS_REPORT, H_User G_S2GRpcAccessReport)]"

definition gate_identity :: "string \<Rightarrow> server_identity res" where
  "gate_identity service =
     (if ''ServiceGate'' = service then Inr SERVER_IDENTITY_SERVICE_GATE
      else if ''ClientGate'' = service then Inr SERVER_IDENTITY_CLIENT_GATE
      else Inl (ExplicitPanic (''error service cfg '' @ service)))"

definition gate_rpcMgr :: "msgpack \<Rightarrow> (nat \<Rightarrow> nat) \<Rightarrow> nat \<Rightarrow> gate_h handler SimpleRpcMgr res" where
  "gate_rpcMgr mp intn n = start_registry (gate_handlers mp intn n) gate_registrations"

definition gate_main ::
  "msgpack \<Rightarrow> (nat \<Rightarrow> nat) \<Rightarrow> nat \<Rightarrow> GlobalConfig \<Rightarrow> string \<Rightarrow> string \<Rightarrow> db \<Rightarrow> int \<Rightarrow> (conn \<Rightarrow> bytes \<Rightarrow> nat \<times> bool) \<Rightarrow> gate_world res" where
  "gate_main mp intn n c localIP addr rc t nw =
     res_bind (gate_identity (Service c)) (\<lambda>identity.
       res_bind (gate_rpcMgr mp intn n) (\<lambda>r.
         Inr (world.extend (Init c identity localIP r t nw)
                \<lparr>gClientAccess = Map.empty, listenAddr = addr, gdb = rc\<rparr>)))"

section \<open>Lemmas on the routing handlers\<close>

lemma RpcFvcCount_simps [simp]:
  "out (RpcFvcCount w) = out w" "netWrite (RpcFvcCount w) = netWrite w" "remoteMgr (RpcFvcCount w) = remoteMgr w"
  "cbMgr (RpcFvcCount w) = cbMgr w" "globalGID (RpcFvcCount w) = globalGID w" "tcpServer (RpcFvcCount w) = tcpServer w"
  "serverIdentity (RpcFvcCount w) = serverIdentity w" "now (RpcFvcCount w) = now w" "rpcMgr (RpcFvcCount w) = rpcMgr w"
  by (simp_all add: RpcFvcCount_def)

lemma gClientAccess_RpcFvcCount [simp]: "gClientAccess (RpcFvcCount w) = gClientAccess w"
  by (simp add: RpcFvcCount_def)

lemma route_check_RpcFvcCount [simp]: "route_check mp req session (RpcFvcCount w) = route_check mp req session w"
  by (simp add: route_check_def)

lemma rpc_send_sends:
  assumes "MessageEncode (RpcEncode mp name args) = Inr m" "m \<noteq> []" "netWrite w = good_net"
  shows "rpc_send mp (Some c) name args w = (Inr True, w\<lparr>out := out w @ [(c, m)]\<rparr>)"
  using assms by (simp add: rpc_send_def MessageSend_def good_net_def)

lemma no_rsp_rpc_send:
  "no_rsp (rpc_send mp (Some c) name args w) = (e, x, w') \<Longrightarrow>
     x = None \<and> (\<exists>ms. w' = w\<lparr>out := out w @ ms\<rparr> \<and> (\<forall>y\<in>set ms. fst y = c))"
  by (auto simp: no_rsp_def rpc_send_def MessageSend_def split: sum.splits prod.splits if_splits
      intro: exI [of _ "[]"])

lemma route_error_out:
  assumes "route_error mp req session err w = (e, x, w')"
  shows "x = None \<and> (\<exists>ms. w' = w\<lparr>out := out w @ ms\<rparr> \<and> (\<forall>y\<in>set ms. fst y = sconn session) \<and> (rRid req = 0 \<longrightarrow> ms = []))"
proof (cases "rRid req = 0")
  case True
  then show ?thesis using assms by (auto simp: route_error_def intro: exI [of _ "[]"])
next
  case False
  then have "no_rsp (rpc_send mp (Some (sconn session)) MSG_G2C_RPC_RSP [vu32 (rRid req), VStr err, VNil] w) = (e, x, w')"
    using assms by (simp add: route_error_def)
  from no_rsp_rpc_send [OF this] False show ?thesis by simp
qed

text \<open>The forwarding branch of the route handler, from the choice of the connection on.\<close>

lemma route_forward:
  assumes "cb_wf (cbMgr w)" "route_check mp req session w = []"
    "ChoiceRemote intn (GetRemoteID (rNameSpace req) (rService req)) (rIsOrdered req) (sconn session) (remoteMgr w) =
       (Inr (Some r), m)"
  defines "grid \<equiv> if rRid req = 0 then 0 else globalGID w + 1"
  defines "msg \<equiv> if rIsOrdered req then MSG_G2S_RPC_CALL_ORDERED else MSG_G2S_RPC_CALL"
  shows "\<exists>cm. RpcC2GRpcRoute_Process mp intn req session w =
      no_rsp (rpc_send mp (Some (rconn r)) msg [vu32 grid, VBytes (rInnerRpc req)]
        ((RpcFvcCount w)\<lparr>remoteMgr := m, globalGID := (if rRid req = 0 then globalGID w else grid), cbMgr := cm\<rparr>))
    \<and> cb_wf cm
    \<and> cb_lookup cm = (if rRid req = 0 then cb_lookup (cbMgr w)
         else (cb_lookup (cbMgr w))(grid \<mapsto> [ARoute (route_cbInfo mp req session w)]))"
proof (cases "rRid req = 0")
  case True
  then have "RpcC2GRpcRoute_Process mp intn req session w =
      no_rsp (rpc_send mp (Some (rconn r)) msg [vu32 grid, VBytes (rInnerRpc req)] ((RpcFvcCount w)\<lparr>remoteMgr := m\<rparr>))"
    using assms(2,3) by (simp add: RpcC2GRpcRoute_Process_def Let_def GetConnID_def grid_def msg_def)
  also have "(RpcFvcCount w)\<lparr>remoteMgr := m\<rparr> =
      (RpcFvcCount w)\<lparr>remoteMgr := m, globalGID := (if rRid req = 0 then globalGID w else grid), cbMgr := cbMgr w\<rparr>"
    using True by (simp add: RpcFvcCount_def)
  finally show ?thesis using True assms(1) by (intro exI [of _ "cbMgr w"] conjI) simp_all
next
  case False
  let ?w2 = "(RpcFvcCount w)\<lparr>remoteMgr := m, globalGID := grid\<rparr>"
  have info: "route_cbInfo mp req session ?w2 = route_cbInfo mp req session w" by (simp add: route_cbInfo_def)
  obtain cm where cm: "add_callback grid [ARoute (route_cbInfo mp req session w)] 101 None ?w2 = (Inr (), ?w2\<lparr>cbMgr := cm\<rparr>)"
    "cb_wf cm" "cb_lookup cm = (cb_lookup (cbMgr w))(grid \<mapsto> [ARoute (route_cbInfo mp req session w)])"
    using add_callback_law [of ?w2 grid "[ARoute (route_cbInfo mp req session w)]" 101 None] assms(1) by auto
  have gid: "NewGid ((RpcFvcCount w)\<lparr>remoteMgr := m\<rparr>) = (grid, ?w2)"
    using False by (simp add: NewGid_def grid_def)
  have "RpcC2GRpcRoute_Process mp intn req session w =
      no_rsp (rpc_send mp (Some (rconn r)) msg [vu32 grid, VBytes (rInnerRpc req)] (?w2\<lparr>cbMgr := cm\<rparr>))"
    using False assms(2,3) cm(1) gid info by (simp add: RpcC2GRpcRoute_Process_def Let_def GetConnID_def msg_def)
  with False cm(2,3) show ?thesis by (intro exI [of _ cm]) simp
qed

text \<open>The handler of a response.\<close>

lemma rsp_unknown:
  assumes "cb_wf (cbMgr w)" "cb_lookup (cbMgr w) (as_u32 (req ! 0)) = None"
  shows "\<exists>cm. RpcS2GRpcRsp_Process mp req session w = (None, None, w\<lparr>cbMgr := cm\<rparr>) \<and> cb_wf cm \<and> cb_lookup cm = cb_lookup (cbMgr w)"
proof -
  obtain cm where cm: "get_callback (as_u32 (req ! 0)) w = (None, w\<lparr>cbMgr := cm\<rparr>)" "cb_wf cm"
    "cb_lookup cm = (cb_lookup (cbMgr w))(as_u32 (req ! 0) := None)"
    using get_callback_law [OF assms(1), of "as_u32 (req ! 0)"] assms(2) by auto
  then have "cb_lookup cm = cb_lookup (cbMgr w)" using assms(2) by auto
  with cm show ?thesis by (auto simp: RpcS2GRpcRsp_Process_def)
qed

lemma rsp_known:
  assumes "cb_wf (cbMgr w)" "cb_lookup (cbMgr w) (as_u32 (req ! 0)) = Some [ARoute info]"
  shows "\<exists>cm. cb_wf cm \<and> cb_lookup cm = (cb_lookup (cbMgr w))(as_u32 (req ! 0) := None) \<and>
    RpcS2GRpcRsp_Process mp req session w =
      (case rsp_conn (cb_connID info) w of
         None \<Rightarrow> (None, None, w\<lparr>cbMgr := cm\<rparr>)
       | Some c \<Rightarrow> no_rsp (rpc_send mp (Some c) MSG_G2C_RPC_RSP [vu32 (cb_rid info), req ! 1, req ! 2] (w\<lparr>cbMgr := cm\<rparr>)))"
proof -
  obtain cm where cm: "get_callback (as_u32 (req ! 0)) w = (Some [ARoute info], w\<lparr>cbMgr := cm\<rparr>)" "cb_wf cm"
    "cb_lookup cm = (cb_lookup (cbMgr w))(as_u32 (req ! 0) := None)"
    using get_callback_law [OF assms(1), of "as_u32 (req ! 0)"] assms(2) by auto
  have "rsp_conn (cb_connID info) (w\<lparr>cbMgr := cm\<rparr>) = rsp_conn (cb_connID info) w"
    by (simp add: rsp_conn_def GetTcpClient_def GetRemote_def split: option.splits)
  with cm show ?thesis by (auto simp: RpcS2GRpcRsp_Process_def)
qed

lemma rsp_conn_addr:
  assumes "server_inv (tcpServer w)" "remote_inv (remoteMgr w)" "rsp_conn k w = Some c"
  shows "c = k"
  using assms by (auto simp: rsp_conn_def GetTcpClient_def GetRemote_def server_inv_def remote_invD(1) split: option.splits)

section \<open>Properties\<close>


text \<open>A client gate that knows \<open>ns:ServiceA\<close>, whose \<open>rpc_b\<close> is open to clients and \<open>rpc_db_test\<close> is not.\<close>

definition demo_gate :: gate_world where
  "demo_gate =
     (world.extend (Init demo_cfg SERVER_IDENTITY_CLIENT_GATE [] empty_rpcMgr 0 good_net)
        \<lparr>gClientAccess = [''ns:ServiceA'' \<mapsto> [''rpc_b'' \<mapsto> True, ''rpc_db_test'' \<mapsto> False]],
         listenAddr = ''1.1.1.1:8888'', gdb = \<lparr>gDBResource = [''myRedis2'' \<mapsto> RedisClusterClient [''a:1'']], dbAnswer = (\<lambda>_ _. DbOk), dbLog = []\<rparr>\<rparr>)
     \<lparr>remoteMgr := demo_remotes, tcpServer := (tcpServer (demo_server 0))\<rparr>"

lemma demo_gate_simps [simp]:
  "serverIdentity demo_gate = SERVER_IDENTITY_CLIENT_GATE" "remoteMgr demo_gate = demo_remotes"
  "cbMgr demo_gate = new_cbmgr" "netWrite demo_gate = good_net" "out demo_gate = []" "globalGID demo_gate = 0"
  "tcpServer demo_gate = tcpServer (demo_server 0)"
  "gClientAccess demo_gate = [''ns:ServiceA'' \<mapsto> [''rpc_b'' \<mapsto> True, ''rpc_db_test'' \<mapsto> False]]"
  by (simp_all add: demo_gate_def world.defs Init_def)

definition demo_session :: session where
  "demo_session = \<lparr>styp = SessionTcpClient, sconn = ''9.9.9.9:1'', sid = 0\<rparr>"

definition demo_req :: "string \<Rightarrow> route_req" where
  "demo_req name = \<lparr>rNameSpace = ''ns'', rService = ''ServiceA'', rRid = 7, rIsOrdered = False,
     rInnerRpc = RpcEncode mp_codec name [vu32 10]\<rparr>"

lemma demo_req_simps [simp]:
  "rNameSpace (demo_req n) = ''ns''" "rService (demo_req n) = ''ServiceA''" "rRid (demo_req n) = 7"
  "rIsOrdered (demo_req n) = False"
  "styp demo_session = SessionTcpClient" "sconn demo_session = ''9.9.9.9:1''"
  by (simp_all add: demo_req_def demo_session_def)

lemma demo_req_name [simp]: "length name < 2 ^ 32 \<Longrightarrow> fst (decode_name mp_codec (rInnerRpc (demo_req name))) = name"
  by (simp add: demo_req_def decode_name_RpcEncode [OF codec_ok_mp])


lemma route_forwarded:
  assumes "remote_inv (remoteMgr w)" "cb_wf (cbMgr w)" "netWrite w = good_net"
    "route_check mp req session w = []" "\<not> rIsOrdered req" "rRid req \<noteq> 0"
    "remotes (remoteMgr w) c0 = Some r0" "remoteId r0 = GetRemoteID (rNameSpace req) (rService req)"
    "MessageEncode (RpcEncode mp MSG_G2S_RPC_CALL [vu32 (globalGID w + 1), VBytes (rInnerRpc req)]) = Inr m" "m \<noteq> []"
  shows "\<exists>r w'. RpcC2GRpcRoute_Process mp intn req session w = (None, None, w')
    \<and> remotes (remoteMgr w) (rconn r) = Some r \<and> remoteId r = GetRemoteID (rNameSpace req) (rService req)
    \<and> out w' = out w @ [(rconn r, m)]
    \<and> globalGID w' = globalGID w + 1
    \<and> cb_lookup (cbMgr w') = (cb_lookup (cbMgr w))(globalGID w + 1 \<mapsto> [ARoute (route_cbInfo mp req session w)])
    \<and> cb_wf (cbMgr w') \<and> remote_inv (remoteMgr w')
    \<and> tcpServer w' = tcpServer w \<and> netWrite w' = good_net \<and> rpcMgr w' = rpcMgr w"
proof -
  obtain res m1 where c: "ChoiceRemote intn (GetRemoteID (rNameSpace req) (rService req)) False (sconn session) (remoteMgr w) = (Inr res, m1)"
    "remote_inv m1"
    "res = None \<longleftrightarrow> (\<forall>c r. remotes (remoteMgr w) c = Some r \<longrightarrow> remoteId r \<noteq> GetRemoteID (rNameSpace req) (rService req))"
    "\<forall>r. res = Some r \<longrightarrow> remotes (remoteMgr w) (rconn r) = Some r \<and> remoteId r = GetRemoteID (rNameSpace req) (rService req)"
    using ChoiceRemote_unordered [OF assms(1), of intn "GetRemoteID (rNameSpace req) (rService req)" "sconn session"] by blast
  have "res \<noteq> None" using c(3) assms(7,8) by blast
  then obtain r where r: "res = Some r" by blast
  have ch: "ChoiceRemote intn (GetRemoteID (rNameSpace req) (rService req)) (rIsOrdered req) (sconn session) (remoteMgr w) = (Inr (Some r), m1)"
    using c(1) r assms(5) by simp
  have ifs: "(if rRid req = 0 then x else y) = y" "(if rIsOrdered req then p else q) = q" for x y :: u32 and p q :: string
    using assms(5,6) by simp_all
  obtain cm where cm: "RpcC2GRpcRoute_Process mp intn req session w =
      no_rsp (rpc_send mp (Some (rconn r)) MSG_G2S_RPC_CALL [vu32 (globalGID w + 1), VBytes (rInnerRpc req)]
        ((RpcFvcCount w)\<lparr>remoteMgr := m1, globalGID := globalGID w + 1, cbMgr := cm\<rparr>))"
    "cb_wf cm" "cb_lookup cm = (if rRid req = 0 then cb_lookup (cbMgr w)
       else (cb_lookup (cbMgr w))(globalGID w + 1 \<mapsto> [ARoute (route_cbInfo mp req session w)]))"
    using route_forward [OF assms(2,4) ch, unfolded ifs] by blast
  have nw: "netWrite ((RpcFvcCount w)\<lparr>remoteMgr := m1, globalGID := globalGID w + 1, cbMgr := cm\<rparr>) = good_net"
    using assms(3) by simp
  show ?thesis
    unfolding cm(1) rpc_send_sends [OF assms(9,10) nw] using c(2,4) r cm(2,3) assms(3,6)
    by (intro exI [of _ r]) (simp add: no_rsp_def)
qed

text \<open>A permitted request that expects a response is forwarded to exactly one connected instance of the requested
  service, as one \<open>MSG_G2S_RPC_CALL\<close> with a new request identifier and the unchanged inner rpc; the callback registered under
  that identifier holds the client's own \<open>Rid\<close> and connection, and every other pending callback is kept.\<close>

theorem route_forwards_request:
  assumes "remote_inv (remoteMgr w)" "cb_wf (cbMgr w)" "netWrite w = good_net"
    "route_check mp req session w = []" "\<not> rIsOrdered req" "rRid req \<noteq> 0"
    "remotes (remoteMgr w) c0 = Some r0" "remoteId r0 = GetRemoteID (rNameSpace req) (rService req)"
    "MessageEncode (RpcEncode mp MSG_G2S_RPC_CALL [vu32 (globalGID w + 1), VBytes (rInnerRpc req)]) = Inr m" "m \<noteq> []"
  shows "\<exists>r w'. RpcC2GRpcRoute_Process mp intn req session w = (None, None, w')
    \<and> remotes (remoteMgr w) (rconn r) = Some r \<and> remoteId r = GetRemoteID (rNameSpace req) (rService req)
    \<and> out w' = out w @ [(rconn r, m)]
    \<and> globalGID w' = globalGID w + 1
    \<and> cb_lookup (cbMgr w') = (cb_lookup (cbMgr w))(globalGID w + 1 \<mapsto> [ARoute (route_cbInfo mp req session w)])
    \<and> cb_wf (cbMgr w') \<and> remote_inv (remoteMgr w')"
  using route_forwarded [OF assms] by blast

theorem route_forwards_request_witness:
  "\<exists>(r :: Remote) w'. RpcC2GRpcRoute_Process mp_codec id (demo_req ''rpc_b'') demo_session demo_gate = (None, None, w')
    \<and> remoteId r = ''ns:ServiceA'' \<and> map fst (out w') = [rconn r] \<and> globalGID w' = 1"
proof -
  obtain r0 where r0: "remotes demo_remotes ''10.0.0.1:80'' = Some r0" "remoteId r0 = ''ns:ServiceA''"
    using demo_remotes_map(1) by auto
  have chk: "route_check mp_codec (demo_req ''rpc_b'') demo_session demo_gate = []"
    by (simp add: route_check_def)
  obtain m where m: "MessageEncode (RpcEncode mp_codec MSG_G2S_RPC_CALL [vu32 1, VBytes (rInnerRpc (demo_req ''rpc_b''))]) = Inr m" "m \<noteq> []"
    by (simp add: MessageEncode_ok RpcEncode_def mp_codec_def put_str_def msg_names demo_req_def vu32_def be32_def)
  have "\<exists>r w'. RpcC2GRpcRoute_Process mp_codec id (demo_req ''rpc_b'') demo_session demo_gate = (None, None, w')
    \<and> remotes (remoteMgr demo_gate) (rconn r) = Some r \<and> remoteId r = GetRemoteID (rNameSpace (demo_req ''rpc_b'')) (rService (demo_req ''rpc_b''))
    \<and> out w' = out demo_gate @ [(rconn r, m)]
    \<and> globalGID w' = globalGID demo_gate + 1
    \<and> cb_lookup (cbMgr w') = (cb_lookup (cbMgr demo_gate))(globalGID demo_gate + 1 \<mapsto> [ARoute (route_cbInfo mp_codec (demo_req ''rpc_b'') demo_session demo_gate)])
    \<and> cb_wf (cbMgr w') \<and> remote_inv (remoteMgr w')"
    by (rule route_forwards_request [of _ _ _ _ "''10.0.0.1:80''" r0])
      (use r0 m chk demo_remotes_inv in \<open>simp_all add: GetRemoteID_def\<close>)
  then obtain r :: Remote and w' where "RpcC2GRpcRoute_Process mp_codec id (demo_req ''rpc_b'') demo_session demo_gate = (None, None, w')"
    "remoteId r = GetRemoteID (rNameSpace (demo_req ''rpc_b'')) (rService (demo_req ''rpc_b''))"
    "out w' = out demo_gate @ [(rconn r, m)]" "globalGID w' = globalGID demo_gate + 1"
    by blast
  then show ?thesis by (intro exI [of _ r] exI [of _ w']) (simp add: GetRemoteID_def)
qed

text \<open>A service's response to a routed request goes back exactly once: the client that asked (the connection stored in
  the callback) gets one \<open>MSG_G2C_RPC_RSP\<close> with its own \<open>Rid\<close> and the service's error and reply, and a second response
  with the same identifier changes nothing but the callback manager's bookkeeping and sends nothing.\<close>

theorem response_forwarded_once:
  assumes "cb_wf (cbMgr w)" "server_inv (tcpServer w)" "remote_inv (remoteMgr w)" "netWrite w = good_net"
    "cb_lookup (cbMgr w) (as_u32 (req ! 0)) = Some [ARoute info]" "rsp_conn (cb_connID info) w \<noteq> None"
    "MessageEncode (RpcEncode mp MSG_G2C_RPC_RSP [vu32 (cb_rid info), req ! 1, req ! 2]) = Inr m" "m \<noteq> []"
  shows "\<exists>w1 cm. RpcS2GRpcRsp_Process mp req session w = (None, None, w1) \<and> out w1 = out w @ [(cb_connID info, m)]
    \<and> cb_lookup (cbMgr w1) = (cb_lookup (cbMgr w))(as_u32 (req ! 0) := None)
    \<and> RpcS2GRpcRsp_Process mp req session2 w1 = (None, None, w1\<lparr>cbMgr := cm\<rparr>) \<and> cb_lookup cm = cb_lookup (cbMgr w1)"
proof -
  obtain cm where cm: "cb_wf cm" "cb_lookup cm = (cb_lookup (cbMgr w))(as_u32 (req ! 0) := None)"
    "RpcS2GRpcRsp_Process mp req session w =
      (case rsp_conn (cb_connID info) w of
         None \<Rightarrow> (None, None, w\<lparr>cbMgr := cm\<rparr>)
       | Some c \<Rightarrow> no_rsp (rpc_send mp (Some c) MSG_G2C_RPC_RSP [vu32 (cb_rid info), req ! 1, req ! 2] (w\<lparr>cbMgr := cm\<rparr>)))"
    using rsp_known [OF assms(1,5), of mp session] by blast
  have c: "rsp_conn (cb_connID info) w = Some (cb_connID info)"
    using rsp_conn_addr [OF assms(2,3)] assms(6) by blast
  have nw: "netWrite (w\<lparr>cbMgr := cm\<rparr>) = good_net" using assms(4) by simp
  let ?w1 = "w\<lparr>cbMgr := cm, out := out w @ [(cb_connID info, m)]\<rparr>"
  have p: "RpcS2GRpcRsp_Process mp req session w = (None, None, ?w1)"
    unfolding cm(3) c option.case rpc_send_sends [OF assms(7,8) nw] by (simp add: no_rsp_def)
  have "cb_wf (cbMgr ?w1)" "cb_lookup (cbMgr ?w1) (as_u32 (req ! 0)) = None" using cm by simp_all
  from rsp_unknown [OF this, of mp session2] obtain cm2 where
    "RpcS2GRpcRsp_Process mp req session2 ?w1 = (None, None, ?w1\<lparr>cbMgr := cm2\<rparr>)" "cb_lookup cm2 = cb_lookup (cbMgr ?w1)" by blast
  with p cm(2) show ?thesis by (intro exI [of _ ?w1] exI [of _ cm2]) simp
qed

lemma demo_server_inv: "server_inv (tcpServer (demo_server t)\<lparr>slb := snd (AddElement new_LoadBalancer ''9.9.9.9:1'')\<rparr>)"
  by (auto simp: server_inv_def demo_server_client lb_wf_AddElement demo_client_def split: if_splits)

definition demo_info :: C2GRouteCbInfo where
  "demo_info = \<lparr>cb_rid = 7, cb_connID = ''9.9.9.9:1'', cb_nameSpace = ''ns'', cb_service = ''ServiceA'', cb_rpcName = ''rpc_b'',
     cb_createTime = 0\<rparr>"

definition demo_pending :: gate_world where
  "demo_pending = demo_gate\<lparr>cbMgr := the (AddCallBack 1 [ARoute demo_info] 101 None 0 new_cbmgr),
     tcpServer := (tcpServer (demo_server 0))\<lparr>slb := snd (AddElement new_LoadBalancer ''9.9.9.9:1'')\<rparr>\<rparr>"

lemma demo_pending_cb: "cb_wf (cbMgr demo_pending) \<and> cb_lookup (cbMgr demo_pending) 1 = Some [ARoute demo_info]"
proof -
  let ?n = "new_cbmgr :: (gany list, timeout_cb) cbmgr"
  have "\<exists>m. AddCallBack 1 [ARoute demo_info] 101 None 0 ?n = Some m \<and> cb_wf m
      \<and> cb_lookup m = (cb_lookup ?n)(1 \<mapsto> [ARoute demo_info])"
    by (rule cb.add_law [OF cb_wf_new])
  then obtain m where m: "AddCallBack 1 [ARoute demo_info] 101 None 0 ?n = Some m" "cb_wf m"
    "cb_lookup m = (cb_lookup ?n)(1 \<mapsto> [ARoute demo_info])"
    by blast
  have "cbMgr demo_pending = m" by (simp add: demo_pending_def m(1))
  then show ?thesis using m(2,3) by simp
qed

theorem response_forwarded_once_witness:
  "\<exists>w1. RpcS2GRpcRsp_Process mp_codec [vu32 1, VStr [], VMap [(''Success'', VBool True)]] demo_session demo_pending = (None, None, w1)
     \<and> map fst (out w1) = [''9.9.9.9:1'']"
proof -
  let ?req = "[vu32 1, VStr [], VMap [(''Success'', VBool True)]]"
  obtain m where m: "MessageEncode (RpcEncode mp_codec MSG_G2C_RPC_RSP [vu32 (cb_rid demo_info), ?req ! 1, ?req ! 2]) = Inr m" "m \<noteq> []"
    by (simp add: MessageEncode_ok RpcEncode_def mp_codec_def put_str_def msg_names vu32_def be32_def)
  have inv: "server_inv (tcpServer demo_pending)" "remote_inv (remoteMgr demo_pending)" "netWrite demo_pending = good_net"
    "out demo_pending = []"
    using demo_server_inv [of 0] demo_remotes_inv by (simp_all add: demo_pending_def)
  have "rsp_conn (cb_connID demo_info) demo_pending \<noteq> None"
    by (simp add: rsp_conn_def GetTcpClient_def demo_pending_def demo_server_client demo_info_def)
  from response_forwarded_once [OF conjunct1 [OF demo_pending_cb] inv(1-3), of ?req demo_info mp_codec m demo_session demo_session]
    this m demo_pending_cb inv(4)
  show ?thesis by (auto simp: demo_info_def)
qed

section \<open>Verification of clients\<close>

lemma gate_rpcMgr_ok:
  "\<exists>r. gate_rpcMgr mp intn n = Inr r \<and> rpcs r = map_of (default_handlers @ gate_registrations) \<and> stopRegist r
     \<and> registry_wf (gate_handlers mp intn n) r"
  unfolding gate_rpcMgr_def
  by (rule start_registry_ok) (simp_all add: gate_registrations_def default_handlers_def msg_names)

lemma RpcDecode_rejects:
  assumes "GetTcpClient (sconn session) w = Some c" "styp session = SessionTcpClient" "state c \<noteq> TcpClientState_OK"
    "fst (decode_name mp buf) \<noteq> MSG_C2G_VERTIFY"
  shows "RpcDecode mp hs session buf w = (Inr (), SetState (sconn session) TcpClientState_EXIT w)"
  using assms by (cases "decode_name mp buf") (simp add: RpcDecode_def PreCheck_def GetConnID_def Let_def)

lemma SetState_client:
  "clients (tcpServer (SetState k st w)) = (clients (tcpServer w))(k := map_option (\<lambda>c. c\<lparr>state := st\<rparr>) (clients (tcpServer w) k))"
  by (simp add: SetState_def)


definition demo_unverified :: gate_world where
  "demo_unverified = SetState ''9.9.9.9:1'' TcpClientState_Init demo_gate"

lemma demo_unverified_client:
  "GetTcpClient (sconn demo_session) demo_unverified = Some (demo_client\<lparr>state := TcpClientState_Init\<rparr>)"
  by (simp add: GetTcpClient_def demo_unverified_def SetState_client demo_server_client)


text \<open>Property C22. Verification: on a running gate, a \<open>MSG_C2G_VERTIFY\<close> packet of a connected client is handled at once (it is not queued)
  and puts the client into the verified state exactly when the key is the secret key; with any other key nothing
  changes. The state the client is in before does not matter: a client that was marked for exit is revived.\<close>

theorem verify_accepts_exactly_the_key:
  assumes "codec_ok mp" "gate_rpcMgr mp intn n = Inr (rpcMgr w)" "GetTcpClient (sconn session) w = Some c"
    "length key < 2 ^ 32"
  shows "RpcDecode mp (gate_handlers mp intn n) session (RpcEncode mp MSG_C2G_VERTIFY [VStr key]) w =
    (Inr (), if key = VERTIFY_SECRET_KEY then SetState (sconn session) TcpClientState_OK w else w)"
proof -
  have reg: "rpcs (rpcMgr w) MSG_C2G_VERTIFY = Some (H_User G_C2GVertify)"
    using gate_rpcMgr_ok [of mp intn n] assms(2)
    by (auto simp: default_handlers_def gate_registrations_def msg_names)
  have name: "decode_name mp (RpcEncode mp MSG_C2G_VERTIFY [VStr key]) = (MSG_C2G_VERTIFY, fst (enc mp (VStr key)))"
    using decode_name_RpcEncode [OF assms(1), of MSG_C2G_VERTIFY "[VStr key]"] by (simp add: msg_names)
  have fields: "decode_fields mp [(''SecretKey'', TString)] (fst (enc mp (VStr key))) = Inr [VStr key]"
    using decode_fields_args [OF assms(1), of "[VStr key]" "[(''SecretKey'', TString)]" "[]"] assms(4) by simp
  show ?thesis
    using assms(3) reg fields
    by (simp add: RpcDecode_def name PreCheck_def run_task_def GetRpcHanderGenerator_def gate_handlers_def gate_user_def
        RpcC2GVertify_Process_def GetConnID_def Let_def)
qed

definition demo_exiting :: gate_world where
  "demo_exiting = (SetState ''9.9.9.9:1'' TcpClientState_EXIT demo_gate)\<lparr>rpcMgr := projr (gate_rpcMgr mp_codec id 1)\<rparr>"

theorem verify_accepts_exactly_the_key_witness:
  "RpcDecode mp_codec (gate_handlers mp_codec id 1) demo_session (RpcEncode mp_codec MSG_C2G_VERTIFY [VStr VERTIFY_SECRET_KEY]) demo_exiting =
     (Inr (), SetState ''9.9.9.9:1'' TcpClientState_OK demo_exiting)"
proof -
  have "gate_rpcMgr mp_codec id 1 = Inr (rpcMgr demo_exiting)"
    using gate_rpcMgr_ok [of mp_codec id 1] by (auto simp: demo_exiting_def)
  moreover have "GetTcpClient (sconn demo_session) demo_exiting = Some (demo_client\<lparr>state := TcpClientState_EXIT\<rparr>)"
    by (simp add: GetTcpClient_def demo_exiting_def SetState_client demo_server_client)
  moreover have "length VERTIFY_SECRET_KEY < 2 ^ 32" by (simp add: VERTIFY_SECRET_KEY_def)
  ultimately show ?thesis
    using verify_accepts_exactly_the_key [OF codec_ok_mp, of id 1 demo_exiting demo_session _ VERTIFY_SECRET_KEY] by simp
qed

text \<open>The gate's registry: start-up registers every handler without a clash, the table maps each message name to its
  handler, none of the gate's own handlers is open to clients by permission, and after start-up every further
  registration panics.\<close>

theorem gate_registry_complete:
  "\<exists>r. gate_rpcMgr mp intn n = Inr r \<and> rpcs r = map_of (default_handlers @ gate_registrations)
     \<and> (\<forall>name. map_of (clientAccess r) name = (if rpcs r name = None then None else Some False))
     \<and> (\<forall>name g. RegistRpcHandler (gate_handlers mp intn n) name g r = Inl (ExplicitPanic ''can not retist rpc handler now''))"
proof -
  obtain r where r: "gate_rpcMgr mp intn n = Inr r" "rpcs r = map_of (default_handlers @ gate_registrations)" "stopRegist r"
    "registry_wf (gate_handlers mp intn n) r" using gate_rpcMgr_ok by blast
  have no: "ClientAccess (gate_handlers mp intn n) h = None" for h
    by (simp add: gate_handlers_def gate_user_def split: handler.splits)
  have "map_of (clientAccess r) name = (if rpcs r name = None then None else Some False)" for name
    using r(4) by (auto simp: registry_wf_def no)
  moreover have "RegistRpcHandler (gate_handlers mp intn n) name g r = Inl (ExplicitPanic ''can not retist rpc handler now'')" for name g
    using r(3) by (simp add: RegistRpcHandler_def)
  ultimately show ?thesis using r(1,2) by blast
qed

end
