(* ===== verification/Rpc_Call.thy ===== *)
theory Rpc_Call
  imports Tcp_Server
begin

text \<open>
  The calling side of the framework (\<open>RpcCall\<close>, \<open>RpcCallSync\<close>, \<open>RpcCallAsync\<close> and the push functions of
  \<open>ms_framework/msf_simple_rpc.go\<close>). A call blocks in the middle, on the channel its response arrives on:
  \<open>RpcCall_send\<close> is the part up to there and \<open>RpcCall_recv\<close> the part after, which may start the call again. A time-out
  of the callback manager reaches the call through \<open>run_timeouts\<close>.
\<close>

section \<open>Operations\<close>

datatype call_status = Returned string gval | Waiting nat

definition timeout_text :: "string \<Rightarrow> string \<Rightarrow> string \<Rightarrow> string" where
  "timeout_text ns svc rpc = ''s2s rpc call ['' @ ns @ '':'' @ svc @ '':'' @ rpc @ ''] time out''"

definition RpcCall_send ::
  "msgpack \<Rightarrow> (nat \<Rightarrow> nat) \<Rightarrow> string \<Rightarrow> string \<Rightarrow> u32 \<Rightarrow> gval list \<Rightarrow> ('h, 'b) world_scheme \<Rightarrow>
     call_status res \<times> ('h, 'b) world_scheme" where
  "RpcCall_send mp intn serviceName rpcName rid args w =
     (let innerRpc = RpcEncode mp rpcName args;
          rpc = RpcEncode mp MSG_C2G_RPC_ROUTE
            [VStr (Namespace (cfg w)), VStr serviceName, vu32 rid, VBool False, VBytes innerRpc]
      in case MessageEncode rpc of
           Inl e \<Rightarrow> (Inl e, w)
         | Inr msg \<Rightarrow>
             (case LoadBalance BALANCE_STRATEGY intn (slb (tcpServer w)) of
                Inl e \<Rightarrow> (Inl e, w)
              | Inr (connID, lb) \<Rightarrow>
                  let w1 = w\<lparr>tcpServer := (tcpServer w)\<lparr>slb := lb\<rparr>\<rparr> in
                  (case clients (tcpServer w1) connID of
                     None \<Rightarrow> (Inr (Returned [] VNil), w1)
                   | Some client \<Rightarrow>
                       let ch = nextChan w1; w2 = w1\<lparr>nextChan := Suc ch\<rparr> in
                       (case (if rid \<noteq> 0
                              then add_callback rid [AChan ch] 33
                                     (Some (SendTimeout ch (timeout_text (Namespace (cfg w2)) serviceName rpcName))) w2
                              else (Inr (), w2)) of
                          (Inl e, w3) \<Rightarrow> (Inl e, w3)
                        | (Inr _, w3) \<Rightarrow>
                            (case MessageSend (Some (cconn client)) msg w3 of
                               (False, w4) \<Rightarrow> (Inr (Returned [] VNil), w4)
                             | (True, w4) \<Rightarrow>
                                 if rid \<noteq> 0 then (Inr (Waiting ch), w4\<lparr>chanRecv := insert ch (chanRecv w4)\<rparr>)
                                 else (Inr (Returned [] VNil), w4))))))"

definition RpcCall_recv ::
  "msgpack \<Rightarrow> (nat \<Rightarrow> nat) \<Rightarrow> string \<Rightarrow> string \<Rightarrow> int \<Rightarrow> gval list \<Rightarrow> call_rsp \<Rightarrow> ('h, 'b) world_scheme \<Rightarrow>
     call_status res \<times> ('h, 'b) world_scheme" where
  "RpcCall_recv mp intn serviceName rpcName reSendCnt args rsp w =
     (case rsp of
        RspTimeout err \<Rightarrow>
          if reSendCnt > 0
          then (case NewGid w of (gid, w1) \<Rightarrow> RpcCall_send mp intn serviceName rpcName gid args w1)
          else (Inr (Returned err VNil), w)
      | RspReply err reply \<Rightarrow> (Inr (Returned err reply), w))"

text \<open>A whole call: the channel delivers the messages \<open>rsps\<close> in turn, each to the attempt that is waiting.\<close>

fun RpcCall_run ::
  "msgpack \<Rightarrow> (nat \<Rightarrow> nat) \<Rightarrow> string \<Rightarrow> string \<Rightarrow> int \<Rightarrow> gval list \<Rightarrow> call_rsp list \<Rightarrow>
     call_status res \<times> ('h, 'b) world_scheme \<Rightarrow> call_status res \<times> ('h, 'b) world_scheme" where
  "RpcCall_run mp intn svc rpc cnt args [] st = st"
| "RpcCall_run mp intn svc rpc cnt args (r # rs) st =
     (case st of
        (Inr (Waiting ch), w) \<Rightarrow> RpcCall_run mp intn svc rpc (cnt - 1) args rs (RpcCall_recv mp intn svc rpc cnt args r w)
      | _ \<Rightarrow> st)"

definition RpcCall ::
  "msgpack \<Rightarrow> (nat \<Rightarrow> nat) \<Rightarrow> string \<Rightarrow> string \<Rightarrow> u32 \<Rightarrow> int \<Rightarrow> gval list \<Rightarrow> call_rsp list \<Rightarrow> ('h, 'b) world_scheme \<Rightarrow>
     call_status res \<times> ('h, 'b) world_scheme" where
  "RpcCall mp intn svc rpc rid reSendCnt args rsps w =
     RpcCall_run mp intn svc rpc reSendCnt args rsps (RpcCall_send mp intn svc rpc rid args w)"

definition RpcCallSync ::
  "msgpack \<Rightarrow> (nat \<Rightarrow> nat) \<Rightarrow> string \<Rightarrow> string \<Rightarrow> gval list \<Rightarrow> call_rsp list \<Rightarrow> ('h, 'b) world_scheme \<Rightarrow>
     call_status res \<times> ('h, 'b) world_scheme" where
  "RpcCallSync mp intn svc rpc args rsps w =
     (case NewGid w of (rid, w1) \<Rightarrow> RpcCall mp intn svc rpc rid 3 args rsps w1)"

definition RpcCallAsync ::
  "msgpack \<Rightarrow> (nat \<Rightarrow> nat) \<Rightarrow> string \<Rightarrow> string \<Rightarrow> gval list \<Rightarrow> ('h, 'b) world_scheme \<Rightarrow> call_status res \<times> ('h, 'b) world_scheme" where
  "RpcCallAsync mp intn svc rpc args w = RpcCall mp intn svc rpc 0 0 args [] w"

definition PushUnsafe ::
  "msgpack \<Rightarrow> (nat \<Rightarrow> nat) \<Rightarrow> string \<Rightarrow> string \<Rightarrow> string \<Rightarrow> gval list \<Rightarrow> ('h, 'b) world_scheme \<Rightarrow> call_status res \<times> ('h, 'b) world_scheme" where
  "PushUnsafe mp intn clientID tpe rpcName args w =
     RpcCallAsync mp intn ''PushService'' MSG_S2P_PUSH
       [VStr clientID, VStr tpe, VBool False, VBytes (RpcEncode mp rpcName args)] w"

definition PushSafe ::
  "msgpack \<Rightarrow> (nat \<Rightarrow> nat) \<Rightarrow> string \<Rightarrow> string \<Rightarrow> string \<Rightarrow> gval list \<Rightarrow> ('h, 'b) world_scheme \<Rightarrow> call_status res \<times> ('h, 'b) world_scheme" where
  "PushSafe mp intn clientID tpe rpcName args w =
     RpcCallAsync mp intn ''PushService'' MSG_S2P_PUSH
       [VStr clientID, VStr tpe, VBool True, VBytes (RpcEncode mp rpcName args)] w"

definition PushServerUnsafe ::
  "msgpack \<Rightarrow> (nat \<Rightarrow> nat) \<Rightarrow> string \<Rightarrow> string \<Rightarrow> gval list \<Rightarrow> ('h, 'b) world_scheme \<Rightarrow> call_status res \<times> ('h, 'b) world_scheme" where
  "PushServerUnsafe mp intn clientID rpcName args w = PushUnsafe mp intn clientID ''server'' rpcName args w"

definition PushClientUnsafe ::
  "msgpack \<Rightarrow> (nat \<Rightarrow> nat) \<Rightarrow> string \<Rightarrow> string \<Rightarrow> gval list \<Rightarrow> ('h, 'b) world_scheme \<Rightarrow> call_status res \<times> ('h, 'b) world_scheme" where
  "PushClientUnsafe mp intn clientID rpcName args w = PushUnsafe mp intn clientID ''client'' rpcName args w"

definition PushServerSafe ::
  "msgpack \<Rightarrow> (nat \<Rightarrow> nat) \<Rightarrow> string \<Rightarrow> string \<Rightarrow> gval list \<Rightarrow> ('h, 'b) world_scheme \<Rightarrow> call_status res \<times> ('h, 'b) world_scheme" where
  "PushServerSafe mp intn clientID rpcName args w = PushSafe mp intn clientID ''server'' rpcName args w"

definition PushClientSafe ::
  "msgpack \<Rightarrow> (nat \<Rightarrow> nat) \<Rightarrow> string \<Rightarrow> string \<Rightarrow> gval list \<Rightarrow> ('h, 'b) world_scheme \<Rightarrow> call_status res \<times> ('h, 'b) world_scheme" where
  "PushClientSafe mp intn clientID rpcName args w = PushSafe mp intn clientID ''client'' rpcName args w"

text \<open>
  The time-outs of one tick, called by the goroutine of the callback manager in order. \<open>call_fun\<close> is a call of a
  callback function of the client sdk.
\<close>

fun run_timeouts ::
  "(nat \<Rightarrow> string \<Rightarrow> ('h, 'b) world_scheme \<Rightarrow> ('h, 'b) world_scheme) \<Rightarrow> (u32 \<times> timeout_cb option) list \<Rightarrow>
     ('h, 'b) world_scheme \<Rightarrow> unit res \<times> ('h, 'b) world_scheme" where
  "run_timeouts call_fun [] w = (Inr (), w)"
| "run_timeouts call_fun ((k, None) # fs) w = run_timeouts call_fun fs w"
| "run_timeouts call_fun ((k, Some (RunTimeout f err)) # fs) w = run_timeouts call_fun fs (call_fun f err w)"
| "run_timeouts call_fun ((k, Some (SendTimeout ch err)) # fs) w =
     (case chan_send ch (RspTimeout err) w of
        (Inl e, w1) \<Rightarrow> (Inl e, w1)
      | (Inr _, w1) \<Rightarrow> run_timeouts call_fun fs w1)"

definition callback_tick ::
  "(nat \<Rightarrow> string \<Rightarrow> ('h, 'b) world_scheme \<Rightarrow> ('h, 'b) world_scheme) \<Rightarrow> ('h, 'b) world_scheme \<Rightarrow> unit res \<times> ('h, 'b) world_scheme" where
  "callback_tick call_fun w =
     (case priorityQueueTick (now w div 1000) (cbMgr w) of
        None \<Rightarrow> (Inl Hang, w)
      | Some (m, fired) \<Rightarrow> run_timeouts call_fun fired (w\<lparr>cbMgr := m\<rparr>))"

section \<open>Lemmas\<close>

text \<open>A picked address of a consistent server is a connected client; without clients the pick is no client.\<close>

lemma pick_client:
  assumes "server_inv (tcpServer w)" "[] \<notin> dom (clients (tcpServer w))"
  obtains connID lb where "LoadBalance BALANCE_STRATEGY intn (slb (tcpServer w)) = Inr (connID, lb)"
    "keys lb = keys (slb (tcpServer w))" "lb_wf lb"
    "clients (tcpServer w) connID = None \<longleftrightarrow> clients (tcpServer w) = Map.empty"
    "\<forall>c. clients (tcpServer w) connID = Some c \<longrightarrow> cconn c = connID"
proof -
  have k: "keys (slb (tcpServer w)) = dom (clients (tcpServer w))" "lb_wf (slb (tcpServer w))"
    using assms(1) by (auto simp: server_inv_def)
  obtain connID lb where p: "LoadBalance BalanceStrategy_RoundRobin intn (slb (tcpServer w)) = Inr (connID, lb)"
    using rr.pick_total by blast
  have f: "keys lb = keys (slb (tcpServer w))" "lb_wf lb" using rr.pick_frame [OF p] k(2) by auto
  have n: "clients (tcpServer w) connID = None \<longleftrightarrow> clients (tcpServer w) = Map.empty"
  proof (cases "clients (tcpServer w) = Map.empty")
    case False
    then have "keys (slb (tcpServer w)) \<noteq> {}" using k(1) by auto
    from rr.pick_in_members [OF p this] k(1) False show ?thesis by auto
  qed simp
  have "cconn c = connID" if "clients (tcpServer w) connID = Some c" for c
    using assms(1) that by (auto simp: server_inv_def)
  with that [of connID lb] p f n show thesis by (simp add: BALANCE_STRATEGY_def)
qed

text \<open>What a call does to the rest of the process before it blocks.\<close>

lemma RpcCall_send_out:
  assumes "RpcCall_send mp intn svc rpc rid args w = (st, w')"
  shows "\<exists>ms. out w' = out w @ ms \<and> length ms \<le> 1"
proof -
  have "\<exists>ms. out w4 = out w3 @ ms \<and> length ms \<le> 1" if "MessageSend c m w3 = (b, w4)" for c m b w3 w4
    using that by (auto simp: MessageSend_def split: option.splits if_splits prod.splits)
  moreover have "out w3 = out w2" if "add_callback k v t to w2 = (x, w3)" for k v t to x w2 w3
    using that by (auto simp: add_callback_def split: option.splits)
  ultimately show ?thesis
    using assms by (fastforce simp: RpcCall_send_def Let_def split: sum.splits prod.splits option.splits if_splits bool.splits)
qed

lemma RpcCall_recv_out:
  assumes "RpcCall_recv mp intn svc rpc cnt args r w = (st, w')"
  shows "\<exists>ms. out w' = out w @ ms \<and> length ms \<le> (if 0 < cnt then 1 else 0)"
    and "cnt \<le> 0 \<Longrightarrow> \<exists>e v. st = Inr (Returned e v)"
proof -
  have "NewGid w = (g, w1) \<Longrightarrow> out w1 = out w" for g w1 by (auto simp: NewGid_def)
  then show "\<exists>ms. out w' = out w @ ms \<and> length ms \<le> (if 0 < cnt then 1 else 0)"
    using assms RpcCall_send_out [of mp intn svc rpc]
    by (fastforce simp: RpcCall_recv_def split: call_rsp.splits if_splits prod.splits)
  show "\<exists>e v. st = Inr (Returned e v)" if "cnt \<le> 0"
    using assms that by (auto simp: RpcCall_recv_def split: call_rsp.splits)
qed

lemma RpcCall_run_bounded:
  assumes "RpcCall_run mp intn svc rpc cnt args rsps (st, w) = (st', w')"
  shows "length (out w') \<le> length (out w) + nat cnt
    \<and> (nat cnt < length rsps \<longrightarrow> (\<forall>ch. st' \<noteq> Inr (Waiting ch)))"
  using assms
proof (induction rsps arbitrary: cnt st w)
  case (Cons r rs)
  show ?case
  proof (cases "\<exists>ch. st = Inr (Waiting ch)")
    case False
    then have "st' = st" "w' = w" using Cons.prems by (auto split: sum.splits call_status.splits)
    with False show ?thesis by auto
  next
    case True
    obtain st1 w1 where r1: "RpcCall_recv mp intn svc rpc cnt args r w = (st1, w1)" by fastforce
    have run: "RpcCall_run mp intn svc rpc (cnt - 1) args rs (st1, w1) = (st', w')"
      using Cons.prems True r1 by auto
    note IH = Cons.IH [OF run]
    show ?thesis
    proof (cases "0 < cnt")
      case True
      then show ?thesis using IH RpcCall_recv_out(1) [OF r1] by auto
    next
      case False
      then obtain e v where "st1 = Inr (Returned e v)" using RpcCall_recv_out(2) [OF r1] by auto
      then have "(st', w') = (st1, w1)" using run by (cases rs) auto
      with \<open>st1 = Inr (Returned e v)\<close> False show ?thesis using RpcCall_recv_out(1) [OF r1] by auto
    qed
  qed
qed simp

text \<open>A call that found a connected gate: what it leaves behind when the write succeeds and when it fails.\<close>

lemma RpcCall_send_client:
  assumes "LoadBalance BALANCE_STRATEGY intn (slb (tcpServer w)) = Inr (k, lb)"
    "clients (tcpServer w) k = Some c" "cconn c = k" "rid \<noteq> 0"
    "MessageEncode (RpcEncode mp MSG_C2G_RPC_ROUTE [VStr (Namespace (cfg w)), VStr svc, vu32 rid, VBool False,
       VBytes (RpcEncode mp rpc args)]) = Inr msg" "msg \<noteq> []"
    "AddCallBack rid [AChan (nextChan w)] 33 (Some (SendTimeout (nextChan w) (timeout_text (Namespace (cfg w)) svc rpc)))
       (now w div 1000) (cbMgr w) = Some m"
  defines "w4 \<equiv> w\<lparr>tcpServer := (tcpServer w)\<lparr>slb := lb\<rparr>, nextChan := Suc (nextChan w), cbMgr := m,
     out := out w @ [(k, take (fst (netWrite w k msg)) msg)]\<rparr>"
  shows "RpcCall_send mp intn svc rpc rid args w =
    (if snd (netWrite w k msg) then (Inr (Waiting (nextChan w)), w4\<lparr>chanRecv := insert (nextChan w) (chanRecv w)\<rparr>)
     else (Inr (Returned [] VNil), w4))"
proof -
  let ?w1 = "w\<lparr>tcpServer := (tcpServer w)\<lparr>slb := lb\<rparr>\<rparr>"
  let ?w2 = "?w1\<lparr>nextChan := Suc (nextChan w)\<rparr>"
  have add: "add_callback rid [AChan (nextChan w)] 33
      (Some (SendTimeout (nextChan w) (timeout_text (Namespace (cfg w)) svc rpc))) ?w2 = (Inr (), ?w2\<lparr>cbMgr := m\<rparr>)"
    using assms(7) by (simp add: add_callback_def)
  have ms: "MessageSend (Some k) msg (?w2\<lparr>cbMgr := m\<rparr>) = (snd (netWrite w k msg), w4)"
    using assms(6) by (simp add: MessageSend_def w4_def split: prod.splits)
  have cl: "clients (tcpServer ?w1) k = Some c" "nextChan ?w1 = nextChan w" "Namespace (cfg ?w2) = Namespace (cfg w)"
    using assms(2) by simp_all
  have "RpcCall_send mp intn svc rpc rid args w =
      (case (snd (netWrite w k msg), w4) of
         (False, w4) \<Rightarrow> (Inr (Returned [] VNil), w4)
       | (True, w4) \<Rightarrow> (Inr (Waiting (nextChan w)), w4\<lparr>chanRecv := insert (nextChan w) (chanRecv w4)\<rparr>))"
    unfolding RpcCall_send_def Let_def assms(5) assms(1) sum.case prod.case if_P [OF assms(4)] cl(1) option.case cl(2,3)
      add assms(3) ms ..
  then show ?thesis by (cases "snd (netWrite w k msg)") (simp_all add: w4_def)
qed

text \<open>The first callback of an empty manager is timed out at its deadline.\<close>

lemma tick_single:
  assumes "AddCallBack k v wt to n new_cbmgr = Some m" "wt + n \<le> t"
  shows "\<exists>m'. priorityQueueTick t m = Some (m', [(k, to)])"
  using assms
  by (auto simp: AddCallBack_def register_cb_def queueAdd_def new_cbmgr_def priorityQueueTick_def tick_loop.simps
      tick_node_def Let_def)

text \<open>A tick whose time-out functions are all nil only changes the callback manager.\<close>

lemma run_timeouts_nil: "\<forall>x\<in>set fs. snd x = None \<Longrightarrow> run_timeouts cf fs w = (Inr (), w)"
  by (induction fs) auto

lemma callback_tick_nil:
  assumes "cb_wf (cbMgr w)" "snd ` cb_timeouts (cbMgr w) \<subseteq> {None}"
  shows "\<exists>m K. callback_tick cf w = (Inr (), w\<lparr>cbMgr := m\<rparr>) \<and> cb_wf m \<and> cb_timeouts m \<subseteq> cb_timeouts (cbMgr w)
    \<and> (\<forall>k\<in>K. cb_lookup (cbMgr w) k \<noteq> None)
    \<and> cb_lookup m = (\<lambda>k. if k \<in> K then None else cb_lookup (cbMgr w) k)"
proof -
  obtain m fired where t: "priorityQueueTick (now w div 1000) (cbMgr w) = Some (m, fired)"
    using cbt.tick_law [OF assms(1), of "now w div 1000"] by blast
  note T = cbt.tick_SomeD [OF assms(1) t]
  have "run_timeouts cf fired (w\<lparr>cbMgr := m\<rparr>) = (Inr (), w\<lparr>cbMgr := m\<rparr>)"
    by (rule run_timeouts_nil) (use T(3) assms(2) in force)
  then have "callback_tick cf w = (Inr (), w\<lparr>cbMgr := m\<rparr>)" using t by (simp add: callback_tick_def)
  with T(1,2,5,6) show ?thesis by blast
qed

section \<open>Properties\<close>

text \<open>Property C21. Resending is bounded and the call returns: with \<open>reSendCnt\<close> resends allowed a call writes at most \<open>reSendCnt + 1\<close>
  messages whatever arrives on its channels, and it is no longer waiting once \<open>reSendCnt + 1\<close> responses or time-outs
  have arrived.\<close>

theorem rpc_call_bounded:
  assumes "0 \<le> reSendCnt" "RpcCall mp intn svc rpc rid reSendCnt args rsps w = (st, w')"
  shows "length (out w') \<le> length (out w) + nat reSendCnt + 1
    \<and> (nat reSendCnt < length rsps \<longrightarrow> (\<forall>ch. st \<noteq> Inr (Waiting ch)))"
proof -
  obtain st1 w1 where s1: "RpcCall_send mp intn svc rpc rid args w = (st1, w1)" by fastforce
  then have run: "RpcCall_run mp intn svc rpc reSendCnt args rsps (st1, w1) = (st, w')"
    using assms(2) by (simp add: RpcCall_def)
  obtain ms where "out w1 = out w @ ms" "length ms \<le> 1" using RpcCall_send_out [OF s1] by blast
  with RpcCall_run_bounded [OF run] show ?thesis by auto
qed

definition demo_service :: "(conn \<Rightarrow> bytes \<Rightarrow> nat \<times> bool) \<Rightarrow> unit handler world" where
  "demo_service nw = (demo_server 0)\<lparr>netWrite := nw,
     tcpServer := (tcpServer (demo_server 0))\<lparr>slb := snd (AddElement new_LoadBalancer ''9.9.9.9:1'')\<rparr>\<rparr>"

theorem rpc_call_bounded_witness:
  "length (out (snd (RpcCallSync mp_codec id ''ServiceA'' ''rpc_b'' [vu32 10] (replicate 9 (RspTimeout ''t'')) (demo_service good_net)))) \<le> 4"
proof -
  obtain rid w1 where g: "NewGid (demo_service good_net) = (rid, w1)" "out w1 = []"
    by (auto simp: NewGid_def demo_service_def demo_server_def set_client_def Init_def)
  obtain st w' where r: "RpcCall mp_codec id ''ServiceA'' ''rpc_b'' rid 3 [vu32 10] (replicate 9 (RspTimeout ''t'')) w1 = (st, w')" by fastforce
  from rpc_call_bounded [OF _ r] g(2) show ?thesis unfolding RpcCallSync_def g(1) prod.case r by simp
qed

text \<open>The branches of a synchronous call before it blocks, on a consistent server: without a connected gate, and when the
  write fails, the call returns an empty error text, which callers read as success; otherwise exactly one message goes
  to one connected gate, the call waits on its own fresh channel, and the callback for its identifier holds that
  channel.\<close>

theorem rpc_call_send_branches:
  assumes "server_inv (tcpServer w)" "[] \<notin> dom (clients (tcpServer w))" "cb_wf (cbMgr w)" "rid \<noteq> 0"
    "MessageEncode (RpcEncode mp MSG_C2G_RPC_ROUTE [VStr (Namespace (cfg w)), VStr svc, vu32 rid, VBool False,
       VBytes (RpcEncode mp rpc args)]) = Inr msg" "msg \<noteq> []"
  shows "\<exists>w'. (clients (tcpServer w) = Map.empty
        \<and> RpcCall_send mp intn svc rpc rid args w = (Inr (Returned [] VNil), w') \<and> out w' = out w)
    \<or> (\<exists>k c. clients (tcpServer w) k = Some c \<and> out w' = out w @ [(k, take (fst (netWrite w k msg)) msg)]
        \<and> cb_lookup (cbMgr w') = (cb_lookup (cbMgr w))(rid \<mapsto> [AChan (nextChan w)])
        \<and> (if snd (netWrite w k msg)
           then RpcCall_send mp intn svc rpc rid args w = (Inr (Waiting (nextChan w)), w') \<and> nextChan w \<in> chanRecv w'
           else RpcCall_send mp intn svc rpc rid args w = (Inr (Returned [] VNil), w') \<and> chanRecv w' = chanRecv w))"
proof -
  obtain k lb where p: "LoadBalance BALANCE_STRATEGY intn (slb (tcpServer w)) = Inr (k, lb)"
    and "keys lb = keys (slb (tcpServer w))" "lb_wf lb"
    and q: "clients (tcpServer w) k = None \<longleftrightarrow> clients (tcpServer w) = Map.empty"
    "\<forall>c. clients (tcpServer w) k = Some c \<longrightarrow> cconn c = k"
    by (rule pick_client [OF assms(1,2), of intn])
  let ?w1 = "w\<lparr>tcpServer := (tcpServer w)\<lparr>slb := lb\<rparr>\<rparr>"
  show ?thesis
  proof (cases "clients (tcpServer w) k")
    case None
    have "RpcCall_send mp intn svc rpc rid args w =
        (case clients (tcpServer ?w1) k of
           None \<Rightarrow> (Inr (Returned [] VNil), ?w1)
         | Some client \<Rightarrow> RpcCall_send mp intn svc rpc rid args w)"
      unfolding RpcCall_send_def Let_def assms(5) p sum.case prod.case using None by simp
    then show ?thesis using None q(1) by (intro exI [of _ ?w1] disjI1) simp
  next
    case (Some c)
    let ?to = "Some (SendTimeout (nextChan w) (timeout_text (Namespace (cfg w)) svc rpc))"
    obtain m where m: "AddCallBack rid [AChan (nextChan w)] 33 ?to (now w div 1000) (cbMgr w) = Some m"
      "cb_lookup m = (cb_lookup (cbMgr w))(rid \<mapsto> [AChan (nextChan w)])"
      using cb.add_law [OF assms(3), of rid "[AChan (nextChan w)]" 33 ?to "now w div 1000"] by blast
    have "cconn c = k" using q(2) Some by blast
    note send = RpcCall_send_client [OF p Some this assms(4-6) m(1)]
    let ?w4 = "w\<lparr>tcpServer := (tcpServer w)\<lparr>slb := lb\<rparr>, nextChan := Suc (nextChan w), cbMgr := m,
     out := out w @ [(k, take (fst (netWrite w k msg)) msg)]\<rparr>"
    show ?thesis
    proof (cases "snd (netWrite w k msg)")
      case True
      then show ?thesis using Some m(2) send
        by (intro exI [of _ "?w4\<lparr>chanRecv := insert (nextChan w) (chanRecv w)\<rparr>"] disjI2 exI [of _ k] exI [of _ c]) simp
    next
      case False
      then show ?thesis using Some m(2) send
        by (intro exI [of _ ?w4] disjI2 exI [of _ k] exI [of _ c]) simp
    qed
  qed
qed

lemma demo_service_facts:
  "server_inv (tcpServer (demo_service nw))" "clients (tcpServer (demo_service nw)) = [''9.9.9.9:1'' \<mapsto> demo_client]"
  "cbMgr (demo_service nw) = new_cbmgr" "netWrite (demo_service nw) = nw" "nextChan (demo_service nw) = 0"
  "chanRecv (demo_service nw) = {}" "out (demo_service nw) = []" "now (demo_service nw) = 0"
  "cfg (demo_service nw) = demo_cfg"
  by (auto simp: demo_service_def demo_server_client server_inv_def lb_wf_AddElement demo_client_def split: if_splits)
    (simp_all add: demo_server_def set_client_def Init_def)

lemma demo_call_encoded:
  "\<exists>msg. MessageEncode (RpcEncode mp_codec MSG_C2G_RPC_ROUTE [VStr (Namespace demo_cfg), VStr ''ServiceA'', vu32 1, VBool False,
       VBytes (RpcEncode mp_codec ''rpc_b'' [vu32 10])]) = Inr msg \<and> msg \<noteq> []"
  by (simp add: MessageEncode_ok RpcEncode_def mp_codec_def put_str_def msg_names vu32_def be32_def demo_cfg_def)

theorem rpc_call_send_branches_witness:
  "\<exists>w'. RpcCall_send mp_codec id ''ServiceA'' ''rpc_b'' 1 [vu32 10] (demo_service good_net) = (Inr (Waiting 0), w')
     \<and> map fst (out w') = [''9.9.9.9:1'']"
proof -
  obtain msg where msg: "MessageEncode (RpcEncode mp_codec MSG_C2G_RPC_ROUTE [VStr (Namespace demo_cfg), VStr ''ServiceA'', vu32 1, VBool False,
       VBytes (RpcEncode mp_codec ''rpc_b'' [vu32 10])]) = Inr msg" "msg \<noteq> []"
    using demo_call_encoded by blast
  have "\<exists>w'. (clients (tcpServer (demo_service good_net)) = Map.empty
        \<and> RpcCall_send mp_codec id ''ServiceA'' ''rpc_b'' 1 [vu32 10] (demo_service good_net) = (Inr (Returned [] VNil), w') \<and> out w' = out (demo_service good_net))
    \<or> (\<exists>k c. clients (tcpServer (demo_service good_net)) k = Some c \<and> out w' = out (demo_service good_net) @ [(k, take (fst (netWrite (demo_service good_net) k msg)) msg)]
        \<and> cb_lookup (cbMgr w') = (cb_lookup (cbMgr (demo_service good_net)))(1 \<mapsto> [AChan (nextChan (demo_service good_net))])
        \<and> (if snd (netWrite (demo_service good_net) k msg)
           then RpcCall_send mp_codec id ''ServiceA'' ''rpc_b'' 1 [vu32 10] (demo_service good_net) = (Inr (Waiting (nextChan (demo_service good_net))), w') \<and> nextChan (demo_service good_net) \<in> chanRecv w'
           else RpcCall_send mp_codec id ''ServiceA'' ''rpc_b'' 1 [vu32 10] (demo_service good_net) = (Inr (Returned [] VNil), w') \<and> chanRecv w' = chanRecv (demo_service good_net)))"
    by (rule rpc_call_send_branches) (use msg in \<open>simp_all add: demo_service_facts\<close>)
  then show ?thesis by (auto simp: demo_service_facts good_net_def split: if_splits)
qed

text \<open>Property C36. (Deviation.) A synchronous call whose write fails returns at once, but the callback it registered stays, and its time-out
  function sends to a channel that nobody receives from. When the callback expires, the goroutine of the callback
  manager blocks in that send for ever: no later callback of the process is registered, answered or timed out.\<close>

theorem failed_send_wedges_callback_manager:
  assumes "server_inv (tcpServer w)" "[] \<notin> dom (clients (tcpServer w))" "clients (tcpServer w) \<noteq> Map.empty"
    "cbMgr w = new_cbmgr" "rid \<noteq> 0" "nextChan w \<notin> chanRecv w" "\<forall>k m. \<not> snd (netWrite w k m)"
    "MessageEncode (RpcEncode mp MSG_C2G_RPC_ROUTE [VStr (Namespace (cfg w)), VStr svc, vu32 rid, VBool False,
       VBytes (RpcEncode mp rpc args)]) = Inr msg" "msg \<noteq> []"
    "now w div 1000 + 33 \<le> t div 1000"
  shows "\<exists>w'. RpcCall_send mp intn svc rpc rid args w = (Inr (Returned [] VNil), w')
    \<and> fst (callback_tick call_fun (w'\<lparr>now := t\<rparr>)) = Inl Hang"
proof -
  obtain k lb where p: "LoadBalance BALANCE_STRATEGY intn (slb (tcpServer w)) = Inr (k, lb)"
    and "keys lb = keys (slb (tcpServer w))" "lb_wf lb"
    and q: "clients (tcpServer w) k = None \<longleftrightarrow> clients (tcpServer w) = Map.empty"
    "\<forall>c. clients (tcpServer w) k = Some c \<longrightarrow> cconn c = k"
    by (rule pick_client [OF assms(1,2), of intn])
  obtain c where c: "clients (tcpServer w) k = Some c" using q(1) assms(3) by auto
  then have ck: "cconn c = k" using q(2) by blast
  let ?to = "Some (SendTimeout (nextChan w) (timeout_text (Namespace (cfg w)) svc rpc))"
  have "cb_wf (cbMgr w)" using assms(4) by simp
  then obtain m where m: "AddCallBack rid [AChan (nextChan w)] 33 ?to (now w div 1000) (cbMgr w) = Some m"
    using cb.add_law [of "cbMgr w" rid "[AChan (nextChan w)]" 33 ?to "now w div 1000"] by blast
  have "33 + now w div 1000 \<le> t div 1000" using assms(10) by simp
  then obtain m' where m': "priorityQueueTick (t div 1000) m = Some (m', [(rid, ?to)])"
    using tick_single [OF m [unfolded assms(4)]] by blast
  show ?thesis
    using RpcCall_send_client [OF p c ck assms(5,8,9) m] assms(6,7) m'
    by (simp add: callback_tick_def chan_send_def)
qed

theorem failed_send_wedges_callback_manager_witness:
  "\<exists>w'. RpcCall_send mp_codec id ''ServiceA'' ''rpc_b'' 1 [vu32 10] (demo_service (\<lambda>_ _. (0, False))) = (Inr (Returned [] VNil), w')
     \<and> fst (callback_tick (\<lambda>_ _ w. w) (w'\<lparr>now := 33000\<rparr>)) = Inl Hang"
proof -
  obtain msg where msg: "MessageEncode (RpcEncode mp_codec MSG_C2G_RPC_ROUTE [VStr (Namespace demo_cfg), VStr ''ServiceA'', vu32 1, VBool False,
       VBytes (RpcEncode mp_codec ''rpc_b'' [vu32 10])]) = Inr msg" "msg \<noteq> []"
    using demo_call_encoded by blast
  show ?thesis
    by (rule failed_send_wedges_callback_manager) (use msg in \<open>simp_all add: demo_service_facts\<close>)
qed

end
