(* ===== verification/Etcd_Driver.thy ===== *)
theory Etcd_Driver
  imports Remote_Mgr
begin

text \<open>
  Registration and discovery of services (\<open>ms_framework/msf_etcd_driver.go\<close>, with \<open>GetLocalIP\<close> of \<open>msf_utils.go\<close>).
  The etcd client is not part of the repository: a call to it is recorded in \<open>reqs\<close>, and what it returns is read from
  the argument \<open>etcd_env\<close> (an error text, or the result). The driver of a service registers itself and watches its
  lease; the driver of a gate lists and watches the keys of its namespace and starts \<open>OnRemoteDiscover\<close> and
  \<open>OnRemoteDisappear\<close> of the remote manager as goroutines, which are the values of \<open>remote_event\<close>.
\<close>

section \<open>State\<close>

datatype etcd_req = EtcdNew | EtcdGrant int | EtcdPut string string int | EtcdKeepAlive int | EtcdGet string
  | EtcdGetPrefix string | EtcdWatchPrefix string | EtcdRevoke int | EtcdClose

record etcd_env =
  eNew :: "string option"
  eGrant :: "string + int"
  ePut :: "string option"
  eGet :: "string + (string \<times> string) list"

record EtcdDriver =
  mode :: int
  cli :: bool
  lease :: "int option"
  exit :: bool
  leaseDV :: int

text \<open>What \<open>net.Dial\<close> returned: the local address of the connection, a time-out, or another error.\<close>

datatype dial_result = DialOk string | DialTimeout | DialFail string

record etcd_state =
  ecfg :: GlobalConfig
  localIP :: string
  driver :: EtcdDriver
  reqs :: "etcd_req list"

definition GetLocalIP :: "(string \<Rightarrow> dial_result) \<Rightarrow> etcd_state \<Rightarrow> string res \<times> etcd_state" where
  "GetLocalIP dial s =
     (if length (localIP s) \<noteq> 0 then (Inr (localIP s), s)
      else (case index (Etcd (ecfg s)) 0 of
              Inl e \<Rightarrow> (Inl e, s)
            | Inr addr \<Rightarrow>
                (case dial addr of
                   DialOk l \<Rightarrow> let i = split_on (CHR '':'') l ! 0 in (Inr i, s\<lparr>localIP := i\<rparr>)
                 | DialTimeout \<Rightarrow> (Inr [], s)
                 | DialFail err \<Rightarrow> (Inl (ExplicitPanic (''GetLocalIP err '' @ err)), s))))"

section \<open>Registration\<close>

definition service_key :: "string \<Rightarrow> string \<Rightarrow> string \<Rightarrow> int \<Rightarrow> string" where
  "service_key ns svc i p = ''/ms/'' @ ns @ ''/'' @ svc @ ''/'' @ i @ '':'' @ show_int p"

definition GenEtcdServiceKey :: "(string \<Rightarrow> dial_result) \<Rightarrow> etcd_state \<Rightarrow> string res \<times> etcd_state" where
  "GenEtcdServiceKey dial s =
     (case GetLocalIP dial s of
        (Inl e, s1) \<Rightarrow> (Inl e, s1)
      | (Inr i, s1) \<Rightarrow> (Inr (service_key (Namespace (ecfg s)) (Service (ecfg s)) i (Port (ecfg s))), s1))"

definition GenEtcdServiceValue :: "etcd_state \<Rightarrow> string \<times> etcd_state" where
  "GenEtcdServiceValue s =
     (let d = driver s; dv = leaseDV d + 1 in (show_int dv, s\<lparr>driver := d\<lparr>leaseDV := dv\<rparr>\<rparr>))"

definition GenEtcdWatchKey :: "etcd_state \<Rightarrow> string" where
  "GenEtcdWatchKey s = ''/ms/'' @ Namespace (ecfg s)"

definition request :: "etcd_req \<Rightarrow> etcd_state \<Rightarrow> etcd_state" where
  "request r s = s\<lparr>reqs := reqs s @ [r]\<rparr>"

text \<open>An error of \<open>KeepAlive\<close> is only logged; otherwise its first response is awaited.\<close>

definition ServiceRegist :: "(string \<Rightarrow> dial_result) \<Rightarrow> etcd_env \<Rightarrow> etcd_state \<Rightarrow> unit res \<times> etcd_state" where
  "ServiceRegist dial env s =
     (let s0 = request (EtcdGrant 2) s in
      case eGrant env of
        Inl err \<Rightarrow> (Inr (), s0)
      | Inr l \<Rightarrow>
          let s1 = s0\<lparr>driver := (driver s0)\<lparr>lease := Some l\<rparr>\<rparr> in
          (case GenEtcdServiceKey dial s1 of
             (Inl e, s2) \<Rightarrow> (Inl e, s2)
           | (Inr key, s2) \<Rightarrow>
               (case GenEtcdServiceValue s2 of
                  (val, s3) \<Rightarrow>
                    let s4 = request (EtcdPut key val l) s3 in
                    (case ePut env of
                       Some err \<Rightarrow> (Inr (), s4)
                     | None \<Rightarrow> (Inr (), request (EtcdKeepAlive l) s4)))))"

text \<open>One round of the goroutine of \<open>LeaseWatch\<close> after its timer fired: the seconds until the next one, \<open>None\<close> when
  the loop has ended.\<close>

definition LeaseWatch_round :: "(string \<Rightarrow> dial_result) \<Rightarrow> etcd_env \<Rightarrow> etcd_state \<Rightarrow> nat option res \<times> etcd_state" where
  "LeaseWatch_round dial env s =
     (if exit (driver s) then (Inr None, s)
      else (case GenEtcdServiceKey dial s of
              (Inl e, s1) \<Rightarrow> (Inl e, s1)
            | (Inr key, s1) \<Rightarrow>
                let s2 = request (EtcdGet key) s1 in
                (case eGet env of
                   Inl err \<Rightarrow> (Inr (Some 1), s2)
                 | Inr kvs \<Rightarrow>
                     if length kvs = 0
                     then (case ServiceRegist dial env s2 of
                             (Inl e, s3) \<Rightarrow> (Inl e, s3)
                           | (Inr _, s3) \<Rightarrow> (Inr (Some 1), s3))
                     else (Inr (Some 5), s2))))"

section \<open>Discovery\<close>

datatype remote_event = Discover string string string u32 | Disappear string string string u32

text \<open>The reading of a key, as both discovery loops do it.\<close>

definition parse_key :: "string \<Rightarrow> (string \<times> string \<times> string \<times> u32) res" where
  "parse_key key =
     (let remoteInfo = split_on (CHR ''/'') key in
      res_bind (index remoteInfo 2) (\<lambda>namespace.
      res_bind (index remoteInfo 3) (\<lambda>service.
      res_bind (index remoteInfo 4) (\<lambda>addr.
      res_bind (index (split_on (CHR '':'') addr) 0) (\<lambda>i.
      res_bind (index (split_on (CHR '':'') addr) 1) (\<lambda>p.
        Inr (namespace, service, i, of_int (fst (Atoi p)))))))))"

fun discover_keys :: "string list \<Rightarrow> remote_event list res" where
  "discover_keys [] = Inr []"
| "discover_keys (k # ks) =
     res_bind (parse_key k) (\<lambda>(ns, svc, i, p).
       res_bind (discover_keys ks) (\<lambda>evs. Inr (Discover ns svc i p # evs)))"

text \<open>One round of the goroutine of \<open>ServiceDiscover\<close>: the events it starts and the seconds until the next round.\<close>

definition ServiceDiscover_round :: "etcd_env \<Rightarrow> etcd_state \<Rightarrow> (remote_event list \<times> nat) option res \<times> etcd_state" where
  "ServiceDiscover_round env s =
     (if exit (driver s) then (Inr None, s)
      else let s1 = request (EtcdGetPrefix (GenEtcdWatchKey s)) s in
        (case eGet env of
           Inl err \<Rightarrow> (Inr (Some ([], 5)), s1)
         | Inr kvs \<Rightarrow>
             (case discover_keys (map fst kvs) of
                Inl e \<Rightarrow> (Inl e, s1)
              | Inr evs \<Rightarrow> (Inr (Some (evs, 60 * 10)), s1))))"

datatype etcd_event = EventPut string | EventDelete string | EventOther string

fun event_key :: "etcd_event \<Rightarrow> string" where
  "event_key (EventPut k) = k"
| "event_key (EventDelete k) = k"
| "event_key (EventOther k) = k"

text \<open>The body of the loop of \<open>ServiceWatch\<close>, over the events the watch channel delivers.\<close>

fun ServiceWatch_events :: "etcd_event list \<Rightarrow> remote_event list res" where
  "ServiceWatch_events [] = Inr []"
| "ServiceWatch_events (ev # evs) =
     res_bind (parse_key (event_key ev)) (\<lambda>(ns, svc, i, p).
       res_bind (ServiceWatch_events evs) (\<lambda>rest. Inr
         (case ev of
            EventPut _ \<Rightarrow> Discover ns svc i p # rest
          | EventDelete _ \<Rightarrow> Disappear ns svc i p # rest
          | EventOther _ \<Rightarrow> rest)))"

text \<open>The goroutine of one event, on the remote manager.\<close>

definition run_remote_event :: "(nat \<Rightarrow> bool) \<Rightarrow> int \<Rightarrow> remote_event \<Rightarrow> RemoteMgr \<Rightarrow> RemoteMgr res" where
  "run_remote_event dial t ev m =
     (case ev of
        Discover ns svc i p \<Rightarrow> Inr (OnRemoteDiscover dial ns svc i p t m)
      | Disappear ns svc i p \<Rightarrow> OnRemoteDisappear (GetRemoteID ns svc) (GenConnIDByIPPort i p) m)"

section \<open>Start and stop\<close>

definition CreateEtcdDriver :: "GlobalConfig \<Rightarrow> EtcdDriver" where
  "CreateEtcdDriver c =
     \<lparr>mode = (if ''ServiceGate'' = Service c \<or> ''ClientGate'' = Service c then 1 else 0),
      cli = False, lease = None, exit = False, leaseDV = 0\<rparr>"

text \<open>\<open>Start\<close> up to the goroutines it leaves running, which are the rounds above.\<close>

definition EtcdDriver_Start :: "(string \<Rightarrow> dial_result) \<Rightarrow> etcd_env \<Rightarrow> etcd_state \<Rightarrow> unit res \<times> etcd_state" where
  "EtcdDriver_Start dial env s =
     (let s0 = request EtcdNew s in
      case eNew env of
        Some err \<Rightarrow> (Inr (), s0)
      | None \<Rightarrow>
          let s1 = s0\<lparr>driver := (driver s0)\<lparr>cli := True\<rparr>\<rparr> in
          (case (if mode (driver s1) = 0 then ServiceRegist dial env s1
                 else if mode (driver s1) = 1 then (Inr (), request (EtcdWatchPrefix (GenEtcdWatchKey s1)) s1)
                 else (Inr (), s1)) of
             (Inl e, s2) \<Rightarrow> (Inl e, s2)
           | (Inr _, s2) \<Rightarrow> (Inr (), s2\<lparr>driver := (driver s2)\<lparr>exit := False\<rparr>\<rparr>)))"

definition EtcdDriver_Stop :: "etcd_state \<Rightarrow> etcd_state" where
  "EtcdDriver_Stop s =
     (let s1 = (case lease (driver s) of None \<Rightarrow> s | Some l \<Rightarrow> request (EtcdRevoke l) s);
          s2 = (if cli (driver s1) then request EtcdClose s1 else s1)
      in s2\<lparr>driver := (driver s2)\<lparr>exit := True\<rparr>\<rparr>)"

section \<open>Lemmas\<close>

lemma split_service_key:
  assumes "CHR ''/'' \<notin> set ns" "CHR ''/'' \<notin> set svc" "CHR ''/'' \<notin> set i"
  shows "split_on (CHR ''/'') (service_key ns svc i p) = [[], ''ms'', ns, svc, i @ '':'' @ show_int p]"
proof -
  have "CHR ''/'' \<notin> set (i @ '':'' @ show_int p)" using assms(3) by simp
  then have "split_on (CHR ''/'') (i @ '':'' @ show_int p) = [i @ '':'' @ show_int p]" by (rule split_on_free)
  then have "split_on (CHR ''/'') (ns @ CHR ''/'' # svc @ CHR ''/'' # i @ '':'' @ show_int p) = [ns, svc, i @ '':'' @ show_int p]"
    by (simp only: split_on_append [OF assms(1)] split_on_append [OF assms(2)])
  then show ?thesis by (simp add: service_key_def)
qed

text \<open>A key written by a service is read back by a gate.\<close>

lemma parse_service_key:
  assumes "CHR ''/'' \<notin> set ns" "CHR ''/'' \<notin> set svc" "CHR ''/'' \<notin> set i" "CHR '':'' \<notin> set i"
    "0 \<le> p" "p < 2 ^ 32"
  shows "parse_key (service_key ns svc i p) = Inr (ns, svc, i, of_int p)"
proof -
  have "int64_min \<le> p" "p \<le> int64_max" using assms(5,6) by (simp_all add: int64_min_def int64_max_def)
  then have a: "Atoi (show_int p) = (p, True)" by (rule Atoi_show_int)
  have "split_on (CHR '':'') (i @ '':'' @ show_int p) = [i, show_int p]"
    using split_on_append [OF assms(4), of "show_int p"] split_on_free [of "CHR '':''" "show_int p"] by simp
  then show ?thesis unfolding parse_key_def split_service_key [OF assms(1-3)] Let_def by (simp add: a)
qed

lemma GenConnIDByIPPort_of_int:
  assumes "0 \<le> p" "p < 2 ^ 32"
  shows "GenConnIDByIPPort i (of_int p) = i @ '':'' @ show_int p"
proof -
  have "unat (of_int p :: u32) = nat p" using assms by (simp add: unsigned_of_int take_bit_int_eq_self)
  then show ?thesis using assms(1) by (simp add: GenConnIDByIPPort_def show_int_def)
qed

lemma connect_retry_connects:
  "\<exists>k\<in>{1..n}. dial k \<Longrightarrow> connect_retry n dial ns svc i p t m = ConnectRemote ns svc i p t m"
proof (induction n)
  case (Suc n)
  show ?case
  proof (cases "dial (Suc n)")
    case False
    then have "\<exists>k\<in>{1..n}. dial k" using Suc.prems by (metis atLeastAtMost_iff le_Suc_eq)
    from Suc.IH [OF this] False show ?thesis by simp
  qed simp
qed simp

lemma ServiceRegist_requests:
  assumes "eGrant env = Inr l" "localIP s \<noteq> []"
  shows "\<exists>s'. ServiceRegist dial env s = (Inr (), s')
    \<and> EtcdPut (service_key (Namespace (ecfg s)) (Service (ecfg s)) (localIP s) (Port (ecfg s)))
        (show_int (leaseDV (driver s) + 1)) l \<in> set (reqs s')
    \<and> lease (driver s') = Some l \<and> leaseDV (driver s') = leaseDV (driver s) + 1"
  using assms
  by (simp add: ServiceRegist_def GenEtcdServiceKey_def GetLocalIP_def GenEtcdServiceValue_def request_def Let_def
      split: option.splits)

section \<open>Properties\<close>

text \<open>Property C24. Registration reaches routing: a service that registers itself (names without a slash, a port below \<open>2 ^ 32\<close>) puts a key
  from which every gate reads exactly its namespace, name, address and port. When the put event arrives and one of the
  five dials succeeds, the gate finds a live connection of the service at the registered address for requests; and the
  delete event of the same key, which the expired lease causes, removes exactly that connection again.\<close>

theorem registered_service_becomes_routable:
  assumes "CHR ''/'' \<notin> set (Namespace (ecfg s))" "CHR ''/'' \<notin> set (Service (ecfg s))" "CHR ''/'' \<notin> set (localIP s)"
    "CHR '':'' \<notin> set (localIP s)" "localIP s \<noteq> []" "0 \<le> Port (ecfg s)" "Port (ecfg s) < 2 ^ 32" "eGrant env = Inr l"
    "remote_inv m" "remotes m (localIP s @ '':'' @ show_int (Port (ecfg s))) = None" "\<exists>k\<in>{1..5}. dial k"
  shows "\<exists>s' key val ev m1 r m2 ev2 m3. ServiceRegist ldial env s = (Inr (), s') \<and> EtcdPut key val l \<in> set (reqs s')
    \<and> ServiceWatch_events [EventPut key] = Inr [ev] \<and> run_remote_event dial t ev m = Inr m1 \<and> remote_inv m1
    \<and> ChoiceRemote intn (GetRemoteID (Namespace (ecfg s)) (Service (ecfg s))) False k m1 = (Inr (Some r), m2)
    \<and> remotes m1 (localIP s @ '':'' @ show_int (Port (ecfg s))) \<noteq> None
    \<and> ServiceWatch_events [EventDelete key] = Inr [ev2] \<and> run_remote_event dial t ev2 m1 = Inr m3
    \<and> remotes m3 = remotes m \<and> remote_inv m3"
proof -
  let ?c = "ecfg s" and ?i = "localIP s"
  let ?key = "service_key (Namespace ?c) (Service ?c) ?i (Port ?c)"
  let ?rid = "GetRemoteID (Namespace ?c) (Service ?c)" and ?a = "GenConnIDByIPPort ?i (of_int (Port ?c))"
  have a: "?a = ?i @ '':'' @ show_int (Port ?c)" by (rule GenConnIDByIPPort_of_int [OF assms(6,7)])
  obtain s' where s': "ServiceRegist ldial env s = (Inr (), s')"
    "EtcdPut ?key (show_int (leaseDV (driver s) + 1)) l \<in> set (reqs s')"
    using ServiceRegist_requests [OF assms(8,5)] by blast
  have k: "parse_key ?key = Inr (Namespace ?c, Service ?c, ?i, of_int (Port ?c))"
    by (rule parse_service_key [OF assms(1-4,6,7)])
  let ?m1 = "ConnectRemote (Namespace ?c) (Service ?c) ?i (of_int (Port ?c)) t m"
  let ?ev = "Discover (Namespace ?c) (Service ?c) ?i (of_int (Port ?c))"
  let ?ev2 = "Disappear (Namespace ?c) (Service ?c) ?i (of_int (Port ?c))"
  have w: "ServiceWatch_events [EventPut ?key] = Inr [?ev]" "ServiceWatch_events [EventDelete ?key] = Inr [?ev2]"
    using k by simp_all
  have fresh: "remotes m ?a = None" using assms(10) unfolding a .
  have r1: "run_remote_event dial t ?ev m = Inr ?m1"
    using fresh connect_retry_connects [OF assms(11)] by (simp add: run_remote_event_def OnRemoteDiscover_def)
  have inv1: "remote_inv ?m1" by (rule remote_inv_ConnectRemote [OF assms(9)])
  have rem1: "remotes ?m1 = (remotes m)(?a \<mapsto> \<lparr>remoteId = ?rid, rconn = ?a, rrecv = new_recv, rlastActiveTime = t\<rparr>)"
    unfolding ConnectRemote_new(1) [OF assms(9) fresh] by simp
  obtain res m2 where ch: "ChoiceRemote intn ?rid False k ?m1 = (Inr res, m2)"
    "res = None \<longleftrightarrow> (\<forall>c r. remotes ?m1 c = Some r \<longrightarrow> remoteId r \<noteq> ?rid)"
    using ChoiceRemote_unordered [OF inv1, of intn ?rid k] by (elim exE conjE) (rule that)
  have at: "remotes ?m1 ?a = Some \<lparr>remoteId = ?rid, rconn = ?a, rrecv = new_recv, rlastActiveTime = t\<rparr>"
    by (simp only: rem1 fun_upd_same)
  have "res \<noteq> None"
  proof
    assume "res = None"
    then have "\<forall>c r. remotes ?m1 c = Some r \<longrightarrow> remoteId r \<noteq> ?rid" by (rule ch(2) [THEN iffD1])
    from this [rule_format, OF at] show False by simp
  qed
  then obtain r where r: "res = Some r" by (cases res) simp_all
  have "remoteId r = ?rid" if "remotes ?m1 ?a = Some r" for r using at that by simp
  from OnRemoteDisappear_ok [OF inv1 this] obtain m3 where m3: "OnRemoteDisappear ?rid ?a ?m1 = Inr m3" "remote_inv m3"
    "remotes m3 = (remotes ?m1)(?a := None)" by blast
  have "remotes m3 = remotes m" unfolding m3(3) rem1 fun_upd_upd using fresh by (rule fun_upd_idem)
  moreover have "run_remote_event dial t ?ev2 ?m1 = Inr m3" using m3(1) by (simp add: run_remote_event_def)
  moreover have "remotes ?m1 (?i @ '':'' @ show_int (Port ?c)) \<noteq> None" unfolding a [symmetric] at by (rule option.distinct(2))
  ultimately show ?thesis
    by (intro exI conjI) (rule s' w r1 inv1 m3(2) | assumption | rule ch(1) [unfolded r])+
qed

definition demo_etcd :: etcd_state where
  "demo_etcd = \<lparr>ecfg = \<lparr>Namespace = ''ns'', Service = ''ServiceA'', Port = 6666, LogLevel = ''DEBUG'', Etcd = [''e:2379''], DbCfg = []\<rparr>,
     localIP = ''10.0.0.1'', driver = \<lparr>mode = 0, cli = True, lease = None, exit = False, leaseDV = 0\<rparr>, reqs = []\<rparr>"

definition demo_etcd_env :: etcd_env where
  "demo_etcd_env = \<lparr>eNew = None, eGrant = Inr 77, ePut = None, eGet = Inr []\<rparr>"

theorem registered_service_becomes_routable_witness:
  "\<exists>key val ev m1 r m2. ServiceWatch_events [EventPut key] = Inr [ev] \<and> run_remote_event (\<lambda>k. k = 2) 0 ev CreateRemoteMgr = Inr m1
     \<and> EtcdPut key val 77 \<in> set (reqs (snd (ServiceRegist (\<lambda>_. DialTimeout) demo_etcd_env demo_etcd)))
     \<and> ChoiceRemote id (GetRemoteID ''ns'' ''ServiceA'') False ''c'' m1 = (Inr (Some r), m2)"
proof -
  have c: "Namespace (ecfg demo_etcd) = ''ns''" "Service (ecfg demo_etcd) = ''ServiceA''" by (simp_all add: demo_etcd_def)
  have "\<exists>s' key val ev m1 r m2 ev2 m3. ServiceRegist (\<lambda>_. DialTimeout) demo_etcd_env demo_etcd = (Inr (), s') \<and> EtcdPut key val 77 \<in> set (reqs s')
    \<and> ServiceWatch_events [EventPut key] = Inr [ev] \<and> run_remote_event (\<lambda>k. k = 2) 0 ev CreateRemoteMgr = Inr m1 \<and> remote_inv m1
    \<and> ChoiceRemote id (GetRemoteID (Namespace (ecfg demo_etcd)) (Service (ecfg demo_etcd))) False ''c'' m1 = (Inr (Some r), m2)
    \<and> remotes m1 (localIP demo_etcd @ '':'' @ show_int (Port (ecfg demo_etcd))) \<noteq> None
    \<and> ServiceWatch_events [EventDelete key] = Inr [ev2] \<and> run_remote_event (\<lambda>k. k = 2) 0 ev2 m1 = Inr m3
    \<and> remotes m3 = remotes CreateRemoteMgr \<and> remote_inv m3"
    by (rule registered_service_becomes_routable)
      (simp_all add: demo_etcd_def demo_etcd_env_def CreateRemoteMgr_def [THEN arg_cong [of _ _ remotes]])
  then show ?thesis unfolding c by force
qed

end
