(* ===== verification/Gate_System.thy ===== *)
theory Gate_System
  imports Gate Rpc_Call Etcd_Driver
begin

text \<open>
  A gate as a whole: the steps its goroutines take on the shared state, and the contract of its routing. The contract is
  the state machine \<open>spec_step\<close>, a table of requests that wait for their answer. The gate refines it: the identifiers
  it hands to the services are fresh, every answer goes to the connection that asked with the number it asked under,
  and no request is answered twice.
\<close>

section \<open>Labels\<close>

text \<open>
  What a step did: a request was routed under an identifier (the asking connection and its number, and the service
  connection and the message sent to it, if it could be encoded); it was refused (the asking connection, its number and the
  error message sent); it was answered (the connection, the error and the reply of the service, and the message sent); it
  was dropped because the asking connection is gone; requests expired; or nothing of the kind.
\<close>

datatype gate_label =
    Routed u32 CONN_ID u32 "(conn \<times> bytes) option"
  | Refused CONN_ID u32 bytes
  | Answered u32 CONN_ID gval gval bytes
  | Dropped u32
  | Expired "u32 set"
  | Internal

definition response_msg :: "msgpack \<Rightarrow> u32 \<Rightarrow> gval \<Rightarrow> gval \<Rightarrow> bytes res" where
  "response_msg mp rid err reply = MessageEncode (RpcEncode mp MSG_G2C_RPC_RSP [vu32 rid, err, reply])"

definition route_label :: "route_req \<Rightarrow> session \<Rightarrow> gate_world \<Rightarrow> gate_world \<Rightarrow> gate_label" where
  "route_label req session w w' =
     (if globalGID w' = globalGID w
      then if rRid req = 0 \<or> out w' = out w then Internal
           else Refused (sconn session) (rRid req) (snd (last (out w')))
      else Routed (globalGID w') (sconn session) (rRid req) (if out w' = out w then None else Some (last (out w'))))"

definition rsp_label :: "gval list \<Rightarrow> gate_world \<Rightarrow> gate_world \<Rightarrow> gate_label" where
  "rsp_label req w w' =
     (let k = as_u32 (req ! 0) in
      if cb_lookup (cbMgr w) k = None then Internal
      else if out w' = out w then Dropped k
      else Answered k (fst (last (out w'))) (req ! 1) (req ! 2) (snd (last (out w'))))"

definition default_rsp_label :: "gval list \<Rightarrow> gate_world \<Rightarrow> gate_label" where
  "default_rsp_label req w =
     (if cb_lookup (cbMgr w) (as_u32 (req ! 0)) = None then Internal else Dropped (as_u32 (req ! 0)))"

section \<open>The steps of the gate\<close>

text \<open>
  Every handler of the gate, the accepting and closing of connections, the events of the etcd driver, the tick of the
  callback manager, the fields the read loops write (\<open>client\<close>, \<open>remote_fields\<close>), the heart beats and the answer to a call of the
  gate itself (\<open>send\<close>), and the bookkeeping of the loops and of the handler wrapper (\<open>io\<close>): tasks queued, sessions
  created, the clock. A handler may panic: run from the task pool the panic ends the process, but run
  by \<open>rpcHandle\<close>, when a peer addresses an rpc call to the gate itself, it is recovered and the gate goes on with what
  the handler did until then; the step is the handler, the answer to such a call is a \<open>send\<close> step.
\<close>

inductive gate_step :: "msgpack \<Rightarrow> (nat \<Rightarrow> nat) \<Rightarrow> gate_world \<Rightarrow> gate_label \<Rightarrow> gate_world \<Rightarrow> bool" for mp intn where
  route: "RpcC2GRpcRoute_Process mp intn req session w = (e, x, w') \<Longrightarrow>
     gate_step mp intn w (route_label req session w w') w'"
| rsp: "RpcS2GRpcRsp_Process mp req session w = (e, x, w') \<Longrightarrow> gate_step mp intn w (rsp_label req w w') w'"
| handler: "Process (gate_user mp intn) h req session w = (e, x, w') \<Longrightarrow> h \<notin> {G_C2GRpcRoute, G_S2GRpcRsp} \<Longrightarrow>
     gate_step mp intn w Internal w'"
| default_rsp: "RpcG2CRpcRsp_Process req session w = (e, x, w') \<Longrightarrow> gate_step mp intn w (default_rsp_label req w) w'"
| tick: "callback_tick (\<lambda>_ _ w. w) w = (Inr (), w') \<Longrightarrow>
     gate_step mp intn w (Expired {k. cb_lookup (cbMgr w) k \<noteq> None \<and> cb_lookup (cbMgr w') k = None}) w'"
| accept: "accept_conn mp (\<lambda>_ w. w) c w = (Inr (), w') \<Longrightarrow> gate_step mp intn w Internal w'"
| close: "gate_step mp intn w Internal (onClientClose c w)"
| stop: "gate_step mp intn w Internal (w\<lparr>tcpServer := Stop_begin (tcpServer w)\<rparr>)"
| remote: "run_remote_event dial t ev (remoteMgr w) = Inr m \<Longrightarrow> gate_step mp intn w Internal (w\<lparr>remoteMgr := m\<rparr>)"
| disconnect: "OnRemoteDisappear rid c (remoteMgr w) = Inr m \<Longrightarrow> gate_step mp intn w Internal (w\<lparr>remoteMgr := m\<rparr>)"
| client: "clients (tcpServer w) k = Some cl \<Longrightarrow> cconn cl' = cconn cl \<Longrightarrow> gate_step mp intn w Internal (set_client k cl' w)"
| remote_fields: "remotes (remoteMgr w) k = Some r \<Longrightarrow> rconn r' = rconn r \<Longrightarrow> gate_step mp intn w Internal (set_remote k r' w)"
| send: "rpc_send mp (Some c) name args w = (b, w') \<Longrightarrow> name \<in> {MSG_S2G_RPC_RSP, MSG_HEART_BEAT_REQ, MSG_HEART_BEAT_RSP} \<Longrightarrow>
     gate_step mp intn w Internal w'"
| count: "gate_step mp intn w Internal (RpcFvcCount w)"
| io: "gate_step mp intn w Internal (w\<lparr>gTaskPool := tp, sessErr := se, nextSid := sd, now := t\<rparr>)"

inductive gate_run :: "msgpack \<Rightarrow> (nat \<Rightarrow> nat) \<Rightarrow> gate_world \<Rightarrow> gate_label list \<Rightarrow> gate_world \<Rightarrow> bool" for mp intn where
  run_nil: "gate_run mp intn w [] w"
| run_step: "gate_run mp intn w tr w1 \<Longrightarrow> gate_step mp intn w1 l w2 \<Longrightarrow> gate_run mp intn w (tr @ [l]) w2"

section \<open>The contract\<close>

record tracker =
  pending :: "u32 \<rightharpoonup> CONN_ID \<times> u32"
  issued :: "u32 set"

inductive spec_step :: "msgpack \<Rightarrow> tracker \<Rightarrow> gate_label \<Rightarrow> tracker \<Rightarrow> bool" for mp where
  issue: "k \<notin> issued t \<Longrightarrow> r \<noteq> 0 \<Longrightarrow>
     spec_step mp t (Routed k c r d) (t\<lparr>pending := (pending t)(k \<mapsto> (c, r)), issued := insert k (issued t)\<rparr>)"
| answer: "pending t k = Some (c, r) \<Longrightarrow> response_msg mp r err reply = Inr m \<Longrightarrow>
     spec_step mp t (Answered k c err reply m) (t\<lparr>pending := (pending t)(k := None)\<rparr>)"
| refuse: "r \<noteq> 0 \<Longrightarrow> response_msg mp r (VStr err) VNil = Inr m \<Longrightarrow> spec_step mp t (Refused c r m) t"
| drop: "pending t k = Some p \<Longrightarrow> spec_step mp t (Dropped k) (t\<lparr>pending := (pending t)(k := None)\<rparr>)"
| expire: "K \<subseteq> dom (pending t) \<Longrightarrow> spec_step mp t (Expired K) (t\<lparr>pending := (\<lambda>k. if k \<in> K then None else pending t k)\<rparr>)"
| internal: "spec_step mp t Internal t"

inductive_cases spec_stepE: "spec_step mp t l t'"

inductive spec_run :: "msgpack \<Rightarrow> tracker \<Rightarrow> gate_label list \<Rightarrow> tracker \<Rightarrow> bool" for mp where
  spec_nil: "spec_run mp t [] t"
| spec_snoc: "spec_run mp t tr t1 \<Longrightarrow> spec_step mp t1 l t2 \<Longrightarrow> spec_run mp t (tr @ [l]) t2"

definition tracker0 :: tracker where
  "tracker0 = \<lparr>pending = Map.empty, issued = {}\<rparr>"

fun routed_id :: "gate_label \<Rightarrow> u32 list" where
  "routed_id (Routed k _ _ _) = [k]"
| "routed_id _ = []"

fun answered_id :: "gate_label \<Rightarrow> u32 list" where
  "answered_id (Answered k _ _ _ _) = [k]"
| "answered_id _ = []"

definition routed_ids :: "gate_label list \<Rightarrow> u32 list" where
  "routed_ids tr = concat (map routed_id tr)"

definition answered_ids :: "gate_label list \<Rightarrow> u32 list" where
  "answered_ids tr = concat (map answered_id tr)"

lemma ids_snoc [simp]:
  "routed_ids (tr @ [l]) = routed_ids tr @ routed_id l" "answered_ids (tr @ [l]) = answered_ids tr @ answered_id l"
  "routed_ids [] = []" "answered_ids [] = []"
  by (simp_all add: routed_ids_def answered_ids_def)

text \<open>What the contract guarantees of a trace.\<close>

definition agreement :: "msgpack \<Rightarrow> gate_label list \<Rightarrow> bool" where
  "agreement mp tr \<longleftrightarrow> distinct (routed_ids tr) \<and> distinct (answered_ids tr)
     \<and> (\<forall>k c err reply m. Answered k c err reply m \<in> set tr \<longrightarrow>
          (\<exists>r d. Routed k c r d \<in> set tr \<and> r \<noteq> 0 \<and> response_msg mp r err reply = Inr m))"

lemma agreement_snoc:
  assumes "agreement mp tr" "distinct (routed_ids tr @ routed_id l)" "answered_id l = []"
  shows "agreement mp (tr @ [l])"
proof -
  have "\<not> (\<exists>k c err reply m. l = Answered k c err reply m)" using assms(3) by auto
  then show ?thesis using assms unfolding agreement_def by simp blast
qed

lemma agreement_answer:
  assumes "agreement mp tr" "k \<notin> set (answered_ids tr)" "Routed k c r d \<in> set tr" "r \<noteq> 0" "response_msg mp r err reply = Inr m"
  shows "agreement mp (tr @ [Answered k c err reply m])"
  using assms unfolding agreement_def by simp blast

lemma spec_run_inv:
  "spec_run mp tracker0 tr t \<Longrightarrow> agreement mp tr \<and> set (routed_ids tr) = issued t \<and> dom (pending t) \<subseteq> issued t
     \<and> dom (pending t) \<inter> set (answered_ids tr) = {} \<and> set (answered_ids tr) \<subseteq> issued t
     \<and> (\<forall>k c r. pending t k = Some (c, r) \<longrightarrow> r \<noteq> 0 \<and> (\<exists>d. Routed k c r d \<in> set tr))"
proof (induction tracker0 tr t rule: spec_run.induct)
  case spec_nil
  then show ?case by (simp add: tracker0_def agreement_def)
next
  case (spec_snoc tr t1 l t2)
  from spec_snoc.hyps(3) show ?case
  proof cases
    case (issue k r c d)
    have "agreement mp (tr @ [l])" by (rule agreement_snoc) (use issue spec_snoc.hyps(2) in \<open>auto simp: agreement_def\<close>)
    then show ?thesis using issue spec_snoc.hyps(2) by auto
  next
    case (answer k c r err reply m)
    obtain d where "Routed k c r d \<in> set tr" "r \<noteq> 0" using answer spec_snoc.hyps(2) by blast
    moreover have "k \<notin> set (answered_ids tr)" using answer spec_snoc.hyps(2) by blast
    ultimately have "agreement mp (tr @ [l])"
      unfolding answer(1) by (intro agreement_answer) (use answer spec_snoc.hyps(2) in auto)
    then show ?thesis using answer spec_snoc.hyps(2) by auto
  next
    case (refuse r err m c)
    have "agreement mp (tr @ [l])" by (rule agreement_snoc) (use refuse spec_snoc.hyps(2) in \<open>auto simp: agreement_def\<close>)
    then show ?thesis using refuse spec_snoc.hyps(2) by auto
  next
    case (drop k p)
    have "agreement mp (tr @ [l])" by (rule agreement_snoc) (use drop spec_snoc.hyps(2) in \<open>auto simp: agreement_def\<close>)
    then show ?thesis using drop spec_snoc.hyps(2) by auto
  next
    case (expire K)
    have "agreement mp (tr @ [l])" by (rule agreement_snoc) (use expire spec_snoc.hyps(2) in \<open>auto simp: agreement_def\<close>)
    moreover have d: "dom (pending t2) \<subseteq> dom (pending t1)" using expire by (auto split: if_splits)
    have "answered_ids (tr @ [l]) = answered_ids tr" "issued t2 = issued t1" using expire(1,2) by simp_all
    then have "dom (pending t2) \<inter> set (answered_ids (tr @ [l])) = {}" "dom (pending t2) \<subseteq> issued t2"
      using d spec_snoc.hyps(2) by (metis (no_types, lifting) disjoint_iff subsetD, metis order_trans)
    moreover have "pending t2 k = Some (c, r) \<Longrightarrow> pending t1 k = Some (c, r)" for k c r
      using expire by (auto split: if_splits)
    ultimately show ?thesis using expire(1,2) spec_snoc.hyps(2) by simp
  next
    case internal
    have "agreement mp (tr @ [l])" by (rule agreement_snoc) (use internal spec_snoc.hyps(2) in \<open>auto simp: agreement_def\<close>)
    then show ?thesis using internal spec_snoc.hyps(2) by auto
  qed
qed

section \<open>The refinement\<close>

text \<open>
  The invariant of the gate: its callback manager is well formed, holds route information only, under identifiers
  already generated, and has no time-out functions; connections are stored under their own address.
\<close>

definition gate_inv :: "gate_world \<Rightarrow> bool" where
  "gate_inv w \<longleftrightarrow> cb_wf (cbMgr w) \<and> snd ` cb_timeouts (cbMgr w) \<subseteq> {None} \<and> netWrite w = good_net
     \<and> (\<forall>k cbs. cb_lookup (cbMgr w) k = Some cbs \<longrightarrow> (\<exists>info. cbs = [ARoute info]))
     \<and> (\<forall>k c. clients (tcpServer w) k = Some c \<longrightarrow> cconn c = k)
     \<and> (\<forall>k r. remotes (remoteMgr w) k = Some r \<longrightarrow> rconn r = k)"

definition abs_pending :: "gate_world \<Rightarrow> u32 \<rightharpoonup> CONN_ID \<times> u32" where
  "abs_pending w k = (case cb_lookup (cbMgr w) k of
     Some [ARoute info] \<Rightarrow> Some (cb_connID info, cb_rid info) | _ \<Rightarrow> None)"

definition gate_sim :: "gate_world \<Rightarrow> tracker \<Rightarrow> bool" where
  "gate_sim w t \<longleftrightarrow> gate_inv w \<and> pending t = abs_pending w
     \<and> issued t = {k. 0 < unat k \<and> unat k \<le> unat (globalGID w)}"

text \<open>A step that leaves the callbacks, the identifiers and the addresses alone is invisible.\<close>

lemma sim_frame:
  assumes "gate_sim w t" "cbMgr w' = cbMgr w" "globalGID w' = globalGID w" "netWrite w' = netWrite w"
    "\<forall>k c. clients (tcpServer w') k = Some c \<longrightarrow> cconn c = k" "\<forall>k r. remotes (remoteMgr w') k = Some r \<longrightarrow> rconn r = k"
  shows "gate_sim w' t"
  using assms by (simp add: gate_sim_def gate_inv_def abs_pending_def fun_eq_iff)

text \<open>\<open>ChoiceRemote\<close> never changes the connections.\<close>

lemma ChoiceRemote_remotes: "ChoiceRemote intn rid ordered k m = (r, m') \<Longrightarrow> remotes m' = remotes m"
  by (auto simp: ChoiceRemote_def ChioceRemoteFromOrderCache_def UpdateRemoteOrderCache_def Let_def
      split: if_splits option.splits sum.splits prod.splits)

lemma no_rsp_sent:
  assumes "no_rsp (rpc_send mp (Some c) name args w) = (e, x, w')" "netWrite w = good_net"
  obtains (failed) "w' = w"
    | (sent) m where "MessageEncode (RpcEncode mp name args) = Inr m" "m \<noteq> []" "w' = w\<lparr>out := out w @ [(c, m)]\<rparr>"
proof (cases "MessageEncode (RpcEncode mp name args)")
  case (Inl p)
  with assms(1) failed show thesis by (simp add: no_rsp_def rpc_send_def)
next
  case (Inr m)
  then have "m \<noteq> []" by (rule MessageEncode_not_Nil)
  with Inr assms sent [of m] show thesis by (simp add: no_rsp_def rpc_send_def MessageSend_def good_net_def)
qed

lemma unat_Suc_u32: "unat (g :: u32) + 1 < 2 ^ 32 \<Longrightarrow> unat (g + 1) = unat g + 1"
  by (simp add: unat_word_ariths)

text \<open>The forwarding branch of the route handler, with the time-out functions.\<close>

lemma route_forward_timeouts:
  assumes "cb_wf (cbMgr w)" "snd ` cb_timeouts (cbMgr w) \<subseteq> {None}" "route_check mp req session w = []" "rRid req \<noteq> 0"
    "ChoiceRemote intn (GetRemoteID (rNameSpace req) (rService req)) (rIsOrdered req) (sconn session) (remoteMgr w) = (Inr (Some r), m)"
  shows "\<exists>cm. RpcC2GRpcRoute_Process mp intn req session w =
      no_rsp (rpc_send mp (Some (rconn r)) (if rIsOrdered req then MSG_G2S_RPC_CALL_ORDERED else MSG_G2S_RPC_CALL)
        [vu32 (globalGID w + 1), VBytes (rInnerRpc req)]
        ((RpcFvcCount w)\<lparr>remoteMgr := m, globalGID := globalGID w + 1, cbMgr := cm\<rparr>))
    \<and> cb_wf cm \<and> cb_lookup cm = (cb_lookup (cbMgr w))(globalGID w + 1 \<mapsto> [ARoute (route_cbInfo mp req session w)])
    \<and> snd ` cb_timeouts cm \<subseteq> {None}"
proof -
  let ?k = "globalGID w + 1" and ?v = "[ARoute (route_cbInfo mp req session w)]"
  let ?w2 = "(RpcFvcCount w)\<lparr>remoteMgr := m, globalGID := ?k\<rparr>"
  obtain cm where cm: "AddCallBack ?k ?v 101 None (now w div 1000) (cbMgr w) = Some cm" "cb_wf cm"
    "cb_lookup cm = (cb_lookup (cbMgr w))(?k \<mapsto> ?v)"
    using cb.add_law [OF assms(1), of ?k ?v 101 None "now w div 1000"] by blast
  have "cb_timeouts cm \<subseteq> insert (?k, None) (cb_timeouts (cbMgr w))" by (rule cbt.add_timeouts [OF assms(1) cm(1)])
  then have "snd ` cb_timeouts cm \<subseteq> snd ` insert (?k, None) (cb_timeouts (cbMgr w))" by (rule image_mono)
  also have "\<dots> \<subseteq> {None}" using assms(2) by simp
  finally have "snd ` cb_timeouts cm \<subseteq> {None}" .
  moreover have info: "route_cbInfo mp req session ?w2 = route_cbInfo mp req session w" by (simp add: route_cbInfo_def)
  have "add_callback ?k ?v 101 None ?w2 = (Inr (), ?w2\<lparr>cbMgr := cm\<rparr>)" using cm(1) by (simp add: add_callback_def)
  then have "RpcC2GRpcRoute_Process mp intn req session w =
      no_rsp (rpc_send mp (Some (rconn r)) (if rIsOrdered req then MSG_G2S_RPC_CALL_ORDERED else MSG_G2S_RPC_CALL)
        [vu32 ?k, VBytes (rInnerRpc req)] (?w2\<lparr>cbMgr := cm\<rparr>))"
    using assms(3-5) info by (simp add: RpcC2GRpcRoute_Process_def Let_def GetConnID_def NewGid_def)
  ultimately show ?thesis using cm(2,3) by (intro exI [of _ cm]) simp
qed

text \<open>A routed request: its identifier is new, and the table gains exactly its entry.\<close>

lemma sim_route_forward:
  assumes "gate_sim w t" "unat (globalGID w) + 1 < 2 ^ 32"
    "RpcC2GRpcRoute_Process mp intn req session w = (e, x, w')" "route_check mp req session w = []" "rRid req \<noteq> 0"
    "ChoiceRemote intn (GetRemoteID (rNameSpace req) (rService req)) (rIsOrdered req) (sconn session) (remoteMgr w) = (Inr (Some r), m)"
  shows "\<exists>t'. spec_step mp t (route_label req session w w') t' \<and> gate_sim w' t'"
proof -
  let ?k = "globalGID w + 1"
  let ?msg = "if rIsOrdered req then MSG_G2S_RPC_CALL_ORDERED else MSG_G2S_RPC_CALL"
  have inv: "cb_wf (cbMgr w)" "snd ` cb_timeouts (cbMgr w) \<subseteq> {None}"
    using assms(1) by (auto simp: gate_sim_def gate_inv_def)
  obtain cm where cm: "RpcC2GRpcRoute_Process mp intn req session w =
      no_rsp (rpc_send mp (Some (rconn r)) ?msg [vu32 ?k, VBytes (rInnerRpc req)]
        ((RpcFvcCount w)\<lparr>remoteMgr := m, globalGID := ?k, cbMgr := cm\<rparr>))"
    "cb_wf cm" "cb_lookup cm = (cb_lookup (cbMgr w))(?k \<mapsto> [ARoute (route_cbInfo mp req session w)])"
    "snd ` cb_timeouts cm \<subseteq> {None}"
    using route_forward_timeouts [OF inv assms(4,5,6)] by blast
  let ?w1 = "(RpcFvcCount w)\<lparr>remoteMgr := m, globalGID := ?k, cbMgr := cm\<rparr>"
  obtain ms where b: "w' = ?w1\<lparr>out := out w @ ms\<rparr>"
    using no_rsp_rpc_send [OF assms(3) [unfolded cm(1)]] by auto
  have k: "unat ?k = unat (globalGID w) + 1" by (rule unat_Suc_u32 [OF assms(2)])
  then have "?k \<noteq> globalGID w" by auto
  then obtain d where l: "route_label req session w w' = Routed ?k (sconn session) (rRid req) d"
    by (simp add: route_label_def b)
  let ?t' = "t\<lparr>pending := (pending t)(?k \<mapsto> (sconn session, rRid req)), issued := insert ?k (issued t)\<rparr>"
  have "spec_step mp t (Routed ?k (sconn session) (rRid req) d) ?t'"
    by (rule issue) (use assms(1,5) k in \<open>auto simp: gate_sim_def\<close>)
  moreover have "gate_sim w' ?t'"
  proof -
    have "remotes m = remotes (remoteMgr w)" by (rule ChoiceRemote_remotes [OF assms(6)])
    then have "gate_inv w'" using assms(1) cm(2-4) by (auto simp: gate_sim_def gate_inv_def b)
    moreover have "abs_pending w' = (abs_pending w)(?k \<mapsto> (sconn session, rRid req))"
      using cm(3) by (auto simp: abs_pending_def b route_cbInfo_def GetConnID_def fun_eq_iff)
    moreover have "insert ?k {j. 0 < unat j \<and> unat j \<le> unat (globalGID w)} = {j. 0 < unat j \<and> unat j \<le> unat ?k}"
      using k by (auto simp: le_Suc_eq word_unat_eq_iff)
    ultimately show ?thesis using assms(1) by (simp add: gate_sim_def b)
  qed
  ultimately show ?thesis unfolding l by blast
qed

text \<open>The other branches of the route handler send at most an error.\<close>

lemma route_error_sent:
  assumes "route_error mp req session err w = (e, x, w')" "netWrite w = good_net" "rRid req \<noteq> 0"
  shows "out w' = out w \<or> (\<exists>m. response_msg mp (rRid req) (VStr err) VNil = Inr m \<and> out w' = out w @ [(sconn session, m)])"
proof -
  have "no_rsp (rpc_send mp (Some (sconn session)) MSG_G2C_RPC_RSP [vu32 (rRid req), VStr err, VNil] w) = (e, x, w')"
    using assms(1,3) by (simp add: route_error_def)
  then show ?thesis using assms(2) by (elim no_rsp_sent) (simp_all add: response_msg_def)
qed

lemma route_other:
  assumes "RpcC2GRpcRoute_Process mp intn req session w = (e, x, w')" "cb_wf (cbMgr w)"
    "\<not> (route_check mp req session w = [] \<and> rRid req \<noteq> 0 \<and> (\<exists>r m. ChoiceRemote intn (GetRemoteID (rNameSpace req) (rService req))
       (rIsOrdered req) (sconn session) (remoteMgr w) = (Inr (Some r), m)))"
  shows "cbMgr w' = cbMgr w \<and> globalGID w' = globalGID w \<and> netWrite w' = netWrite w \<and> tcpServer w' = tcpServer w
    \<and> remotes (remoteMgr w') = remotes (remoteMgr w) \<and> (\<exists>ms. out w' = out w @ ms)
    \<and> (netWrite w = good_net \<and> rRid req \<noteq> 0 \<longrightarrow>
         out w' = out w \<or> (\<exists>err m. response_msg mp (rRid req) (VStr err) VNil = Inr m \<and> out w' = out w @ [(sconn session, m)]))"
proof (cases "route_check mp req session w = []")
  case False
  then have "route_error mp req session (route_check mp req session w) (RpcFvcCount w) = (e, x, w')"
    using assms(1) by (simp add: RpcC2GRpcRoute_Process_def Let_def)
  from route_error_out [OF this] route_error_sent [OF this] show ?thesis by auto
next
  case True
  obtain res m where ch: "ChoiceRemote intn (GetRemoteID (rNameSpace req) (rService req)) (rIsOrdered req) (sconn session) (remoteMgr w) = (res, m)"
    by fastforce
  note rem = ChoiceRemote_remotes [OF ch]
  show ?thesis
  proof (cases res)
    case (Inl p)
    then have "w' = (RpcFvcCount w)\<lparr>remoteMgr := m\<rparr>"
      using assms(1) True ch by (simp add: RpcC2GRpcRoute_Process_def Let_def GetConnID_def)
    then show ?thesis using rem by simp
  next
    case (Inr found)
    show ?thesis
    proof (cases found)
      case None
      then have "route_error mp req session (''service '' @ rNameSpace req @ '':'' @ rService req @ '' not exist'')
          ((RpcFvcCount w)\<lparr>remoteMgr := m\<rparr>) = (e, x, w')"
        using assms(1) True ch Inr by (simp add: RpcC2GRpcRoute_Process_def Let_def GetConnID_def)
      from route_error_out [OF this] route_error_sent [OF this] rem show ?thesis by auto
    next
      case (Some r)
      then have rid: "rRid req = 0" using assms(3) True ch Inr by blast
      let ?msg = "if rIsOrdered req then MSG_G2S_RPC_CALL_ORDERED else MSG_G2S_RPC_CALL"
      have "no_rsp (rpc_send mp (Some (rconn r)) ?msg [vu32 0, VBytes (rInnerRpc req)] ((RpcFvcCount w)\<lparr>remoteMgr := m\<rparr>)) = (e, x, w')"
        using assms(1) True ch Inr Some rid by (simp add: RpcC2GRpcRoute_Process_def Let_def GetConnID_def)
      from no_rsp_rpc_send [OF this] rem rid show ?thesis by auto
    qed
  qed
qed

lemma sim_route:
  assumes "gate_sim w t" "unat (globalGID w) + 1 < 2 ^ 32" "RpcC2GRpcRoute_Process mp intn req session w = (e, x, w')"
  shows "\<exists>t'. spec_step mp t (route_label req session w w') t' \<and> gate_sim w' t'"
proof (cases "route_check mp req session w = [] \<and> rRid req \<noteq> 0 \<and> (\<exists>r m. ChoiceRemote intn (GetRemoteID (rNameSpace req) (rService req))
       (rIsOrdered req) (sconn session) (remoteMgr w) = (Inr (Some r), m))")
  case True
  then obtain r m where "ChoiceRemote intn (GetRemoteID (rNameSpace req) (rService req)) (rIsOrdered req) (sconn session) (remoteMgr w) = (Inr (Some r), m)"
    by blast
  from sim_route_forward [OF assms _ _ this] True show ?thesis by blast
next
  case False
  have wf: "cb_wf (cbMgr w)" using assms(1) by (simp add: gate_sim_def gate_inv_def)
  note f = route_other [OF assms(3) wf False]
  have nw: "netWrite w = good_net" using assms(1) by (simp add: gate_sim_def gate_inv_def)
  have sim: "gate_sim w' t" by (rule sim_frame [OF assms(1)]) (use f assms(1) in \<open>auto simp: gate_sim_def gate_inv_def\<close>)
  show ?thesis
  proof (cases "rRid req = 0 \<or> out w' = out w")
    case True
    then have "route_label req session w w' = Internal" using f by (simp add: route_label_def)
    then show ?thesis using internal sim by metis
  next
    case False
    then obtain err m where m: "response_msg mp (rRid req) (VStr err) VNil = Inr m" "out w' = out w @ [(sconn session, m)]"
      using f nw by blast
    then have "route_label req session w w' = Refused (sconn session) (rRid req) m" using f False by (simp add: route_label_def)
    then show ?thesis using refuse [OF _ m(1)] False sim by metis
  qed
qed

text \<open>A response: the request it answers leaves the table.\<close>

lemma gate_inv_take:
  assumes "gate_inv w" "cm = snd (GetCallBack k (cbMgr w))"
  shows "gate_inv (w\<lparr>cbMgr := cm, out := o'\<rparr>)" "abs_pending (w\<lparr>cbMgr := cm, out := o'\<rparr>) = (abs_pending w)(k := None)"
proof -
  have wf: "cb_wf (cbMgr w)" using assms(1) by (simp add: gate_inv_def)
  note g = cb.get_law [OF wf, of k]
  have "snd ` cb_timeouts cm \<subseteq> {None}"
    using image_mono [OF cbt.get_timeouts [OF wf, of k], of snd] assms by (auto simp: gate_inv_def)
  with g assms show "gate_inv (w\<lparr>cbMgr := cm, out := o'\<rparr>)" by (auto simp: gate_inv_def split: if_splits)
  show "abs_pending (w\<lparr>cbMgr := cm, out := o'\<rparr>) = (abs_pending w)(k := None)"
    using g assms(2) by (auto simp: abs_pending_def fun_eq_iff)
qed

lemma sim_rsp:
  assumes "gate_sim w t" "RpcS2GRpcRsp_Process mp req session w = (e, x, w')"
  shows "\<exists>t'. spec_step mp t (rsp_label req w w') t' \<and> gate_sim w' t'"
proof -
  let ?k = "as_u32 (req ! 0)" and ?cm = "snd (GetCallBack (as_u32 (req ! 0)) (cbMgr w))"
  have inv: "gate_inv w" and t: "pending t = abs_pending w" "issued t = {k. 0 < unat k \<and> unat k \<le> unat (globalGID w)}"
    using assms(1) by (simp_all add: gate_sim_def)
  then have wf: "cb_wf (cbMgr w)" and nw: "netWrite w = good_net" by (simp_all add: gate_inv_def)
  have get: "get_callback ?k w = (cb_lookup (cbMgr w) ?k, w\<lparr>cbMgr := ?cm\<rparr>)"
    using cb.get_law [OF wf, of ?k] by (simp add: get_callback_def split_beta)
  show ?thesis
  proof (cases "cb_lookup (cbMgr w) ?k")
    case None
    then have "w' = w\<lparr>cbMgr := ?cm, out := out w\<rparr>" using assms(2) get by (auto simp: RpcS2GRpcRsp_Process_def)
    moreover have "(abs_pending w)(?k := None) = abs_pending w" using None by (auto simp: abs_pending_def)
    ultimately have "gate_sim w' t" using gate_inv_take [OF inv refl, where k = ?k and o' = "out w"] t by (simp add: gate_sim_def)
    moreover have "rsp_label req w w' = Internal" using None by (simp add: rsp_label_def)
    ultimately show ?thesis using internal by metis
  next
    case (Some cbs)
    then obtain info where cbs: "cbs = [ARoute info]" using inv unfolding gate_inv_def by blast
    have conn: "rsp_conn (cb_connID info) (w\<lparr>cbMgr := ?cm\<rparr>) = rsp_conn (cb_connID info) w"
      by (simp add: rsp_conn_def GetTcpClient_def GetRemote_def split: option.splits)
    have pend: "pending t ?k = Some (cb_connID info, cb_rid info)" using Some cbs t(1) by (simp add: abs_pending_def)
    have p: "(case rsp_conn (cb_connID info) w of
         None \<Rightarrow> (None, None, w\<lparr>cbMgr := ?cm\<rparr>)
       | Some c \<Rightarrow> no_rsp (rpc_send mp (Some c) MSG_G2C_RPC_RSP [vu32 (cb_rid info), req ! 1, req ! 2] (w\<lparr>cbMgr := ?cm\<rparr>))) = (e, x, w')"
      using assms(2) get Some cbs conn by (simp add: RpcS2GRpcRsp_Process_def)
    let ?t' = "t\<lparr>pending := (pending t)(?k := None)\<rparr>"
    have sim: "gate_sim (w\<lparr>cbMgr := ?cm, out := o'\<rparr>) ?t'" for o'
      using gate_inv_take [OF inv refl, where k = ?k and o' = o'] t by (simp add: gate_sim_def)
    show ?thesis
    proof (cases "w' = w\<lparr>cbMgr := ?cm\<rparr>")
      case True
      then have "w' = w\<lparr>cbMgr := ?cm, out := out w\<rparr>" by simp
      moreover from this have "rsp_label req w w' = Dropped ?k" using Some by (simp add: rsp_label_def)
      ultimately show ?thesis using sim [of "out w"] drop [OF pend] by metis
    next
      case False
      then obtain c where c: "rsp_conn (cb_connID info) w = Some c" using p by (cases "rsp_conn (cb_connID info) w") auto
      then have ce: "c = cb_connID info"
        using inv by (auto simp: rsp_conn_def GetTcpClient_def GetRemote_def gate_inv_def split: option.splits)
      have "no_rsp (rpc_send mp (Some c) MSG_G2C_RPC_RSP [vu32 (cb_rid info), req ! 1, req ! 2] (w\<lparr>cbMgr := ?cm\<rparr>)) = (e, x, w')"
        using p c by simp
      then obtain b where b: "MessageEncode (RpcEncode mp MSG_G2C_RPC_RSP [vu32 (cb_rid info), req ! 1, req ! 2]) = Inr b"
        "w' = w\<lparr>cbMgr := ?cm, out := out w @ [(c, b)]\<rparr>"
        using False nw by (elim no_rsp_sent) simp_all
      have "rsp_label req w w' = Answered ?k (cb_connID info) (req ! 1) (req ! 2) b"
        using Some b(2) ce by (simp add: rsp_label_def)
      moreover have "spec_step mp t (Answered ?k (cb_connID info) (req ! 1) (req ! 2) b) ?t'"
        by (rule answer [OF pend]) (use b(1) in \<open>simp add: response_msg_def\<close>)
      ultimately show ?thesis using sim [of "out w @ [(c, b)]"] b(2) by metis
    qed
  qed
qed

text \<open>The remaining steps are invisible.\<close>

lemma handler_frame:
  assumes "Process (gate_user mp intn) h req session w = (e, x, w')" "h \<notin> {G_C2GRpcRoute, G_S2GRpcRsp}"
    "\<forall>k c. clients (tcpServer w) k = Some c \<longrightarrow> cconn c = k"
  shows "cbMgr w' = cbMgr w \<and> globalGID w' = globalGID w \<and> netWrite w' = netWrite w \<and> remoteMgr w' = remoteMgr w
    \<and> (\<forall>k c. clients (tcpServer w') k = Some c \<longrightarrow> cconn c = k)"
proof (cases h)
  case G_GateLogin
  then show ?thesis using assms
    by (auto simp: gate_user_def RpcGateLogin_Process_def split: option.splits prod.splits sum.splits)
next
  case G_GateLogoff
  then show ?thesis using assms
    by (auto simp: gate_user_def RpcGateLogoff_Process_def split: option.splits prod.splits sum.splits)
next
  case G_ReqListenAddr
  then have "\<exists>r. rpc_send mp (Some (sconn session)) MSG_G2P_RSP_LISTENADDR [VStr (listenAddr w)] w = (r, w')" using assms(1)
    by (auto simp: gate_user_def RpcReqListenAddr_Process_def split: prod.splits sum.splits)
  then obtain o' where "w' = w\<lparr>out := o'\<rparr>" using rpc_send_frame by blast
  with assms(3) show ?thesis by auto
next
  case G_P2GPush
  show ?thesis
  proof (cases "GetTcpClient (as_str (req ! 0)) w")
    case None
    then show ?thesis using G_P2GPush assms by (auto simp: gate_user_def RpcP2GPush_Process_def)
  next
    case (Some client)
    then have "no_rsp (rpc_send mp (Some (cconn client)) MSG_G2C_PUSH [req ! 1, req ! 2, req ! 3] w) = (e, x, w')"
      using G_P2GPush assms(1) by (simp add: gate_user_def RpcP2GPush_Process_def)
    from no_rsp_rpc_send [OF this] assms(3) show ?thesis by auto
  qed
next
  case G_C2GVertify
  then show ?thesis using assms
    by (auto simp: gate_user_def RpcC2GVertify_Process_def Let_def SetState_def GetConnID_def split: option.splits if_splits)
next
  case G_S2GRpcAccessReport
  then show ?thesis using assms by (auto simp: gate_user_def RpcS2GRpcAccessReport_Process_def)
qed (use assms(2) in auto)

lemma sim_default_rsp:
  assumes "gate_sim w t" "RpcG2CRpcRsp_Process req session w = (e, x, w')"
  shows "\<exists>t'. spec_step mp t (default_rsp_label req w) t' \<and> gate_sim w' t'"
proof -
  let ?k = "as_u32 (req ! 0)" and ?cm = "snd (GetCallBack (as_u32 (req ! 0)) (cbMgr w))"
  have inv: "gate_inv w" and t: "pending t = abs_pending w" "issued t = {k. 0 < unat k \<and> unat k \<le> unat (globalGID w)}"
    using assms(1) by (simp_all add: gate_sim_def)
  then have wf: "cb_wf (cbMgr w)" by (simp add: gate_inv_def)
  have get: "get_callback ?k w = (cb_lookup (cbMgr w) ?k, w\<lparr>cbMgr := ?cm\<rparr>)"
    using cb.get_law [OF wf, of ?k] by (simp add: get_callback_def split_beta)
  have sim: "gate_sim (w\<lparr>cbMgr := ?cm\<rparr>) (t\<lparr>pending := (pending t)(?k := None)\<rparr>)"
    using gate_inv_take [OF inv refl, where k = ?k and o' = "out w"] t by (simp add: gate_sim_def)
  show ?thesis
  proof (cases "cb_lookup (cbMgr w) ?k")
    case None
    then have "w' = w\<lparr>cbMgr := ?cm\<rparr>" using assms(2) get by (auto simp: RpcG2CRpcRsp_Process_def)
    moreover have "(pending t)(?k := None) = pending t" using None t(1) by (auto simp: abs_pending_def)
    ultimately have "gate_sim w' t" using sim by simp
    then show ?thesis using None internal by (auto simp: default_rsp_label_def)
  next
    case (Some cbs)
    then obtain info where cbs: "cbs = [ARoute info]" using inv unfolding gate_inv_def by blast
    then have "w' = w\<lparr>cbMgr := ?cm\<rparr>" using assms(2) get Some by (auto simp: RpcG2CRpcRsp_Process_def)
    moreover have "pending t ?k = Some (cb_connID info, cb_rid info)" using Some cbs t(1) by (simp add: abs_pending_def)
    moreover have "default_rsp_label req w = Dropped ?k" using Some by (simp add: default_rsp_label_def)
    ultimately show ?thesis using sim drop by metis
  qed
qed

lemma sim_tick:
  assumes "gate_sim w t" "callback_tick cf w = (Inr (), w')"
  shows "\<exists>t'. spec_step mp t (Expired {k. cb_lookup (cbMgr w) k \<noteq> None \<and> cb_lookup (cbMgr w') k = None}) t' \<and> gate_sim w' t'"
proof -
  have inv: "gate_inv w" and t: "pending t = abs_pending w" using assms(1) by (simp_all add: gate_sim_def)
  obtain m K where m: "w' = w\<lparr>cbMgr := m\<rparr>" "cb_wf m" "cb_timeouts m \<subseteq> cb_timeouts (cbMgr w)"
    "\<forall>k\<in>K. cb_lookup (cbMgr w) k \<noteq> None" "cb_lookup m = (\<lambda>k. if k \<in> K then None else cb_lookup (cbMgr w) k)"
    using callback_tick_nil [of w cf] inv assms(2) by (auto simp: gate_inv_def)
  have E: "{k. cb_lookup (cbMgr w) k \<noteq> None \<and> cb_lookup (cbMgr w') k = None} = K"
    using m(1,4,5) by auto
  have dom: "abs_pending w k \<noteq> None" if "cb_lookup (cbMgr w) k \<noteq> None" for k
  proof -
    from that inv obtain info where "cb_lookup (cbMgr w) k = Some [ARoute info]" unfolding gate_inv_def by blast
    then show ?thesis by (simp add: abs_pending_def)
  qed
  let ?t' = "t\<lparr>pending := (\<lambda>k. if k \<in> K then None else pending t k)\<rparr>"
  have "spec_step mp t (Expired K) ?t'"
    by (rule expire) (use m(4) dom t in auto)
  moreover have "abs_pending w' = (\<lambda>k. if k \<in> K then None else abs_pending w k)"
    using m(1,5) by (auto simp: abs_pending_def)
  moreover have "snd ` cb_timeouts m \<subseteq> {None}"
    using image_mono [OF m(3), of snd] inv by (auto simp: gate_inv_def)
  then have "gate_inv w'" using inv m(1,2,5) by (auto simp: gate_inv_def split: if_splits)
  ultimately show ?thesis unfolding E using assms(1) m(1) by (intro exI [of _ ?t']) (auto simp: gate_sim_def)
qed

lemma OnRemoteDisappear_remotes:
  "OnRemoteDisappear rid c m = Inr m' \<Longrightarrow> remotes m' = (remotes m)(c := None) \<and> orderedCache m' = orderedCache m"
  by (auto simp: OnRemoteDisappear_def Let_def split: if_splits option.splits)

lemma run_remote_event_addr:
  assumes "run_remote_event dial t ev m = Inr m'" "\<forall>k r. remotes m k = Some r \<longrightarrow> rconn r = k"
  shows "\<forall>k r. remotes m' k = Some r \<longrightarrow> rconn r = k"
proof (cases ev)
  case (Discover ns svc i p)
  have c: "\<forall>k r. remotes (ConnectRemote ns svc i p t m) k = Some r \<longrightarrow> rconn r = k"
    using assms(2) by (auto simp: ConnectRemote_def Let_def split: prod.splits if_splits)
  show ?thesis using c assms Discover by (auto simp: run_remote_event_def OnRemoteDiscover_def split: if_splits)
next
  case (Disappear ns svc i p)
  then show ?thesis using assms
    by (auto simp: run_remote_event_def OnRemoteDisappear_def Let_def split: if_splits option.splits)
qed

lemma gate_sim_step:
  assumes "gate_step mp intn w l w'" "gate_sim w t" "unat (globalGID w) + 1 < 2 ^ 32"
  shows "\<exists>t'. spec_step mp t l t' \<and> gate_sim w' t'"
  using assms(1)
proof cases
  case (route req session e x)
  then show ?thesis using sim_route [OF assms(2,3)] by blast
next
  case (rsp req session e x)
  then show ?thesis using sim_rsp [OF assms(2)] by blast
next
  case (handler h req session e x)
  have "\<forall>k c. clients (tcpServer w) k = Some c \<longrightarrow> cconn c = k" "\<forall>k r. remotes (remoteMgr w) k = Some r \<longrightarrow> rconn r = k"
    using assms(2) by (auto simp: gate_sim_def gate_inv_def)
  with handler_frame [OF handler(2,3)] have "gate_sim w' t" by (intro sim_frame [OF assms(2)]) auto
  with handler(1) show ?thesis using internal by blast
next
  case (default_rsp req session e x)
  then show ?thesis using sim_default_rsp [OF assms(2)] by blast
next
  case tick
  then show ?thesis using sim_tick [OF assms(2)] by blast
next
  case (accept c)
  have addr: "\<forall>k c. clients (tcpServer w) k = Some c \<longrightarrow> cconn c = k" "\<forall>k r. remotes (remoteMgr w) k = Some r \<longrightarrow> rconn r = k"
    using assms(2) by (auto simp: gate_sim_def gate_inv_def)
  from accept(2) same_out have "gate_sim w' t"
  proof (cases rule: accept_conn_cases)
    case stopped
    then show ?thesis using assms(2) by (simp only:)
  next
    case (accepted o')
    have "cconn d = k" if "clients (tcpServer w') k = Some d" for k d
    proof (cases "k = c")
      case True
      then show ?thesis using that [symmetric] unfolding accepted(2) by simp
    next
      case False
      then have "clients (tcpServer w) k = Some d" using that unfolding accepted(2) by simp
      then show ?thesis using addr(1) by blast
    qed
    moreover have "cbMgr w' = cbMgr w" "globalGID w' = globalGID w" "netWrite w' = netWrite w" "remoteMgr w' = remoteMgr w"
      unfolding accepted(2) by simp_all
    ultimately show ?thesis using addr(2) by (intro sim_frame [OF assms(2)]) simp_all
  qed
  with accept(1) show ?thesis using internal by blast
next
  case (close c)
  have "gate_sim w' t" unfolding close(2)
    by (rule sim_frame [OF assms(2)])
      (use assms(2) in \<open>auto simp: gate_sim_def gate_inv_def onClientClose_def Let_def DelRemoteOrderCache_def split: if_splits\<close>)
  with close(1) show ?thesis using internal by blast
next
  case stop
  have "gate_sim w' t" unfolding stop(2)
    by (rule sim_frame [OF assms(2)]) (use assms(2) in \<open>auto simp: gate_sim_def gate_inv_def Stop_begin_def\<close>)
  with stop(1) show ?thesis using internal by blast
next
  case (remote dial tm ev m)
  have addr: "\<forall>k c. clients (tcpServer w) k = Some c \<longrightarrow> cconn c = k" "\<forall>k r. remotes (remoteMgr w) k = Some r \<longrightarrow> rconn r = k"
    using assms(2) by (simp_all add: gate_sim_def gate_inv_def)
  have "gate_sim w' t" unfolding remote(2)
    by (rule sim_frame [OF assms(2)]) (use addr(1) run_remote_event_addr [OF remote(3) addr(2)] in simp_all)
  with remote(1) show ?thesis using internal by blast
next
  case (disconnect rid c m)
  have "gate_sim w' t" unfolding disconnect(2)
    by (rule sim_frame [OF assms(2)])
      (use assms(2) OnRemoteDisappear_remotes [OF disconnect(3)] in \<open>auto simp: gate_sim_def gate_inv_def\<close>)
  with disconnect(1) show ?thesis using internal by blast
next
  case (client k cl cl')
  have "gate_sim w' t" unfolding client(2)
    by (rule sim_frame [OF assms(2)])
      (use assms(2) client(3,4) in \<open>auto simp: gate_sim_def gate_inv_def set_client_def split: if_splits\<close>)
  with client(1) show ?thesis using internal by blast
next
  case (remote_fields k r r')
  have "gate_sim w' t" unfolding remote_fields(2)
    by (rule sim_frame [OF assms(2)])
      (use assms(2) remote_fields(3,4) in \<open>auto simp: gate_sim_def gate_inv_def set_remote_def split: if_splits\<close>)
  with remote_fields(1) show ?thesis using internal by blast
next
  case (send c name args b)
  then obtain o' where o': "w' = w\<lparr>out := o'\<rparr>" using rpc_send_frame by blast
  have "gate_sim w' t" unfolding o'
    by (rule sim_frame [OF assms(2)]) (use assms(2) in \<open>simp_all add: gate_sim_def gate_inv_def\<close>)
  with send(1) show ?thesis using internal by blast
next
  case count
  have "gate_sim w' t" unfolding count(2)
    by (rule sim_frame [OF assms(2)]) (use assms(2) in \<open>simp_all add: gate_sim_def gate_inv_def\<close>)
  with count(1) show ?thesis using internal by blast
next
  case (io tp se sd tm)
  have "gate_sim w' t" unfolding io(2)
    by (rule sim_frame [OF assms(2)]) (use assms(2) in \<open>simp_all add: gate_sim_def gate_inv_def\<close>)
  with io(1) show ?thesis using internal by blast
qed

text \<open>The number of identifiers handed out bounds the generator.\<close>

lemma card_ids: "card {k :: u32. 0 < unat k \<and> unat k \<le> unat g} = unat g" for g :: u32
proof -
  have "unat ` {k :: u32. 0 < unat k \<and> unat k \<le> unat g} = {1..unat g}"
  proof (intro set_eqI iffI)
    fix n assume n: "n \<in> {1..unat g}"
    then have "n < 2 ^ 32" using unsigned_less [of g, where ?'a = nat] by simp
    then have "unat (of_nat n :: u32) = n" by (simp add: unat_of_nat_u32)
    with n show "n \<in> unat ` {k :: u32. 0 < unat k \<and> unat k \<le> unat g}" by (intro image_eqI [of _ _ "of_nat n"]) auto
  qed auto
  then have "card (unat ` {k :: u32. 0 < unat k \<and> unat k \<le> unat g}) = unat g" by simp
  moreover have "inj_on unat {k :: u32. 0 < unat k \<and> unat k \<le> unat g}" by (auto intro: inj_onI simp: word_unat_eq_iff)
  ultimately show ?thesis by (simp add: card_image)
qed

lemma gate_sim_run:
  assumes "gate_run mp intn w tr w'" "gate_sim w tracker0" "length (routed_ids tr) + 1 < 2 ^ 32" "globalGID w = 0"
  shows "\<exists>t. spec_run mp tracker0 tr t \<and> gate_sim w' t"
  using assms
proof (induction rule: gate_run.induct)
  case (run_nil w)
  then show ?case using spec_nil by blast
next
  case (run_step w tr w1 l w2)
  have "length (routed_ids tr) + 1 < 2 ^ 32" using run_step.prems(2) by simp
  then obtain t1 where t1: "spec_run mp tracker0 tr t1" "gate_sim w1 t1"
    using run_step.IH [OF run_step.prems(1) _ run_step.prems(3)] by blast
  have "card (issued t1) = unat (globalGID w1)" using t1(2) card_ids by (simp add: gate_sim_def)
  moreover have "set (routed_ids tr) = issued t1" using spec_run_inv [OF t1(1)] by blast
  ultimately have "unat (globalGID w1) \<le> length (routed_ids tr)" by (metis card_length)
  then have "unat (globalGID w1) + 1 < 2 ^ 32" using run_step.prems(2) by simp
  from gate_sim_step [OF run_step.hyps(2) t1(2) this] obtain t2 where "spec_step mp t1 l t2" "gate_sim w2 t2" by blast
  then show ?case using spec_snoc [OF t1(1)] by blast
qed

text \<open>The started gate is related to the empty table.\<close>

lemma gate_main_Inr:
  assumes "gate_main mp intn n c localip addr d t0 nw = Inr w"
  shows "cbMgr w = new_cbmgr" "globalGID w = 0" "netWrite w = nw" "clients (tcpServer w) = Map.empty"
    "remoteMgr w = CreateRemoteMgr" "stop (tcpServer w) = False" "gate_identity (Service c) = Inr (serverIdentity w)" "now w = t0" "out w = []"
    "rpcFvcTotal w = 0" "gTaskPool w = new_TaskPool" "gate_rpcMgr mp intn n = Inr (rpcMgr w)"
    "slb (tcpServer w) = new_LoadBalancer"
  using assms by (auto simp: gate_main_def res_bind_Inr_iff world.defs Init_def CreateTcpServer_def)

lemma gate_sim_main:
  assumes "gate_main mp intn n c localip addr d t0 good_net = Inr w"
  shows "gate_sim w tracker0"
proof -
  note M = gate_main_Inr [OF assms]
  have "cb_lookup (new_cbmgr :: (gany list, timeout_cb) cbmgr) = Map.empty" by (simp add: cb_lookup_def new_cbmgr_def fun_eq_iff)
  moreover have "{k :: u32. 0 < unat k \<and> unat k \<le> unat (0 :: u32)} = {}" by (intro equals0I) auto
  ultimately show ?thesis
    unfolding gate_sim_def gate_inv_def tracker0_def M(1-5)
    by (auto simp: CreateRemoteMgr_def abs_pending_def fun_eq_iff M)
qed


section \<open>The messages of a run\<close>

text \<open>The messages a label stands for are written by the step it labels.\<close>

fun label_msgs :: "gate_label \<Rightarrow> (conn \<times> bytes) list" where
  "label_msgs (Routed k c r (Some d)) = [d]"
| "label_msgs (Refused c r m) = [(c, m)]"
| "label_msgs (Answered k c err reply m) = [(c, m)]"
| "label_msgs _ = []"

definition writes :: "gate_world \<Rightarrow> (conn \<times> bytes) list \<Rightarrow> gate_world \<Rightarrow> bool" where
  "writes w ms w' \<longleftrightarrow> (\<exists>ms'. out w' = out w @ ms' \<and> set ms \<subseteq> set ms')"

lemma writes_same: "out w' = out w \<Longrightarrow> writes w [] w'"
  by (simp add: writes_def)

lemma writes_last: "out w' = out w @ ms \<Longrightarrow> ms \<noteq> [] \<Longrightarrow> writes w [last (out w')] w'"
  by (auto simp: writes_def)

lemma writes_rpc_send: "rpc_send mp c name args w1 = (r, w') \<Longrightarrow> out w1 = out w \<Longrightarrow> writes w [] w'"
  using rpc_send_out [of mp c name args w1 r w'] by (auto simp: writes_def)

lemma writes_no_rsp: "no_rsp (rpc_send mp (Some c) name args w1) = (e, x, w') \<Longrightarrow> out w1 = out w \<Longrightarrow> writes w [] w'"
  using no_rsp_rpc_send [of mp c name args w1 e x w'] by (auto simp: writes_def)

lemma writes_route:
  assumes "RpcC2GRpcRoute_Process mp intn req session w = (e, x, w')" "gate_inv w"
  shows "writes w (label_msgs (route_label req session w w')) w'"
proof (cases "route_check mp req session w = [] \<and> rRid req \<noteq> 0 \<and> (\<exists>r m. ChoiceRemote intn (GetRemoteID (rNameSpace req) (rService req))
       (rIsOrdered req) (sconn session) (remoteMgr w) = (Inr (Some r), m))")
  case True
  then obtain r m where c: "ChoiceRemote intn (GetRemoteID (rNameSpace req) (rService req)) (rIsOrdered req) (sconn session) (remoteMgr w) = (Inr (Some r), m)"
    by blast
  have inv: "cb_wf (cbMgr w)" "snd ` cb_timeouts (cbMgr w) \<subseteq> {None}" using assms(2) by (simp_all add: gate_inv_def)
  let ?w1 = "\<lambda>cm. (RpcFvcCount w)\<lparr>remoteMgr := m, globalGID := globalGID w + 1, cbMgr := cm\<rparr>"
  obtain cm where cm: "RpcC2GRpcRoute_Process mp intn req session w =
      no_rsp (rpc_send mp (Some (rconn r)) (if rIsOrdered req then MSG_G2S_RPC_CALL_ORDERED else MSG_G2S_RPC_CALL)
        [vu32 (globalGID w + 1), VBytes (rInnerRpc req)] (?w1 cm))"
    using route_forward_timeouts [OF inv _ _ c] True by blast
  obtain ms where w': "w' = (?w1 cm)\<lparr>out := out w @ ms\<rparr>" using no_rsp_rpc_send [OF assms(1) [unfolded cm]] by auto
  then have o: "out w' = out w @ ms" and g: "globalGID w' = globalGID w + 1" by simp_all
  show ?thesis using writes_last [OF o] writes_same [of w' w] o by (cases "ms = []") (simp_all add: route_label_def g)
next
  case False
  have wf: "cb_wf (cbMgr w)" "netWrite w = good_net" using assms(2) by (simp_all add: gate_inv_def)
  note f = route_other [OF assms(1) wf(1) False]
  consider "rRid req = 0" | "out w' = out w" | m where "rRid req \<noteq> 0" "out w' = out w @ [(sconn session, m)]"
    using f wf(2) by blast
  then show ?thesis
  proof cases
    case 1
    then show ?thesis using f by (auto simp: route_label_def writes_def)
  qed (use f in \<open>auto simp: route_label_def writes_def\<close>)
qed

lemma writes_rsp:
  assumes "RpcS2GRpcRsp_Process mp req session w = (e, x, w')" "gate_inv w"
  shows "writes w (label_msgs (rsp_label req w w')) w'"
proof (cases "cb_lookup (cbMgr w) (as_u32 (req ! 0))")
  case None
  then have "out w' = out w" using rsp_unknown [OF _ None, of mp session] assms by (auto simp: gate_inv_def)
  then show ?thesis using None by (simp add: rsp_label_def writes_same)
next
  case (Some cbs)
  then obtain info where cbs: "cbs = [ARoute info]" using assms(2) unfolding gate_inv_def by blast
  have wf: "cb_wf (cbMgr w)" using assms(2) by (simp add: gate_inv_def)
  obtain cm where cm: "RpcS2GRpcRsp_Process mp req session w =
      (case rsp_conn (cb_connID info) w of
         None \<Rightarrow> (None, None, w\<lparr>cbMgr := cm\<rparr>)
       | Some c \<Rightarrow> no_rsp (rpc_send mp (Some c) MSG_G2C_RPC_RSP [vu32 (cb_rid info), req ! 1, req ! 2] (w\<lparr>cbMgr := cm\<rparr>)))"
    using rsp_known [OF wf Some [unfolded cbs], of mp session] by blast
  have "\<exists>ms. out w' = out w @ ms"
  proof (cases "rsp_conn (cb_connID info) w")
    case None
    then show ?thesis using assms(1) cm by auto
  next
    case (Some c)
    then have "no_rsp (rpc_send mp (Some c) MSG_G2C_RPC_RSP [vu32 (cb_rid info), req ! 1, req ! 2] (w\<lparr>cbMgr := cm\<rparr>)) = (e, x, w')"
      using assms(1) cm by simp
    from no_rsp_rpc_send [OF this] show ?thesis by auto
  qed
  then obtain ms where ms: "out w' = out w @ ms" by blast
  show ?thesis using writes_last [OF ms] writes_same [of w' w] ms Some by (cases "ms = []") (simp_all add: rsp_label_def)
qed

lemma writes_handler:
  assumes "Process (gate_user mp intn) h req session w = (e, x, w')" "h \<notin> {G_C2GRpcRoute, G_S2GRpcRsp}"
  shows "writes w [] w'"
proof (cases h)
  case G_ReqListenAddr
  then have "\<exists>r. rpc_send mp (Some (sconn session)) MSG_G2P_RSP_LISTENADDR [VStr (listenAddr w)] w = (r, w')" using assms(1)
    by (auto simp: gate_user_def RpcReqListenAddr_Process_def split: prod.splits sum.splits)
  then show ?thesis using writes_rpc_send by blast
next
  case G_P2GPush
  then show ?thesis using assms(1)
    by (auto simp: gate_user_def RpcP2GPush_Process_def split: option.splits intro: writes_no_rsp writes_same)
next
  case G_GateLogin
  then show ?thesis using assms by (auto simp: gate_user_def RpcGateLogin_Process_def split: option.splits prod.splits sum.splits intro: writes_same)
next
  case G_GateLogoff
  then show ?thesis using assms by (auto simp: gate_user_def RpcGateLogoff_Process_def split: option.splits prod.splits sum.splits intro: writes_same)
next
  case G_C2GVertify
  then show ?thesis using assms
    by (auto simp: gate_user_def RpcC2GVertify_Process_def Let_def SetState_def split: option.splits if_splits intro: writes_same)
next
  case G_S2GRpcAccessReport
  then show ?thesis using assms by (auto simp: gate_user_def RpcS2GRpcAccessReport_Process_def intro: writes_same)
qed (use assms(2) in auto)

lemma accept_conn_writes:
  assumes "accept_conn mp (\<lambda>_ w. w) c w = (Inr (), w')"
  shows "writes w [] w'"
proof (cases "stop (tcpServer w)")
  case True
  then have "accept_conn mp (\<lambda>_ w. w) c w = (Inr (), w)" unfolding accept_conn_def Let_def by (rule if_P)
  then show ?thesis using assms writes_same by simp
next
  case False
  have f: "out (w\<lparr>tcpServer := s\<rparr>) = out w" for s by simp
  show ?thesis using assms False
    by (auto simp: accept_conn_def Let_def RpcPermissionReport_def split: if_splits sum.splits prod.splits
        intro: writes_rpc_send [OF _ f] writes_same)
qed

lemma default_rsp_writes:
  assumes "RpcG2CRpcRsp_Process req session w = (e, x, w')"
  shows "out w' = out w"
  using assms
  by (auto simp: RpcG2CRpcRsp_Process_def get_callback_def no_rsp_def chan_send_def
      split: prod.splits option.splits list.splits gany.splits if_splits sum.splits)

lemma gate_step_writes:
  assumes "gate_step mp intn w l w'" "gate_inv w"
  shows "writes w (label_msgs l) w'"
  using assms(1)
proof cases
  case (route req session e x)
  then show ?thesis using writes_route assms(2) by blast
next
  case (rsp req session e x)
  then show ?thesis using writes_rsp assms(2) by blast
next
  case (handler h req session e x)
  then show ?thesis using writes_handler by auto
next
  case (default_rsp req session e x)
  show ?thesis using writes_same [OF default_rsp_writes [OF default_rsp(2)]] by (simp add: default_rsp(1) default_rsp_label_def)
next
  case tick
  then show ?thesis using callback_tick_nil [of w "\<lambda>_ _ w. w"] assms(2) by (auto simp: gate_inv_def writes_def)
next
  case (accept c)
  then show ?thesis using accept_conn_writes by auto
next
  case (send c name args b)
  then show ?thesis using writes_rpc_send [OF send(2) refl] by simp
qed (simp_all add: writes_def onClientClose_def Let_def set_client_def set_remote_def)

text \<open>The flow counter counts at least the routed requests, and it does not wrap.\<close>

lemma rpc_send_count: "rpc_send mp c name args w = (r, w') \<Longrightarrow> rpcFvcTotal w' = rpcFvcTotal w"
  using rpc_send_frame by fastforce

lemma no_rsp_send_count: "no_rsp (rpc_send mp c name args w) = (e, x, w') \<Longrightarrow> rpcFvcTotal w' = rpcFvcTotal w"
  by (auto simp: no_rsp_def split: prod.splits sum.splits dest: rpc_send_count)

lemma add_callback_count: "add_callback k v d f w = (r, w') \<Longrightarrow> rpcFvcTotal w' = rpcFvcTotal w"
  by (auto simp: add_callback_def split: option.splits)

lemma route_error_count: "route_error mp req session err w = (e, x, w') \<Longrightarrow> rpcFvcTotal w' = rpcFvcTotal w"
  by (auto simp: route_error_def split: if_splits dest: no_rsp_send_count)

lemma route_counts:
  assumes "RpcC2GRpcRoute_Process mp intn req session w = (e, x, w')"
  shows "rpcFvcTotal w' = Suc (rpcFvcTotal w)"
proof -
  have "rpcFvcTotal (RpcFvcCount w) = Suc (rpcFvcTotal w)" by (simp add: RpcFvcCount_def)
  then show ?thesis using assms
    by (auto simp: RpcC2GRpcRoute_Process_def Let_def NewGid_def split: if_splits prod.splits sum.splits option.splits
        dest!: route_error_count no_rsp_send_count add_callback_count)
qed

lemma rsp_counts: "RpcS2GRpcRsp_Process mp req session w = (e, x, w') \<Longrightarrow> rpcFvcTotal w' = rpcFvcTotal w"
  by (auto simp: RpcS2GRpcRsp_Process_def get_callback_def split: prod.splits option.splits list.splits gany.splits
      dest!: no_rsp_send_count)

lemma default_rsp_counts: "RpcG2CRpcRsp_Process req session w = (e, x, w') \<Longrightarrow> rpcFvcTotal w' = rpcFvcTotal w"
  by (auto simp: RpcG2CRpcRsp_Process_def get_callback_def no_rsp_def chan_send_def
      split: prod.splits option.splits list.splits gany.splits if_splits sum.splits)

lemma handler_counts:
  assumes "Process (gate_user mp intn) h req session w = (e, x, w')" "h \<notin> {G_C2GRpcRoute, G_S2GRpcRsp}"
  shows "rpcFvcTotal w' = rpcFvcTotal w"
  using assms
  by (cases h) (auto simp: gate_user_def RpcGateLogin_Process_def RpcGateLogoff_Process_def RpcReqListenAddr_Process_def
      RpcP2GPush_Process_def RpcC2GVertify_Process_def RpcS2GRpcAccessReport_Process_def Let_def SetState_def
      split: option.splits prod.splits sum.splits if_splits dest!: no_rsp_send_count rpc_send_count)

lemma tick_counts:
  assumes "callback_tick (\<lambda>_ _ w. w) w = (r, w')"
  shows "rpcFvcTotal w' = rpcFvcTotal w"
proof -
  have "rpcFvcTotal v' = rpcFvcTotal v" if "run_timeouts (\<lambda>_ _ w. w) fs v = (x, v')"
    for fs x and v v' :: "('h, 'b) world_scheme"
    using that by (induction "\<lambda>(_ :: nat) (_ :: string) (w :: ('h, 'b) world_scheme). w" fs v rule: run_timeouts.induct)
      (auto simp: chan_send_def split: if_splits)
  then show ?thesis using assms by (fastforce simp: callback_tick_def split: option.splits prod.splits)
qed

lemma gate_step_counts:
  assumes "gate_step mp intn w l w'"
  shows "rpcFvcTotal w + length (routed_id l) \<le> rpcFvcTotal w'"
  using assms(1)
proof cases
  case (route req session e x)
  then show ?thesis using route_counts by (auto simp: route_label_def)
next
  case (rsp req session e x)
  then show ?thesis using rsp_counts by (auto simp: rsp_label_def Let_def)
next
  case (handler h req session e x)
  then show ?thesis using handler_counts by auto
next
  case (default_rsp req session e x)
  show ?thesis using default_rsp_counts [OF default_rsp(2)] by (auto simp: default_rsp(1) default_rsp_label_def)
next
  case tick
  then show ?thesis using tick_counts by fastforce
next
  case (accept c)
  from accept(2) same_out show ?thesis
    by (cases rule: accept_conn_cases) (use accept(1) in simp_all)
next
  case (send c name args b)
  then show ?thesis using rpc_send_count [OF send(2)] by simp
next
  case count
  then show ?thesis by (simp add: RpcFvcCount_def)
qed (simp_all add: onClientClose_def Let_def set_client_def set_remote_def)

lemma gate_run_counts: "gate_run mp intn w tr w' \<Longrightarrow> rpcFvcTotal w + length (routed_ids tr) \<le> rpcFvcTotal w'"
  by (induction rule: gate_run.induct) (auto dest: gate_step_counts)

lemma gate_run_writes:
  assumes "gate_run mp intn w tr w'" "gate_sim w tracker0" "length (routed_ids tr) + 1 < 2 ^ 32" "globalGID w = 0"
  shows "set (concat (map label_msgs tr)) \<subseteq> set (out w')"
  using assms
proof (induction rule: gate_run.induct)
  case (run_step w tr w1 l w2)
  have len: "length (routed_ids tr) + 1 < 2 ^ 32" using run_step.prems(2) by simp
  have "gate_inv w1" using gate_sim_run [OF run_step.hyps(1) run_step.prems(1) len run_step.prems(3)] by (auto simp: gate_sim_def)
  from gate_step_writes [OF run_step.hyps(2) this] run_step.IH [OF run_step.prems(1) len run_step.prems(3)]
  show ?case by (auto simp: writes_def)
qed simp

end
