(* ===== verification/Gate_Properties.thy ===== *)
theory Gate_Properties
  imports Gate_System
begin

text \<open>
  What the routing of a gate guarantees over whole runs, what a connected client can do to it, and the runs that show
  the statements are about something.
\<close>

section \<open>Properties\<close>

text \<open>Refinement: every run of a gate from its start, with fewer than \<open>2 ^ 32 - 1\<close> routed requests, is a run of the request
  table: a routed request gets an identifier that was never used before and enters the table, a response takes its
  request out of the table and is sent, with the number the request came with, to the connection that asked, a
  request leaves the table unanswered only when its connection is gone or it expires, and no other step of the gate
  changes the table.\<close>

theorem gate_refines_request_table:
  assumes "gate_main mp intn n c localip addr d t0 good_net = Inr w0" "gate_run mp intn w0 tr w" "length (routed_ids tr) + 1 < 2 ^ 32"
  shows "\<exists>t. spec_run mp tracker0 tr t \<and> pending t = abs_pending w"
  using gate_sim_run [OF assms(2) gate_sim_main [OF assms(1)] assms(3) gate_main_Inr(2) [OF assms(1)]]
  by (auto simp: gate_sim_def)

text \<open>A gate between a client and a service, up to the answer of one request.\<close>

definition demo_g0 :: gate_world where
  "demo_g0 = projr (gate_main mp_codec id 1 (demo_cfg\<lparr>Service := ''ServiceGate''\<rparr>) ''10.0.0.9'' ''10.0.0.9:8888''
     \<lparr>gDBResource = Map.empty, dbAnswer = (\<lambda>_ _. DbOk), dbLog = []\<rparr> 0 good_net)"

lemma demo_g0_main:
  "gate_main mp_codec id 1 (demo_cfg\<lparr>Service := ''ServiceGate''\<rparr>) ''10.0.0.9'' ''10.0.0.9:8888''
     \<lparr>gDBResource = Map.empty, dbAnswer = (\<lambda>_ _. DbOk), dbLog = []\<rparr> 0 good_net = Inr demo_g0"
  using gate_rpcMgr_ok [of mp_codec id 1] by (auto simp: demo_g0_def gate_main_def gate_identity_def)

text \<open>A client connects and the etcd driver reports a service.\<close>

definition demo_conn :: TcpClient where
  "demo_conn = \<lparr>cconn = ''9.9.9.9:1'', crecv = new_recv, lastActiveTime = 0, state = TcpClientState_OK\<rparr>"

definition demo_mgr :: RemoteMgr where
  "demo_mgr = ConnectRemote ''ns'' ''ServiceA'' ''10.0.0.1'' 80 0 CreateRemoteMgr"

definition demo_g1 :: gate_world where
  "demo_g1 = demo_g0\<lparr>tcpServer := (tcpServer demo_g0)\<lparr>clients := [''9.9.9.9:1'' \<mapsto> demo_conn],
     slb := snd (AddElement (slb (tcpServer demo_g0)) ''9.9.9.9:1'')\<rparr>\<rparr>"

definition demo_g2 :: gate_world where
  "demo_g2 = demo_g1\<lparr>remoteMgr := demo_mgr\<rparr>"

lemma demo_accepted: "accept_conn mp_codec (\<lambda>_ w. w) ''9.9.9.9:1'' demo_g0 = (Inr (), demo_g1)"
proof -
  note M = gate_main_Inr [OF demo_g0_main]
  have "serverIdentity demo_g0 = SERVER_IDENTITY_SERVICE_GATE" using M(7) by (simp add: gate_identity_def)
  then show ?thesis by (simp add: accept_conn_def M Let_def GetConnID_def demo_g1_def demo_conn_def)
qed

lemma demo_discovered:
  "run_remote_event (\<lambda>_. True) 0 (Discover ''ns'' ''ServiceA'' ''10.0.0.1'' 80) (remoteMgr demo_g1) = Inr demo_mgr"
  using gate_main_Inr(5) [OF demo_g0_main]
  by (simp add: run_remote_event_def OnRemoteDiscover_def demo_g1_def demo_mgr_def numeral_eq_Suc) (simp add: CreateRemoteMgr_def)

lemma demo_g2_facts:
  "cbMgr demo_g2 = new_cbmgr" "globalGID demo_g2 = 0" "netWrite demo_g2 = good_net"
  "serverIdentity demo_g2 = SERVER_IDENTITY_SERVICE_GATE" "out demo_g2 = []"
  "clients (tcpServer demo_g2) = [''9.9.9.9:1'' \<mapsto> demo_conn]" "remoteMgr demo_g2 = demo_mgr" "rpcFvcTotal demo_g2 = 0"
  using gate_main_Inr [OF demo_g0_main] by (simp_all add: demo_g2_def demo_g1_def gate_identity_def)

lemma demo_gate_connected: "gate_run mp_codec id demo_g0 [Internal, Internal] demo_g2"
proof -
  have "gate_step mp_codec id demo_g0 Internal demo_g1" by (rule accept [OF demo_accepted])
  moreover have "gate_step mp_codec id demo_g1 Internal demo_g2" unfolding demo_g2_def by (rule remote [OF demo_discovered])
  ultimately have "gate_run mp_codec id demo_g0 (([] @ [Internal]) @ [Internal]) demo_g2"
    by (blast intro: run_step run_nil)
  then show ?thesis by simp
qed

text \<open>The service it knows is the one \<open>ChoiceRemote\<close> finds.\<close>

lemma demo_choice:
  "\<exists>r m. ChoiceRemote id (GetRemoteID ''ns'' ''ServiceA'') False ''9.9.9.9:1''
     (ConnectRemote ''ns'' ''ServiceA'' ''10.0.0.1'' 80 0 CreateRemoteMgr) = (Inr (Some r), m)"
proof -
  let ?m = "ConnectRemote ''ns'' ''ServiceA'' ''10.0.0.1'' 80 0 CreateRemoteMgr"
  have inv: "remote_inv ?m" by (rule remote_inv_ConnectRemote) simp
  let ?id = "GenConnIDByIPPort ''10.0.0.1'' 80"
  have rem: "remotes ?m ?id = Some \<lparr>remoteId = GetRemoteID ''ns'' ''ServiceA'', rconn = ?id, rrecv = new_recv, rlastActiveTime = 0\<rparr>"
    by (simp add: ConnectRemote_def CreateRemoteMgr_def Let_def AddElement_def new_LoadBalancer_def elems_def)
  obtain res m where ch: "ChoiceRemote id (GetRemoteID ''ns'' ''ServiceA'') False ''9.9.9.9:1'' ?m = (Inr res, m)"
    "res = None \<longleftrightarrow> (\<forall>c r. remotes ?m c = Some r \<longrightarrow> remoteId r \<noteq> GetRemoteID ''ns'' ''ServiceA'')"
    using ChoiceRemote_unordered [OF inv, of id "GetRemoteID ''ns'' ''ServiceA''" "''9.9.9.9:1''"] by (elim exE conjE) (rule that)
  have "res \<noteq> None" using ch(2) rem by fastforce
  then show ?thesis using ch(1) by blast
qed

text \<open>It asks for a call, and the answer of the service is sent back to it.\<close>

lemma demo_gate_run:
  "\<exists>tr w d b4. gate_run mp_codec id demo_g0 tr w \<and> tr = [Internal, Internal] @
     [Routed 1 ''9.9.9.9:1'' 7 d] @ [Answered 1 ''9.9.9.9:1'' (VStr []) (VMap [(''Success'', VBool True)]) b4]"
proof -
  note f2 = demo_g2_facts
  obtain r m where ch: "ChoiceRemote id (GetRemoteID ''ns'' ''ServiceA'') False ''9.9.9.9:1'' (remoteMgr demo_g2) = (Inr (Some r), m)"
    using demo_choice unfolding f2(7) demo_mgr_def by blast
  have chk: "route_check mp_codec (demo_req ''rpc_b'') demo_session demo_g2 = []" by (simp add: route_check_def f2)
  let ?info = "route_cbInfo mp_codec (demo_req ''rpc_b'') demo_session demo_g2"
  have wf: "cb_wf (cbMgr demo_g2)" by (simp add: f2)
  have "ChoiceRemote id (GetRemoteID (rNameSpace (demo_req ''rpc_b'')) (rService (demo_req ''rpc_b''))) (rIsOrdered (demo_req ''rpc_b''))
      (sconn demo_session) (remoteMgr demo_g2) = (Inr (Some r), m)" using ch by (simp add: f2)
  from route_forward [OF wf chk this] obtain cm where cm: "RpcC2GRpcRoute_Process mp_codec id (demo_req ''rpc_b'') demo_session demo_g2 =
      no_rsp (rpc_send mp_codec (Some (rconn r)) MSG_G2S_RPC_CALL [vu32 1, VBytes (rInnerRpc (demo_req ''rpc_b''))]
        ((RpcFvcCount demo_g2)\<lparr>remoteMgr := m, globalGID := 1, cbMgr := cm\<rparr>))"
    "cb_wf cm" "cb_lookup cm = (cb_lookup (cbMgr demo_g2))(1 \<mapsto> [ARoute ?info])" by (auto simp: f2)
  obtain b where b: "MessageEncode (RpcEncode mp_codec MSG_G2S_RPC_CALL [vu32 1, VBytes (rInnerRpc (demo_req ''rpc_b''))]) = Inr b" "b \<noteq> []"
    by (simp add: MessageEncode_ok RpcEncode_def mp_codec_def put_str_def msg_names demo_req_def vu32_def be32_def)
  define w3 where "w3 = (RpcFvcCount demo_g2)\<lparr>remoteMgr := m, globalGID := 1, cbMgr := cm, out := [(rconn r, b)]\<rparr>"
  have p3: "RpcC2GRpcRoute_Process mp_codec id (demo_req ''rpc_b'') demo_session demo_g2 = (None, None, w3)"
    unfolding cm(1) by (subst rpc_send_sends [OF b]) (simp_all add: f2 no_rsp_def w3_def)
  have l3: "route_label (demo_req ''rpc_b'') demo_session demo_g2 w3 = Routed 1 ''9.9.9.9:1'' 7 (Some (rconn r, b))"
    by (simp add: route_label_def w3_def f2)
  have s3: "gate_step mp_codec id demo_g2 (Routed 1 ''9.9.9.9:1'' 7 (Some (rconn r, b))) w3" using route [OF p3] unfolding l3 .
  let ?req = "[vu32 1, VStr [], VMap [(''Success'', VBool True)]]"
  have k3: "cb_wf (cbMgr w3)" "cb_lookup (cbMgr w3) (as_u32 (?req ! 0)) = Some [ARoute ?info]" using cm(2,3) by (simp_all add: w3_def)
  have conn: "rsp_conn (cb_connID ?info) w3 = Some ''9.9.9.9:1''"
    by (simp add: rsp_conn_def GetTcpClient_def w3_def f2 route_cbInfo_def GetConnID_def demo_conn_def)
  obtain b4 where b4: "MessageEncode (RpcEncode mp_codec MSG_G2C_RPC_RSP [vu32 (cb_rid ?info), ?req ! 1, ?req ! 2]) = Inr b4" "b4 \<noteq> []"
    by (simp add: MessageEncode_ok RpcEncode_def mp_codec_def put_str_def msg_names vu32_def be32_def route_cbInfo_def)
  from rsp_known [OF k3, of mp_codec demo_session] obtain cm4 where cm4: "RpcS2GRpcRsp_Process mp_codec ?req demo_session w3 =
      no_rsp (rpc_send mp_codec (Some ''9.9.9.9:1'') MSG_G2C_RPC_RSP [vu32 (cb_rid ?info), ?req ! 1, ?req ! 2] (w3\<lparr>cbMgr := cm4\<rparr>))"
    unfolding conn option.case by blast
  have p4: "RpcS2GRpcRsp_Process mp_codec ?req demo_session w3 = (None, None, w3\<lparr>cbMgr := cm4, out := out w3 @ [(''9.9.9.9:1'', b4)]\<rparr>)"
    unfolding cm4 by (subst rpc_send_sends [OF b4]) (simp_all add: no_rsp_def w3_def f2)
  let ?w4 = "w3\<lparr>cbMgr := cm4, out := out w3 @ [(''9.9.9.9:1'', b4)]\<rparr>"
  have l4: "rsp_label ?req w3 ?w4 = Answered 1 ''9.9.9.9:1'' (VStr []) (VMap [(''Success'', VBool True)]) b4"
    using k3(2) by (simp add: rsp_label_def)
  have s4: "gate_step mp_codec id w3 (Answered 1 ''9.9.9.9:1'' (VStr []) (VMap [(''Success'', VBool True)]) b4) ?w4"
    using rsp [OF p4] unfolding l4 .
  have "gate_run mp_codec id demo_g0 (([Internal, Internal] @ [Routed 1 ''9.9.9.9:1'' 7 (Some (rconn r, b))])
      @ [Answered 1 ''9.9.9.9:1'' (VStr []) (VMap [(''Success'', VBool True)]) b4]) ?w4"
    by (intro run_step [OF _ s4] run_step [OF _ s3] demo_gate_connected)
  then show ?thesis by fastforce
qed

text \<open>The run of the example is a run of the table, after which nothing is pending.\<close>

theorem gate_refines_request_table_witness:
  "\<exists>tr w t. gate_run mp_codec id demo_g0 tr w \<and> routed_ids tr = [1] \<and> answered_ids tr = [1]
     \<and> spec_run mp_codec tracker0 tr t \<and> pending t = abs_pending w"
proof -
  obtain tr w d b4 where r: "gate_run mp_codec id demo_g0 tr w" "tr = [Internal, Internal] @
     [Routed 1 ''9.9.9.9:1'' 7 d] @ [Answered 1 ''9.9.9.9:1'' (VStr []) (VMap [(''Success'', VBool True)]) b4]"
    using demo_gate_run by blast
  then have "routed_ids tr = [1]" "answered_ids tr = [1]" by (simp_all add: routed_ids_def answered_ids_def)
  with gate_refines_request_table [OF demo_g0_main r(1)] r(1) show ?thesis by auto
qed

lemma spec_run_prefix: "spec_run mp t (tr1 @ tr2) t' \<Longrightarrow> \<exists>t1. spec_run mp t tr1 t1"
proof (induction tr2 arbitrary: t' rule: rev_induct)
  case (snoc l tr2)
  from snoc.prems obtain t1 where "spec_run mp t (tr1 @ tr2) t1" by cases (auto simp flip: append_assoc)
  then show ?case by (rule snoc.IH)
qed auto

text \<open>Property C2. Agreement: whenever the gate answers a client, the answer is for a request that same connection made
  before and that was not answered yet, it carries the number the client gave that request and the error and the reply
  the service sent under the identifier of that request, and the identifiers of all routed requests are different.\<close>

theorem answers_agree_with_requests:
  assumes "gate_main mp intn n conf localip addr d0 t0 good_net = Inr w0" "gate_run mp intn w0 (tr1 @ Answered k c err reply m # tr2) w"
    "length (routed_ids (tr1 @ Answered k c err reply m # tr2)) + 1 < 2 ^ 32"
  shows "distinct (routed_ids tr1) \<and> k \<notin> set (answered_ids tr1)
    \<and> (\<exists>r d. Routed k c r d \<in> set tr1 \<and> r \<noteq> 0
          \<and> MessageEncode (RpcEncode mp MSG_G2C_RPC_RSP [vu32 r, err, reply]) = Inr m)"
proof -
  let ?l = "Answered k c err reply m"
  obtain t where "spec_run mp tracker0 ((tr1 @ [?l]) @ tr2) t"
    using gate_sim_run [OF assms(2) gate_sim_main [OF assms(1)] assms(3) gate_main_Inr(2) [OF assms(1)]] by auto
  then obtain t1 where "spec_run mp tracker0 (tr1 @ [?l]) t1" using spec_run_prefix by blast
  then have "agreement mp (tr1 @ [?l])" using spec_run_inv by blast
  then show ?thesis unfolding agreement_def response_msg_def by auto
qed

theorem answers_agree_with_requests_witness:
  "\<exists>tr1 w r d m. gate_run mp_codec id demo_g0 (tr1 @ [Answered 1 ''9.9.9.9:1'' (VStr []) (VMap [(''Success'', VBool True)]) m]) w
     \<and> Routed 1 ''9.9.9.9:1'' r d \<in> set tr1
     \<and> MessageEncode (RpcEncode mp_codec MSG_G2C_RPC_RSP [vu32 r, VStr [], VMap [(''Success'', VBool True)]]) = Inr m"
proof -
  obtain tr w d b4 where r: "gate_run mp_codec id demo_g0 tr w" "tr = [Internal, Internal] @
     [Routed 1 ''9.9.9.9:1'' 7 d] @ [Answered 1 ''9.9.9.9:1'' (VStr []) (VMap [(''Success'', VBool True)]) b4]"
    using demo_gate_run by blast
  let ?tr1 = "[Internal, Internal] @ [Routed 1 ''9.9.9.9:1'' 7 d]"
  have g: "gate_run mp_codec id demo_g0 (?tr1 @ [Answered 1 ''9.9.9.9:1'' (VStr []) (VMap [(''Success'', VBool True)]) b4]) w"
    using r by simp
  have "length (routed_ids (?tr1 @ [Answered 1 ''9.9.9.9:1'' (VStr []) (VMap [(''Success'', VBool True)]) b4])) + 1 < 2 ^ 32"
    by (simp add: routed_ids_def)
  from answers_agree_with_requests [OF demo_g0_main g this] g show ?thesis by blast
qed

section \<open>What a verified client can do\<close>

text \<open>A verified client's message of any name but the three synchronous ones is queued, and the task decodes its arguments.\<close>

lemma verified_queued:
  assumes "codec_ok mp" "GetTcpClient (sconn session) w = Some c" "state c = TcpClientState_OK" "length name < 2 ^ 32" "\<not> IsSync name"
  shows "RpcDecode mp hs session (RpcEncode mp name args) w = (Inr (), w\<lparr>gTaskPool :=
    ProduceTask \<lparr>tSession = session, tName = name, tArgs = concat (map (\<lambda>arg. fst (enc mp arg)) args)\<rparr> (gTaskPool w)\<rparr>)"
  using assms by (simp add: RpcDecode_def decode_name_RpcEncode PreCheck_def GetConnID_def IsSync_def Let_def)

lemma run_task_args:
  assumes "codec_ok mp" "rpcs (rpcMgr w) name = Some h" "GetReqPtr hs h = Some fs" "list_all2 has_type args (map snd fs)"
    "Process hs h args session w = (e, x, w')"
  shows "run_task mp hs \<lparr>tSession = session, tName = name, tArgs = concat (map (\<lambda>arg. fst (enc mp arg)) args)\<rparr> w =
    ((case e of None \<Rightarrow> Inr () | Some p \<Rightarrow> Inl p), w')"
  using decode_fields_args [OF assms(1,4), of "[]"] assms(2,3,5)
  by (simp add: run_task_def GetRpcHanderGenerator_def split: option.splits)

lemma gate_registered:
  assumes "gate_rpcMgr mp intn n = Inr r"
  shows "rpcs r MSG_S2G_RPC_ACCESS_REPORT = Some (H_User G_S2GRpcAccessReport)" "rpcs r MSG_G2C_RPC_RSP = Some H_G2CRpcRsp"
  using gate_rpcMgr_ok [of mp intn n] assms by (auto simp: default_handlers_def gate_registrations_def msg_names)

text \<open>Property C33. Deviation: the access reports of services are not authenticated. On a client gate any verified client can send
  \<open>MSG_S2G_RPC_ACCESS_REPORT\<close> itself: the packet is queued like any other, and its task overwrites the permissions of
  the named service, after which the permission check lets that client's request for the rpc through, whatever the
  service reported.\<close>

theorem client_can_grant_itself_access:
  assumes "codec_ok mp" "gate_rpcMgr mp intn n = Inr (rpcMgr w)" "GetTcpClient (sconn session) w = Some c" "state c = TcpClientState_OK"
    "length (rNameSpace req @ '':'' @ rService req) < 2 ^ 32"
    "has_type (VMap [(fst (decode_name mp (rInnerRpc req)), VBool True)]) TBoolMap"
  defines "args \<equiv> [VStr (rNameSpace req @ '':'' @ rService req), VMap [(fst (decode_name mp (rInnerRpc req)), VBool True)]]"
  shows "\<exists>t w'. RpcDecode mp (gate_handlers mp intn n) session (RpcEncode mp MSG_S2G_RPC_ACCESS_REPORT args) w =
      (Inr (), w\<lparr>gTaskPool := ProduceTask t (gTaskPool w)\<rparr>)
    \<and> run_task mp (gate_handlers mp intn n) t w = (Inr (), w') \<and> route_check mp req session w' = []"
proof -
  let ?t = "\<lparr>tSession = session, tName = MSG_S2G_RPC_ACCESS_REPORT, tArgs = concat (map (\<lambda>arg. fst (enc mp arg)) args)\<rparr>"
  let ?w' = "w\<lparr>gClientAccess := (gClientAccess w)(rNameSpace req @ '':'' @ rService req \<mapsto> [fst (decode_name mp (rInnerRpc req)) \<mapsto> True])\<rparr>"
  have "RpcDecode mp (gate_handlers mp intn n) session (RpcEncode mp MSG_S2G_RPC_ACCESS_REPORT args) w =
      (Inr (), w\<lparr>gTaskPool := ProduceTask ?t (gTaskPool w)\<rparr>)"
    using assms(1,3,4) by (intro verified_queued) (simp_all add: msg_names IsSync_def)
  moreover have "run_task mp (gate_handlers mp intn n) ?t w = ((case None of None \<Rightarrow> Inr () | Some p \<Rightarrow> Inl p), ?w')"
    by (rule run_task_args [OF assms(1) gate_registered(1) [OF assms(2)], where x = None and fs = "[(''ServiceKey'', TString), (''Access'', TBoolMap)]"])
      (use assms(5,6) in \<open>simp_all add: gate_handlers_def gate_user_def args_def RpcS2GRpcAccessReport_Process_def\<close>)
  moreover have "route_check mp req session ?w' = []" by (simp add: route_check_def)
  ultimately show ?thesis by (intro exI [of _ ?t] exI [of _ ?w']) simp
qed

text \<open>On the example gate, \<open>rpc_db_test\<close> is closed to clients; the client opens it for itself.\<close>

definition demo_verified :: gate_world where
  "demo_verified = demo_gate\<lparr>rpcMgr := projr (gate_rpcMgr mp_codec id 1)\<rparr>"

lemma demo_verified_ok:
  "gate_rpcMgr mp_codec id 1 = Inr (rpcMgr demo_verified)" "GetTcpClient (sconn demo_session) demo_verified = Some demo_client"
  "state demo_client = TcpClientState_OK"
  using gate_rpcMgr_ok [of mp_codec id 1]
  by (auto simp: demo_verified_def GetTcpClient_def demo_server_client demo_client_def)

theorem client_can_grant_itself_access_witness:
  "route_check mp_codec (demo_req ''rpc_db_test'') demo_session demo_verified \<noteq> [] \<and>
   (\<exists>t w'. RpcDecode mp_codec (gate_handlers mp_codec id 1) demo_session
       (RpcEncode mp_codec MSG_S2G_RPC_ACCESS_REPORT [VStr ''ns:ServiceA'', VMap [(''rpc_db_test'', VBool True)]]) demo_verified =
      (Inr (), demo_verified\<lparr>gTaskPool := ProduceTask t (gTaskPool demo_verified)\<rparr>)
    \<and> run_task mp_codec (gate_handlers mp_codec id 1) t demo_verified = (Inr (), w')
    \<and> route_check mp_codec (demo_req ''rpc_db_test'') demo_session w' = [])"
proof -
  have "has_type (VMap [(fst (decode_name mp_codec (rInnerRpc (demo_req ''rpc_db_test''))), VBool True)]) TBoolMap"
    by (simp add: has_type_def fits_def)
  from client_can_grant_itself_access [OF codec_ok_mp demo_verified_ok _ this] show ?thesis
    by (simp add: route_check_def demo_verified_def)
qed

text \<open>Property C34. Deviation: a verified client can stop the gate. The default handler of \<open>MSG_G2C_RPC_RSP\<close> is registered on the gate too
  and asserts that the callback it finds is a channel, while the callbacks of a gate are route records: a response
  with the identifier of any pending request (they count up from 1) is queued like any other packet, and its task
  panics in the task pool, where nothing recovers.\<close>

theorem client_can_crash_gate:
  assumes "codec_ok mp" "gate_rpcMgr mp intn n = Inr (rpcMgr w)" "GetTcpClient (sconn session) w = Some c" "state c = TcpClientState_OK"
    "cb_wf (cbMgr w)" "cb_lookup (cbMgr w) k = Some [ARoute info]"
  shows "\<exists>t w'. RpcDecode mp (gate_handlers mp intn n) session (RpcEncode mp MSG_G2C_RPC_RSP [vu32 k, VStr [], VNil]) w =
      (Inr (), w\<lparr>gTaskPool := ProduceTask t (gTaskPool w)\<rparr>)
    \<and> run_task mp (gate_handlers mp intn n) t w = (Inl TypeAssertion, w')"
proof -
  let ?args = "[vu32 k, VStr [], VNil]"
  let ?t = "\<lparr>tSession = session, tName = MSG_G2C_RPC_RSP, tArgs = concat (map (\<lambda>arg. fst (enc mp arg)) ?args)\<rparr>"
  obtain cm where cm: "get_callback k w = (Some [ARoute info], w\<lparr>cbMgr := cm\<rparr>)"
    using get_callback_law [OF assms(5), of k] assms(6) by auto
  have "RpcDecode mp (gate_handlers mp intn n) session (RpcEncode mp MSG_G2C_RPC_RSP ?args) w =
      (Inr (), w\<lparr>gTaskPool := ProduceTask ?t (gTaskPool w)\<rparr>)"
    using assms(1,3,4) by (intro verified_queued) (simp_all add: msg_names IsSync_def)
  moreover have "run_task mp (gate_handlers mp intn n) ?t w =
      ((case Some TypeAssertion of None \<Rightarrow> Inr () | Some p \<Rightarrow> Inl p), w\<lparr>cbMgr := cm\<rparr>)"
    by (rule run_task_args [OF assms(1) gate_registered(2) [OF assms(2)], where x = None and fs = RpcG2CRpcRspReq])
      (use cm in \<open>simp_all add: gate_handlers_def RpcG2CRpcRspReq_def RpcG2CRpcRsp_Process_def\<close>)
  ultimately show ?thesis by auto
qed

theorem client_can_crash_gate_witness:
  "\<exists>t w'. RpcDecode mp_codec (gate_handlers mp_codec id 1) demo_session (RpcEncode mp_codec MSG_G2C_RPC_RSP [vu32 1, VStr [], VNil])
       (demo_pending\<lparr>rpcMgr := rpcMgr demo_verified\<rparr>) =
      (Inr (), demo_pending\<lparr>rpcMgr := rpcMgr demo_verified, gTaskPool := ProduceTask t (gTaskPool demo_pending)\<rparr>)
    \<and> run_task mp_codec (gate_handlers mp_codec id 1) t (demo_pending\<lparr>rpcMgr := rpcMgr demo_verified\<rparr>) = (Inl TypeAssertion, w')"
proof -
  define w where "w = demo_pending\<lparr>rpcMgr := rpcMgr demo_verified\<rparr>"
  have c: "GetTcpClient (sconn demo_session) w = Some demo_client"
    by (simp add: w_def GetTcpClient_def demo_pending_def demo_server_client)
  have r: "gate_rpcMgr mp_codec id 1 = Inr (rpcMgr w)" using demo_verified_ok(1) by (simp add: w_def)
  have k: "cb_wf (cbMgr w)" "cb_lookup (cbMgr w) 1 = Some [ARoute demo_info]" using demo_pending_cb by (simp_all add: w_def)
  from client_can_crash_gate [OF codec_ok_mp r c demo_verified_ok(3) k] show ?thesis by (simp add: w_def)
qed

end
