(* ===== verification/Services.thy ===== *)
theory Services
  imports Rpc_Call Db_Driver
begin

text \<open>
  The two example services (\<open>service_a\<close>, \<open>service_b\<close>): their handlers, the permissions they declare and the
  registrations of their \<open>main\<close> functions. The service process adds its database clients to the state. A handler that
  calls another service blocks in \<open>RpcCallSync\<close>; \<open>rsps\<close> are the messages its channels receive in turn, and a call that
  is still waiting after them has not returned.
\<close>

section \<open>Service A\<close>

datatype service_a_h = A_RpcA | A_RpcB | A_RpcDBTest | A_RpcPushTest

record service_world = "service_a_h handler world" +
  sdb :: db

definition RpcAReq :: "(string \<times> gty) list" where
  "RpcAReq = [(''I'', TUint32), (''F'', TFloat32), (''S'', TString), (''M'', TMap), (''L'', TInt32List)]"

definition RpcBReq :: "(string \<times> gty) list" where
  "RpcBReq = [(''I'', TUint32)]"

definition RpcARsp :: "bool \<Rightarrow> gval \<Rightarrow> (string \<times> gval) list" where
  "RpcARsp success req = [(''Success'', VBool success), (''Req'', req)]"

definition RpcA_Process ::
  "msgpack \<Rightarrow> (nat \<Rightarrow> nat) \<Rightarrow> call_rsp list \<Rightarrow> gval list \<Rightarrow> session \<Rightarrow> ('h, 'b) world_scheme \<Rightarrow> ('h, 'b) world_scheme proc" where
  "RpcA_Process mp intn rsps req session w =
     (case RpcCallSync mp intn ''ServiceA'' ''rpc_b'' [vu32 10] rsps w of
        (Inl e, w1) \<Rightarrow> (Some e, Some (RpcARsp True (req ! 0)), w1)
      | (Inr (Waiting _), w1) \<Rightarrow> (Some Hang, Some (RpcARsp True (req ! 0)), w1)
      | (Inr (Returned err _), w1) \<Rightarrow>
          if length err \<noteq> 0
          then (None, Some (RpcARsp False (req ! 0)), SetResponseErr session err w1)
          else (None, Some (RpcARsp True (req ! 0)), w1))"

definition RpcB_Process :: "gval list \<Rightarrow> session \<Rightarrow> 'w \<Rightarrow> 'w proc" where
  "RpcB_Process req session w = (None, Some (RpcARsp True (req ! 0)), w)"

text \<open>\<open>rpc_db_tst.go\<close>: each test stops at the first error of a command.\<close>

definition hm_test :: "db_client option res \<Rightarrow> db \<Rightarrow> unit res \<times> db" where
  "hm_test c d =
     (case c of
        Inl e \<Rightarrow> (Inl e, d)
      | Inr None \<Rightarrow> (Inr (), d)
      | Inr (Some cl) \<Rightarrow>
          (case db_do cl (RedisHMSet ''REDIS_KEY_TEST'' [(''field1'', BInt 123), (''field2'', BString ''abc'')]) d of
             (a, d1) \<Rightarrow>
               if is_err a then (Inr (), d1)
               else (Inr (), snd (db_do cl (RedisHMGet ''REDIS_KEY_TEST'' [''field1'', ''field2'']) d1))))"

definition RedisTest :: "db \<Rightarrow> unit res \<times> db" where
  "RedisTest d = hm_test (GetRedisSingle ''myRedis1'' (gDBResource d)) d"

definition RedisClusterTest :: "db \<Rightarrow> unit res \<times> db" where
  "RedisClusterTest d = hm_test (GetRedisCluster ''myRedis2'' (gDBResource d)) d"

definition MongoTest :: "db \<Rightarrow> unit res \<times> db" where
  "MongoTest d =
     (case GetMongo ''myMongo'' (gDBResource d) of
        Inl e \<Rightarrow> (Inl e, d)
      | Inr None \<Rightarrow> (Inr (), d)
      | Inr (Some cl) \<Rightarrow>
          (case db_do cl (MongoInsertOne ''foo'' ''foo'' [(''x'', BInt 1)]) d of
             (a1, d1) \<Rightarrow>
               if is_err a1 then (Inr (), d1)
               else
                 (case db_do cl (MongoUpdateOne ''foo'' ''foo'' [(''x'', BInt 1)]
                         [(''$set'', BDoc [(''x'', BDoc [(''y'', BInt 888)])])]) d1 of
                    (a2, d2) \<Rightarrow>
                      if is_err a2 then (Inr (), d2)
                      else
                        (case db_do cl (MongoFind ''foo'' ''foo'' []) d2 of
                           (a3, d3) \<Rightarrow>
                             if is_err a3 then (Inr (), d3)
                             else (Inr (), snd (db_do cl (MongoDeleteMany ''foo'' ''foo'' []) d3))))))"

definition RpcDBTest_Process :: "gval list \<Rightarrow> session \<Rightarrow> service_world \<Rightarrow> service_world proc" where
  "RpcDBTest_Process req session w =
     (case RedisTest (sdb w) of
        (Inl e, d) \<Rightarrow> (Some e, Some [(''Success'', VBool False)], w\<lparr>sdb := d\<rparr>)
      | (Inr _, d1) \<Rightarrow>
          (case RedisClusterTest d1 of
             (Inl e, d) \<Rightarrow> (Some e, Some [(''Success'', VBool False)], w\<lparr>sdb := d\<rparr>)
           | (Inr _, d2) \<Rightarrow>
               (case MongoTest d2 of
                  (Inl e, d) \<Rightarrow> (Some e, Some [(''Success'', VBool False)], w\<lparr>sdb := d\<rparr>)
                | (Inr _, d3) \<Rightarrow> (None, Some [(''Success'', VBool True)], w\<lparr>sdb := d3\<rparr>))))"

definition RpcPushTest_Process ::
  "msgpack \<Rightarrow> (nat \<Rightarrow> nat) \<Rightarrow> gval list \<Rightarrow> session \<Rightarrow> ('h, 'b) world_scheme \<Rightarrow> ('h, 'b) world_scheme proc" where
  "RpcPushTest_Process mp intn req session w =
     no_rsp (PushClientSafe mp intn ''client0'' ''push_test'' [VInt 10, VStr ''hello''] w)"

definition service_a_user :: "msgpack \<Rightarrow> (nat \<Rightarrow> nat) \<Rightarrow> call_rsp list \<Rightarrow> (service_a_h, service_world) handlers" where
  "service_a_user mp intn rsps =
     \<lparr>GetReqPtr = (\<lambda>h. case h of
          A_RpcA \<Rightarrow> Some RpcAReq | A_RpcB \<Rightarrow> Some RpcBReq | A_RpcDBTest \<Rightarrow> None | A_RpcPushTest \<Rightarrow> None),
      ClientAccess = (\<lambda>h. case h of
          A_RpcA \<Rightarrow> Some True | A_RpcB \<Rightarrow> Some True | A_RpcDBTest \<Rightarrow> None | A_RpcPushTest \<Rightarrow> Some True),
      Process = (\<lambda>h req session w. case h of
          A_RpcA \<Rightarrow> RpcA_Process mp intn rsps req session w
        | A_RpcB \<Rightarrow> RpcB_Process req session w
        | A_RpcDBTest \<Rightarrow> RpcDBTest_Process req session w
        | A_RpcPushTest \<Rightarrow> RpcPushTest_Process mp intn req session w)\<rparr>"

definition service_a_registrations :: "(string \<times> service_a_h handler) list" where
  "service_a_registrations =
     [(''rpc_a'', H_User A_RpcA), (''rpc_b'', H_User A_RpcB), (''rpc_db_test'', H_User A_RpcDBTest),
      (''rpc_push_test'', H_User A_RpcPushTest)]"

definition service_a_handlers ::
  "msgpack \<Rightarrow> (nat \<Rightarrow> nat) \<Rightarrow> call_rsp list \<Rightarrow> nat \<Rightarrow> (service_a_h handler, service_world) handlers" where
  "service_a_handlers mp intn rsps n = process_handlers mp (service_a_user mp intn rsps) n"

definition service_a_main ::
  "msgpack \<Rightarrow> (nat \<Rightarrow> nat) \<Rightarrow> call_rsp list \<Rightarrow> nat \<Rightarrow> GlobalConfig \<Rightarrow> string \<Rightarrow> db \<Rightarrow> int \<Rightarrow> (conn \<Rightarrow> bytes \<Rightarrow> nat \<times> bool) \<Rightarrow>
     service_world res" where
  "service_a_main mp intn rsps n c localip d t nw =
     res_bind (start_registry (service_a_handlers mp intn rsps n) service_a_registrations) (\<lambda>r.
       Inr (world.extend (Init c SERVER_IDENTITY_SERVICE localip r t nw) \<lparr>sdb = d\<rparr>))"

section \<open>Service B\<close>

datatype service_b_h = B_RpcB

definition service_b_user :: "(service_b_h, service_b_h handler world) handlers" where
  "service_b_user =
     \<lparr>GetReqPtr = (\<lambda>_. Some RpcBReq), ClientAccess = (\<lambda>_. None), Process = (\<lambda>_ req session w. RpcB_Process req session w)\<rparr>"

definition service_b_registrations :: "(string \<times> service_b_h handler) list" where
  "service_b_registrations = [(''rpc_b'', H_User B_RpcB)]"

definition service_b_main ::
  "msgpack \<Rightarrow> nat \<Rightarrow> GlobalConfig \<Rightarrow> string \<Rightarrow> int \<Rightarrow> (conn \<Rightarrow> bytes \<Rightarrow> nat \<times> bool) \<Rightarrow> service_b_h handler world res" where
  "service_b_main mp n c localip t nw =
     res_bind (start_registry (process_handlers mp service_b_user n) service_b_registrations) (\<lambda>r.
       Inr (Init c SERVER_IDENTITY_SERVICE localip r t nw))"

section \<open>Lemmas\<close>

text \<open>A call whose arguments have the types of the request struct reaches the handler with exactly these arguments.\<close>

lemma rpcHandle_typed:
  assumes "codec_ok mp" "rpcs (rpcMgr w) name = Some h" "GetReqPtr hs h = Some fs" "length name < 2 ^ 32"
    "list_all2 has_type args (map snd fs)" "Process hs h args session w = (pe, rsp, w1)" "pe \<noteq> Some Hang" "grid \<noteq> 0"
  shows "rpcHandle mp hs grid (RpcEncode mp name args) session w =
    (case rsp of
       None \<Rightarrow> (Inr (''rpc '' @ name @ '' need response but get nil'', VNil), w1)
     | Some stMap \<Rightarrow> (Inr (GetResponseErr session w1, VMap stMap), w1))"
proof -
  let ?bs = "concat (map (\<lambda>arg. fst (enc mp arg)) args)"
  have n: "decode_name mp (RpcEncode mp name args) = (name, ?bs)" by (rule decode_name_RpcEncode [OF assms(1,4)])
  have f: "decode_fields mp fs ?bs = Inr args" using decode_fields_args [OF assms(1,5), of "[]"] by simp
  have p: "doProcessWithPanicProtect hs h args session w = (Inr rsp, w1)"
    using assms(6,7) by (auto simp: doProcessWithPanicProtect_def split: option.splits panic.splits)
  show ?thesis
    unfolding rpcHandle_def n prod.case GetRpcHanderGenerator_def assms(2,3) option.case f sum.case p
    using assms(8) by (simp split: option.splits)
qed

lemma rpcFvc_session [simp]: "GetResponseErr session (RpcFvcCount w) = GetResponseErr session w"
  by (simp add: GetResponseErr_def RpcFvcCount_def)

lemma rpcFvc_rpcMgr [simp]: "rpcMgr (RpcFvcCount w) = rpcMgr w"
  by (simp add: RpcFvcCount_def)

text \<open>The answer of a service to a typed call.\<close>

lemma service_reply:
  assumes "codec_ok mp" "rpcs (rpcMgr w) name = Some h" "GetReqPtr hs h = Some fs" "length name < 2 ^ 32"
    "list_all2 has_type args (map snd fs)" "Process hs h args session (RpcFvcCount w) = (pe, rsp, w1)" "pe \<noteq> Some Hang" "grid \<noteq> 0"
    "netWrite w1 = good_net"
    "(err, reply) = (case rsp of None \<Rightarrow> (''rpc '' @ name @ '' need response but get nil'', VNil)
       | Some stMap \<Rightarrow> (GetResponseErr session w1, VMap stMap))"
    "MessageEncode (RpcEncode mp MSG_S2G_RPC_RSP [vu32 grid, VStr err, reply]) = Inr m" "m \<noteq> []"
  shows "RpcG2SRpcCall_Process mp hs [vu32 grid, VBytes (RpcEncode mp name args)] session w =
    (None, None, w1\<lparr>out := out w1 @ [(sconn session, m)]\<rparr>)"
proof -
  have h: "rpcHandle mp hs grid (RpcEncode mp name args) session (RpcFvcCount w) = (Inr (err, reply), w1)"
    using rpcHandle_typed [OF assms(1) _ assms(3-5,6,7,8)] assms(2,10) by (simp split: option.splits)
  have "rpc_send mp (Some (sconn session)) MSG_S2G_RPC_RSP [vu32 grid, VStr err, reply] w1 =
      (Inr True, w1\<lparr>out := out w1 @ [(sconn session, m)]\<rparr>)"
    using assms(9,11,12) by (simp add: rpc_send_def MessageSend_def good_net_def)
  with h assms(8) show ?thesis by (simp add: RpcG2SRpcCall_Process_def no_rsp_def)
qed

section \<open>Properties\<close>

text \<open>Typed dispatch: a call with a response identifier whose arguments have the types of the handler's request struct,
  encoded by the caller and sent through the gate, runs that handler once on exactly these values, and the service answers with exactly one
  \<open>MSG_S2G_RPC_RSP\<close> that carries the same identifier, the error of the session and the fields of the response struct (an
  error text when the handler has none). A panic of the handler that is not a hang makes no difference to this.\<close>

theorem typed_call_answered:
  assumes "codec_ok mp" "rpcs (rpcMgr w) name = Some h" "GetReqPtr hs h = Some fs" "length name < 2 ^ 32"
    "list_all2 has_type args (map snd fs)" "Process hs h args session (RpcFvcCount w) = (pe, rsp, w1)" "pe \<noteq> Some Hang" "grid \<noteq> 0"
    "netWrite w1 = good_net"
    "(err, reply) = (case rsp of None \<Rightarrow> (''rpc '' @ name @ '' need response but get nil'', VNil)
       | Some stMap \<Rightarrow> (GetResponseErr session w1, VMap stMap))"
    "MessageEncode (RpcEncode mp MSG_S2G_RPC_RSP [vu32 grid, VStr err, reply]) = Inr m" "m \<noteq> []"
  shows "RpcG2SRpcCall_Process mp hs [vu32 grid, VBytes (RpcEncode mp name args)] session w =
    (None, None, w1\<lparr>out := out w1 @ [(sconn session, m)]\<rparr>)"
  using assms by (rule service_reply)

lemma service_a_rpc_b:
  "GetReqPtr (service_a_handlers mp intn rsps n) (H_User A_RpcB) = Some RpcBReq"
  "Process (service_a_handlers mp intn rsps n) (H_User A_RpcB) req session w = (None, Some (RpcARsp True (req ! 0)), w)"
  by (simp_all add: service_a_handlers_def service_a_user_def RpcB_Process_def)

lemma service_a_registry:
  "\<exists>r. start_registry (service_a_handlers mp intn rsps n) service_a_registrations = Inr r
     \<and> rpcs r = map_of (default_handlers @ service_a_registrations)"
  using start_registry_ok [of service_a_registrations "service_a_handlers mp intn rsps n"]
  by (auto simp: service_a_registrations_def default_handlers_def msg_names)

definition demo_sa :: "call_rsp list \<Rightarrow> service_world" where
  "demo_sa rsps =
     (world.extend (Init demo_cfg SERVER_IDENTITY_SERVICE []
          (projr (start_registry (service_a_handlers mp_codec id rsps 1) service_a_registrations)) 0 good_net)
        \<lparr>sdb = \<lparr>gDBResource = [''myRedis1'' \<mapsto> RedisClusterClient []], dbAnswer = (\<lambda>_ _. DbOk), dbLog = []\<rparr>\<rparr>)
     \<lparr>tcpServer := (tcpServer (demo_server 0))\<lparr>slb := snd (AddElement new_LoadBalancer ''9.9.9.9:1'')\<rparr>\<rparr>"

lemma demo_sa_rpcs: "rpcs (rpcMgr (demo_sa rsps)) = map_of (default_handlers @ service_a_registrations)"
  using service_a_registry [of mp_codec id rsps 1] by (auto simp: demo_sa_def world.defs Init_def)

lemma demo_sa_rpc_b: "rpcs (rpcMgr (demo_sa rsps)) ''rpc_b'' = Some (H_User A_RpcB)"
  by (simp add: demo_sa_rpcs service_a_registrations_def default_handlers_def msg_names)

lemma demo_sa_simps:
  "out (demo_sa rsps) = []" "netWrite (demo_sa rsps) = good_net" "sessErr (demo_sa rsps) = (\<lambda>_. [])"
  "cbMgr (demo_sa rsps) = new_cbmgr" "nextChan (demo_sa rsps) = 0" "now (demo_sa rsps) = 0" "cfg (demo_sa rsps) = demo_cfg"
  "clients (tcpServer (demo_sa rsps)) = [''9.9.9.9:1'' \<mapsto> demo_client]"
  "slb (tcpServer (demo_sa rsps)) = snd (AddElement new_LoadBalancer ''9.9.9.9:1'')"
  "globalGID (demo_sa rsps) = 0"
  by (simp_all add: demo_sa_def world.defs Init_def demo_server_client)

definition demo_gate_session :: session where
  "demo_gate_session = \<lparr>styp = SessionTcpClient, sconn = ''9.9.9.9:1'', sid = 0\<rparr>"

lemma demo_reply_encoded:
  "length err < 100 \<Longrightarrow> \<exists>m. MessageEncode (RpcEncode mp_codec MSG_S2G_RPC_RSP [vu32 5, VStr err, VMap (RpcARsp True (vu32 10))]) = Inr m \<and> m \<noteq> []"
  by (simp add: MessageEncode_ok RpcEncode_def mp_codec_def put_str_def msg_names vu32_def be32_def RpcARsp_def)

theorem typed_call_answered_witness:
  "\<exists>m. RpcG2SRpcCall_Process mp_codec (service_a_handlers mp_codec id [] 1) [vu32 5, VBytes (RpcEncode mp_codec ''rpc_b'' [vu32 10])]
     demo_gate_session (demo_sa []) = (None, None, (RpcFvcCount (demo_sa []))\<lparr>out := [(''9.9.9.9:1'', m)]\<rparr>)"
proof -
  let ?w = "RpcFvcCount (demo_sa [])"
  have e: "GetResponseErr demo_gate_session ?w = []" by (simp add: GetResponseErr_def RpcFvcCount_def demo_sa_simps)
  obtain m where m: "MessageEncode (RpcEncode mp_codec MSG_S2G_RPC_RSP [vu32 5, VStr [], VMap (RpcARsp True (vu32 10))]) = Inr m" "m \<noteq> []"
    using demo_reply_encoded [of "[]"] by auto
  have "RpcG2SRpcCall_Process mp_codec (service_a_handlers mp_codec id [] 1) [vu32 5, VBytes (RpcEncode mp_codec ''rpc_b'' [vu32 10])]
     demo_gate_session (demo_sa []) = (None, None, ?w\<lparr>out := out ?w @ [(sconn demo_gate_session, m)]\<rparr>)"
    by (rule typed_call_answered [OF codec_ok_mp demo_sa_rpc_b service_a_rpc_b(1) _ _ service_a_rpc_b(2)])
      (use m e in \<open>simp_all add: RpcBReq_def demo_sa_simps RpcFvcCount_def\<close>)
  then show ?thesis by (intro exI [of _ m]) (simp add: demo_gate_session_def demo_sa_simps RpcFvcCount_def)
qed

text \<open>Property C37. (Deviation.) The error text belongs to the session of the read, not to the request: after a request of service A for \<open>rpc_a\<close>
  failed, the next request of the same read for \<open>rpc_b\<close>, which succeeds, is answered with its successful reply and the
  error of the other request.\<close>

theorem session_error_leaks:
  assumes "codec_ok mp" "RpcCallSync mp intn ''ServiceA'' ''rpc_b'' [vu32 10] rsps w = (Inr (Returned err v), w1)" "err \<noteq> []"
    "rpcs (rpcMgr w1) ''rpc_b'' = Some (H_User A_RpcB)" "netWrite w1 = good_net" "grid \<noteq> 0"
    "MessageEncode (RpcEncode mp MSG_S2G_RPC_RSP [vu32 grid, VStr err, VMap (RpcARsp True (vu32 i))]) = Inr m" "m \<noteq> []"
  shows "\<exists>w2 w3. RpcA_Process mp intn rsps req session w = (None, Some (RpcARsp False (req ! 0)), w2)
    \<and> RpcG2SRpcCall_Process mp (service_a_handlers mp intn rsps n) [vu32 grid, VBytes (RpcEncode mp ''rpc_b'' [vu32 i])] session w2
        = (None, None, w3) \<and> out w3 = out w2 @ [(sconn session, m)]"
proof -
  define w2 where "w2 = SetResponseErr session err w1"
  let ?w = "RpcFvcCount w2"
  have a: "RpcA_Process mp intn rsps req session w = (None, Some (RpcARsp False (req ! 0)), w2)"
    using assms(2,3) by (simp add: RpcA_Process_def w2_def)
  have e: "GetResponseErr session ?w = err" by (simp add: GetResponseErr_def w2_def SetResponseErr_def RpcFvcCount_def)
  have f: "rpcs (rpcMgr w2) ''rpc_b'' = Some (H_User A_RpcB)" "netWrite ?w = good_net" "out ?w = out w2"
    using assms(4,5) by (simp_all add: w2_def SetResponseErr_def RpcFvcCount_def)
  have "RpcG2SRpcCall_Process mp (service_a_handlers mp intn rsps n) [vu32 grid, VBytes (RpcEncode mp ''rpc_b'' [vu32 i])] session w2
     = (None, None, ?w\<lparr>out := out ?w @ [(sconn session, m)]\<rparr>)"
    by (rule service_reply [OF assms(1) f(1) service_a_rpc_b(1) _ _ service_a_rpc_b(2)])
      (use assms(6-8) f(2) e in \<open>simp_all add: RpcBReq_def\<close>)
  with a f(3) show ?thesis by (intro exI [of _ w2] exI [of _ "?w\<lparr>out := out ?w @ [(sconn session, m)]\<rparr>"]) simp
qed

text \<open>A synchronous call of the example process that is answered with an error.\<close>

lemma demo_sa_call:
  "\<exists>w1. RpcCallSync mp_codec id ''ServiceA'' ''rpc_b'' [vu32 10] [RspReply ''boom'' VNil] (demo_sa rsps) =
       (Inr (Returned ''boom'' VNil), w1) \<and> rpcMgr w1 = rpcMgr (demo_sa rsps) \<and> netWrite w1 = good_net"
proof -
  let ?w = "(demo_sa rsps)\<lparr>globalGID := 1\<rparr>"
  let ?to = "Some (SendTimeout 0 (timeout_text (Namespace demo_cfg) ''ServiceA'' ''rpc_b''))"
  have srv: "tcpServer ?w = tcpServer (demo_service good_net)" by (simp add: demo_sa_def demo_service_def)
  have inv: "server_inv (tcpServer ?w)" "[] \<notin> dom (clients (tcpServer ?w))"
    unfolding srv by (simp_all add: demo_service_facts)
  obtain k lb where p: "LoadBalance BALANCE_STRATEGY id (slb (tcpServer ?w)) = Inr (k, lb)"
    and "keys lb = keys (slb (tcpServer ?w))" "lb_wf lb"
    and q: "clients (tcpServer ?w) k = None \<longleftrightarrow> clients (tcpServer ?w) = Map.empty"
    "\<forall>c. clients (tcpServer ?w) k = Some c \<longrightarrow> cconn c = k"
    by (rule pick_client [OF inv, of id])
  have k: "clients (tcpServer ?w) k = Some demo_client" "cconn demo_client = k"
    using q by (auto simp: demo_sa_simps demo_client_def split: if_splits)
  obtain msg where msg: "MessageEncode (RpcEncode mp_codec MSG_C2G_RPC_ROUTE [VStr (Namespace (cfg ?w)), VStr ''ServiceA'', vu32 1, VBool False,
       VBytes (RpcEncode mp_codec ''rpc_b'' [vu32 10])]) = Inr msg" "msg \<noteq> []"
    using demo_call_encoded by (auto simp: demo_sa_simps)
  obtain m where m: "AddCallBack 1 [AChan (nextChan ?w)] 33 (Some (SendTimeout (nextChan ?w) (timeout_text (Namespace (cfg ?w)) ''ServiceA'' ''rpc_b'')))
       (now ?w div 1000) (cbMgr ?w) = Some m"
    using cb.add_law [of "cbMgr ?w" 1 "[AChan 0]" 33 ?to 0] by (auto simp: demo_sa_simps)
  have "RpcCall_send mp_codec id ''ServiceA'' ''rpc_b'' 1 [vu32 10] ?w = (Inr (Waiting 0),
      ?w\<lparr>tcpServer := (tcpServer ?w)\<lparr>slb := lb\<rparr>, nextChan := Suc 0, cbMgr := m, out := [(k, msg)], chanRecv := insert 0 (chanRecv ?w)\<rparr>)"
    using RpcCall_send_client [OF p k _ msg m] by (simp add: demo_sa_simps good_net_def)
  then show ?thesis
    by (simp add: RpcCallSync_def NewGid_def RpcCall_def RpcCall_recv_def demo_sa_simps)
qed

theorem session_error_leaks_witness:
  "\<exists>w2 w3. RpcA_Process mp_codec id [RspReply ''boom'' VNil] [vu32 1] demo_gate_session (demo_sa []) = (None, Some (RpcARsp False (vu32 1)), w2)
     \<and> RpcG2SRpcCall_Process mp_codec (service_a_handlers mp_codec id [RspReply ''boom'' VNil] 1)
         [vu32 5, VBytes (RpcEncode mp_codec ''rpc_b'' [vu32 10])] demo_gate_session w2 = (None, None, w3)"
proof -
  obtain w1 where w1: "RpcCallSync mp_codec id ''ServiceA'' ''rpc_b'' [vu32 10] [RspReply ''boom'' VNil] (demo_sa []) =
       (Inr (Returned ''boom'' VNil), w1)" "rpcMgr w1 = rpcMgr (demo_sa [])" "netWrite w1 = good_net"
    using demo_sa_call by blast
  obtain m where m: "MessageEncode (RpcEncode mp_codec MSG_S2G_RPC_RSP [vu32 5, VStr ''boom'', VMap (RpcARsp True (vu32 10))]) = Inr m" "m \<noteq> []"
    using demo_reply_encoded [of "''boom''"] by auto
  have "rpcs (rpcMgr w1) ''rpc_b'' = Some (H_User A_RpcB)" using demo_sa_rpc_b w1(2) by simp
  from session_error_leaks [OF codec_ok_mp w1(1) _ this w1(3) _ m, of "[vu32 1]" demo_gate_session 1] show ?thesis by auto
qed

end
