(* ===== verification/Push_Service.thy ===== *)
theory Push_Service
  imports Tcp_Server Db_Driver
begin

text \<open>
  The push service (\<open>push_service/src\<close>): it learns the listening address of every gate that connects, looks a client up in
  redis, where the gate it logged in at has left ``gate address/connection'', and sends the push to that gate. Safe
  pushes are stored in mongo first and marked when the client confirms them. The process adds the table
  \<open>gGateAddrMap\<close> and its database clients to the state.
\<close>

section \<open>State\<close>

datatype push_h = P_RspListenAddr | P_S2PPush | P_PushReply | P_PushRestore

record push_world = "push_h handler world" +
  gGateAddrMap :: "string \<rightharpoonup> CONN_ID"
  pdb :: db

definition PUSH_RECORD_STATE_UNARRIVE :: int where "PUSH_RECORD_STATE_UNARRIVE = 0"
definition PUSH_RECORD_STATE_ARRIVED :: int where "PUSH_RECORD_STATE_ARRIVED = 1"

section \<open>Handlers\<close>

definition RpcRspListenAddr_Process :: "gval list \<Rightarrow> session \<Rightarrow> push_world \<Rightarrow> push_world proc" where
  "RpcRspListenAddr_Process req session w =
     (None, None, w\<lparr>gGateAddrMap := (gGateAddrMap w)(as_str (req ! 0) \<mapsto> GetConnID (sconn session))\<rparr>)"

definition push_key :: "string \<Rightarrow> string \<Rightarrow> string option" where
  "push_key tpe clientID =
     (if ''server'' = tpe then Some (''s_'' @ clientID)
      else if ''client'' = tpe then Some (''c_'' @ clientID) else None)"

text \<open>\<open>Get(key).Result()\<close>: the string, empty when the answer is none.\<close>

fun answer_string :: "db_answer \<Rightarrow> string" where
  "answer_string (DbString s) = s"
| "answer_string _ = []"

definition PushToGate ::
  "msgpack \<Rightarrow> string \<Rightarrow> string \<Rightarrow> bytes \<Rightarrow> bytes \<Rightarrow> push_world \<Rightarrow> unit res \<times> push_world" where
  "PushToGate mp clientID tpe pushMsg pid w =
     (case push_key tpe clientID of
        None \<Rightarrow> (Inr (), w)
      | Some key \<Rightarrow>
          (case db_call (GetRedisCluster ''myRedis2'' (gDBResource (pdb w))) (RedisGet key) (pdb w) of
             (Inl e, d) \<Rightarrow> (Inl e, w\<lparr>pdb := d\<rparr>)
           | (Inr a, d) \<Rightarrow>
               let w1 = w\<lparr>pdb := d\<rparr>; v = split_on (CHR ''/'') (answer_string a) in
               if is_err a then (Inr (), w1)
               else (case res_bind (index v 0) (\<lambda>gateAddr. res_bind (index v 1) (\<lambda>c. Inr (gateAddr, c))) of
                       Inl e \<Rightarrow> (Inl e, w1)
                     | Inr (gateAddr, clientConnID) \<Rightarrow>
                         (case gGateAddrMap w1 gateAddr of
                            None \<Rightarrow> (Inr (), w1)
                          | Some connID \<Rightarrow>
                              (case GetTcpClient connID w1 of
                                 None \<Rightarrow> (Inr (), w1)
                               | Some client \<Rightarrow>
                                   (case rpc_send mp (Some (cconn client)) MSG_P2G_PUSH
                                           [VStr clientConnID, VBytes pid, VStr (Namespace (cfg w1)), VBytes pushMsg] w1 of
                                      (Inl e, w2) \<Rightarrow> (Inl e, w2)
                                    | (Inr _, w2) \<Rightarrow> (Inr (), w2)))))))"

definition RpcS2PPushReq :: "(string \<times> gty) list" where
  "RpcS2PPushReq = [(''ClientID'', TString), (''Typ'', TString), (''IsSafe'', TBool), (''PushMsg'', TBytes)]"

definition push_record :: "string \<Rightarrow> string \<Rightarrow> bytes \<Rightarrow> (string \<times> bson) list" where
  "push_record clientID tpe msg =
     [(''clientID'', BString clientID), (''type'', BString tpe), (''pushMsg'', BBinary msg),
      (''state'', BInt PUSH_RECORD_STATE_UNARRIVE)]"

definition as_object_id :: "bson \<Rightarrow> bytes res" where
  "as_object_id v = (case v of BObjectID b \<Rightarrow> Inr b | _ \<Rightarrow> Inl TypeAssertion)"

definition as_bson_string :: "bson \<Rightarrow> string res" where
  "as_bson_string v = (case v of BString s \<Rightarrow> Inr s | _ \<Rightarrow> Inl TypeAssertion)"

definition as_bson_binary :: "bson \<Rightarrow> bytes res" where
  "as_bson_binary v = (case v of BBinary b \<Rightarrow> Inr b | _ \<Rightarrow> Inl TypeAssertion)"

definition RpcS2PPush_Process :: "msgpack \<Rightarrow> gval list \<Rightarrow> session \<Rightarrow> push_world \<Rightarrow> push_world proc" where
  "RpcS2PPush_Process mp req session w =
     (let clientID = as_str (req ! 0); tpe = as_str (req ! 1); msg = as_bytes (req ! 3) in
      if as_bool (req ! 2)
      then (case db_call (GetMongo ''myMongo'' (gDBResource (pdb w)))
                   (MongoInsertOne ''push_service'' ''safe_push_records'' (push_record clientID tpe msg)) (pdb w) of
              (Inl e, d) \<Rightarrow> (Some e, None, w\<lparr>pdb := d\<rparr>)
            | (Inr a, d) \<Rightarrow>
                if is_err a then (None, None, w\<lparr>pdb := d\<rparr>)
                else (case (case a of DbId v \<Rightarrow> as_object_id v | _ \<Rightarrow> Inl TypeAssertion) of
                        Inl e \<Rightarrow> (Some e, None, w\<lparr>pdb := d\<rparr>)
                      | Inr pid \<Rightarrow> no_rsp (PushToGate mp clientID tpe msg pid (w\<lparr>pdb := d\<rparr>))))
      else no_rsp (PushToGate mp clientID tpe msg [] w))"

text \<open>\<open>copy(objectID[0:], Pid)\<close> into an array of twelve zero bytes.\<close>

definition object_id_of :: "bytes \<Rightarrow> bytes" where
  "object_id_of pid = take 12 (pid @ replicate 12 0)"

definition RpcPushReply_Process :: "gval list \<Rightarrow> session \<Rightarrow> push_world \<Rightarrow> push_world proc" where
  "RpcPushReply_Process req session w =
     (case db_call (GetMongo ''myMongo'' (gDBResource (pdb w)))
             (MongoUpdateOne ''push_service'' ''safe_push_records'' [(''_id'', BObjectID (object_id_of (as_bytes (req ! 0))))]
                [(''$set'', BDoc [(''state'', BInt PUSH_RECORD_STATE_ARRIVED)])]) (pdb w) of
        (Inl e, d) \<Rightarrow> (Some e, None, w\<lparr>pdb := d\<rparr>)
      | (Inr _, d) \<Rightarrow> (None, None, w\<lparr>pdb := d\<rparr>))"

text \<open>The loop over the documents found: the fields are read by position.\<close>

definition doc_value :: "nat \<Rightarrow> (string \<times> bson) list \<Rightarrow> bson res" where
  "doc_value i doc = res_bind (index doc i) (\<lambda>kv. Inr (snd kv))"

definition read_record :: "(string \<times> bson) list \<Rightarrow> (bytes \<times> string \<times> string \<times> bytes) res" where
  "read_record doc =
     res_bind (res_bind (doc_value 0 doc) as_object_id) (\<lambda>objID.
     res_bind (res_bind (doc_value 1 doc) as_bson_string) (\<lambda>clientID.
     res_bind (res_bind (doc_value 2 doc) as_bson_string) (\<lambda>tpe.
     res_bind (res_bind (doc_value 3 doc) as_bson_binary) (\<lambda>pushMsg. Inr (objID, clientID, tpe, pushMsg)))))"

fun restore_docs :: "msgpack \<Rightarrow> (string \<times> bson) list list \<Rightarrow> push_world \<Rightarrow> unit res \<times> push_world" where
  "restore_docs mp [] w = (Inr (), w)"
| "restore_docs mp (doc # docs) w =
     (case read_record doc of
        Inl e \<Rightarrow> (Inl e, w)
      | Inr (objID, clientID, tpe, pushMsg) \<Rightarrow>
          (case PushToGate mp clientID tpe pushMsg objID w of
             (Inl e, w1) \<Rightarrow> (Inl e, w1)
           | (Inr _, w1) \<Rightarrow> restore_docs mp docs w1))"

fun answer_docs :: "db_answer \<Rightarrow> (string \<times> bson) list list" where
  "answer_docs (DbDocs ds) = ds"
| "answer_docs _ = []"

definition RpcPushRestore_Process :: "msgpack \<Rightarrow> gval list \<Rightarrow> session \<Rightarrow> push_world \<Rightarrow> push_world proc" where
  "RpcPushRestore_Process mp req session w =
     (case db_call (GetMongo ''myMongo'' (gDBResource (pdb w)))
             (MongoFind ''push_service'' ''safe_push_records''
                [(''clientID'', BString (as_str (req ! 0))), (''state'', BInt PUSH_RECORD_STATE_UNARRIVE)]) (pdb w) of
        (Inl e, d) \<Rightarrow> (Some e, None, w\<lparr>pdb := d\<rparr>)
      | (Inr a, d) \<Rightarrow>
          if is_err a then (None, None, w\<lparr>pdb := d\<rparr>)
          else no_rsp (restore_docs mp (answer_docs a) (w\<lparr>pdb := d\<rparr>)))"

section \<open>The process\<close>

definition push_user :: "msgpack \<Rightarrow> (push_h, push_world) handlers" where
  "push_user mp =
     \<lparr>GetReqPtr = (\<lambda>h. case h of
          P_RspListenAddr \<Rightarrow> Some [(''Addr'', TString)]
        | P_S2PPush \<Rightarrow> Some RpcS2PPushReq
        | P_PushReply \<Rightarrow> Some [(''Pid'', TBytes)]
        | P_PushRestore \<Rightarrow> Some [(''ClientID'', TString)]),
      ClientAccess = (\<lambda>h. case h of
          P_RspListenAddr \<Rightarrow> None | P_S2PPush \<Rightarrow> None | P_PushReply \<Rightarrow> Some True | P_PushRestore \<Rightarrow> Some True),
      Process = (\<lambda>h req session w. case h of
          P_RspListenAddr \<Rightarrow> RpcRspListenAddr_Process req session w
        | P_S2PPush \<Rightarrow> RpcS2PPush_Process mp req session w
        | P_PushReply \<Rightarrow> RpcPushReply_Process req session w
        | P_PushRestore \<Rightarrow> RpcPushRestore_Process mp req session w)\<rparr>"

definition push_registrations :: "(string \<times> push_h handler) list" where
  "push_registrations =
     [(MSG_G2P_RSP_LISTENADDR, H_User P_RspListenAddr), (MSG_S2P_PUSH, H_User P_S2PPush),
      (MSG_PUSH_REPLY, H_User P_PushReply), (MSG_PUSH_RESTORE, H_User P_PushRestore)]"

definition onTcpAccept :: "msgpack \<Rightarrow> conn \<Rightarrow> ('h, 'b) world_scheme \<Rightarrow> ('h, 'b) world_scheme" where
  "onTcpAccept mp c w = snd (rpc_send mp (Some c) MSG_P2G_REQ_LISTENADDR [] w)"

definition push_handlers :: "msgpack \<Rightarrow> nat \<Rightarrow> (push_h handler, push_world) handlers" where
  "push_handlers mp n = process_handlers mp (push_user mp) n"

definition push_main ::
  "msgpack \<Rightarrow> nat \<Rightarrow> GlobalConfig \<Rightarrow> string \<Rightarrow> db \<Rightarrow> int \<Rightarrow> (conn \<Rightarrow> bytes \<Rightarrow> nat \<times> bool) \<Rightarrow> push_world res" where
  "push_main mp n c localip d t nw =
     res_bind (start_registry (push_handlers mp n) push_registrations) (\<lambda>r.
       Inr (world.extend (Init c SERVER_IDENTITY_SERVICE localip r t nw) \<lparr>gGateAddrMap = Map.empty, pdb = d\<rparr>))"

section \<open>Lemmas\<close>

text \<open>A client that redis knows, at a gate that is connected: the push goes to that gate.\<close>

lemma PushToGate_sends:
  assumes "push_key tpe clientID = Some key" "gDBResource (pdb w) ''myRedis2'' = Some cl" "is_cluster cl"
    "dbAnswer (pdb w) cl (RedisGet key) = DbString (gateAddr @ ''/'' @ k)" "CHR ''/'' \<notin> set gateAddr" "CHR ''/'' \<notin> set k"
    "gGateAddrMap w gateAddr = Some g" "clients (tcpServer w) g = Some client" "netWrite w = good_net"
    "MessageEncode (RpcEncode mp MSG_P2G_PUSH [VStr k, VBytes pid, VStr (Namespace (cfg w)), VBytes pushMsg]) = Inr m" "m \<noteq> []"
  shows "PushToGate mp clientID tpe pushMsg pid w =
    (Inr (), w\<lparr>pdb := (pdb w)\<lparr>dbLog := dbLog (pdb w) @ [(cl, RedisGet key)]\<rparr>, out := out w @ [(cconn client, m)]\<rparr>)"
proof -
  have "split_on (CHR ''/'') (gateAddr @ ''/'' @ k) = [gateAddr, k]"
    using split_on_append [OF assms(5), of k] split_on_free [OF assms(6)] by simp
  then show ?thesis
    using assms
    by (simp add: PushToGate_def db_call_def GetRedisCluster_def get_client_def assert_client_def db_do_def Let_def
        GetTcpClient_def rpc_send_def MessageSend_def good_net_def)
qed

lemma GetMongo_found:
  "gDBResource d ''myMongo'' = Some cl \<Longrightarrow> is_mongo cl \<Longrightarrow>
     db_call (GetMongo ''myMongo'' (gDBResource d)) cmd d = (Inr (dbAnswer d cl cmd), d\<lparr>dbLog := dbLog d @ [(cl, cmd)]\<rparr>)"
  by (simp add: db_call_def GetMongo_def get_client_def assert_client_def db_do_def)

lemma object_id_of_self: "length pid = 12 \<Longrightarrow> object_id_of pid = pid"
  by (simp add: object_id_of_def)

lemma read_record_push_record:
  "read_record ((''_id'', BObjectID pid) # push_record clientID tpe msg) = Inr (pid, clientID, tpe, msg)"
  by (simp add: read_record_def doc_value_def push_record_def as_object_id_def as_bson_string_def as_bson_binary_def)

text \<open>The messages of a series of pushes to one client.\<close>

definition push_msg :: "msgpack \<Rightarrow> string \<Rightarrow> string \<Rightarrow> bytes \<times> bytes \<Rightarrow> bytes res" where
  "push_msg mp ns k r = MessageEncode (RpcEncode mp MSG_P2G_PUSH [VStr k, VBytes (fst r), VStr ns, VBytes (snd r)])"

definition stored_record :: "string \<Rightarrow> string \<Rightarrow> bytes \<times> bytes \<Rightarrow> (string \<times> bson) list" where
  "stored_record clientID tpe r = (''_id'', BObjectID (fst r)) # push_record clientID tpe (snd r)"

lemma restore_docs_sends:
  assumes "push_key tpe clientID = Some key" "gDBResource (pdb w) ''myRedis2'' = Some cl" "is_cluster cl"
    "dbAnswer (pdb w) cl (RedisGet key) = DbString (gateAddr @ ''/'' @ k)" "CHR ''/'' \<notin> set gateAddr" "CHR ''/'' \<notin> set k"
    "gGateAddrMap w gateAddr = Some g" "clients (tcpServer w) g = Some client" "netWrite w = good_net"
    "\<forall>r\<in>set recs. \<exists>m. push_msg mp (Namespace (cfg w)) k r = Inr m \<and> m \<noteq> []"
  shows "restore_docs mp (map (stored_record clientID tpe) recs) w =
    (Inr (), w\<lparr>pdb := (pdb w)\<lparr>dbLog := dbLog (pdb w) @ replicate (length recs) (cl, RedisGet key)\<rparr>,
       out := out w @ map (\<lambda>r. (cconn client, projr (push_msg mp (Namespace (cfg w)) k r))) recs\<rparr>)"
  using assms
proof (induction recs arbitrary: w)
  case (Cons r recs)
  obtain m where m: "push_msg mp (Namespace (cfg w)) k r = Inr m" "m \<noteq> []" using Cons.prems(10) by auto
  let ?w1 = "w\<lparr>pdb := (pdb w)\<lparr>dbLog := dbLog (pdb w) @ [(cl, RedisGet key)]\<rparr>, out := out w @ [(cconn client, m)]\<rparr>"
  have "PushToGate mp clientID tpe (snd r) (fst r) w = (Inr (), ?w1)"
    by (rule PushToGate_sends [OF Cons.prems(1-9)]) (use m in \<open>simp_all add: push_msg_def\<close>)
  then have "restore_docs mp (map (stored_record clientID tpe) (r # recs)) w =
      restore_docs mp (map (stored_record clientID tpe) recs) ?w1"
    by (simp add: stored_record_def read_record_push_record)
  also have "\<dots> = (Inr (), ?w1\<lparr>pdb := (pdb ?w1)\<lparr>dbLog := dbLog (pdb ?w1) @ replicate (length recs) (cl, RedisGet key)\<rparr>,
       out := out ?w1 @ map (\<lambda>r. (cconn client, projr (push_msg mp (Namespace (cfg ?w1)) k r))) recs\<rparr>)"
    by (rule Cons.IH [OF Cons.prems(1)]) (use Cons.prems in simp_all)
  finally show ?case using m by simp
qed simp

section \<open>Properties\<close>

text \<open>Property C25. Restore after login: when mongo returns the stored records of a client that have not arrived, in the form in which
  \<open>RpcS2PPushHandler\<close> stored them, every one of them is pushed again, once and in order, with its own
  identifier and message, to the gate and connection redis has for the client; no record is marked by it.\<close>

theorem restore_resends_all:
  assumes "push_key tpe clientID = Some key" "gDBResource (pdb w) ''myRedis2'' = Some cl" "is_cluster cl"
    "dbAnswer (pdb w) cl (RedisGet key) = DbString (gateAddr @ ''/'' @ k)" "CHR ''/'' \<notin> set gateAddr" "CHR ''/'' \<notin> set k"
    "gGateAddrMap w gateAddr = Some g" "clients (tcpServer w) g = Some client" "netWrite w = good_net"
    "\<forall>r\<in>set recs. \<exists>m. push_msg mp (Namespace (cfg w)) k r = Inr m \<and> m \<noteq> []"
    "gDBResource (pdb w) ''myMongo'' = Some mc" "is_mongo mc"
    "dbAnswer (pdb w) mc (MongoFind ''push_service'' ''safe_push_records''
       [(''clientID'', BString clientID), (''state'', BInt PUSH_RECORD_STATE_UNARRIVE)]) = DbDocs (map (stored_record clientID tpe) recs)"
  shows "\<exists>w'. RpcPushRestore_Process mp [VStr clientID] session w = (None, None, w')
    \<and> out w' = out w @ map (\<lambda>r. (cconn client, projr (push_msg mp (Namespace (cfg w)) k r))) recs
    \<and> (\<forall>c cmd. (c, cmd) \<in> set (dbLog (pdb w')) - set (dbLog (pdb w)) \<longrightarrow>
         cmd = RedisGet key \<or> (\<exists>f. cmd = MongoFind ''push_service'' ''safe_push_records'' f))"
proof -
  let ?f = "[(''clientID'', BString clientID), (''state'', BInt PUSH_RECORD_STATE_UNARRIVE)]"
  let ?w1 = "w\<lparr>pdb := (pdb w)\<lparr>dbLog := dbLog (pdb w) @ [(mc, MongoFind ''push_service'' ''safe_push_records'' ?f)]\<rparr>\<rparr>"
  have "RpcPushRestore_Process mp [VStr clientID] session w =
      no_rsp (restore_docs mp (map (stored_record clientID tpe) recs) ?w1)"
    unfolding RpcPushRestore_Process_def GetMongo_found [OF assms(11,12)] using assms(13) by simp
  also have "restore_docs mp (map (stored_record clientID tpe) recs) ?w1 =
    (Inr (), ?w1\<lparr>pdb := (pdb ?w1)\<lparr>dbLog := dbLog (pdb ?w1) @ replicate (length recs) (cl, RedisGet key)\<rparr>,
       out := out ?w1 @ map (\<lambda>r. (cconn client, projr (push_msg mp (Namespace (cfg ?w1)) k r))) recs\<rparr>)"
    by (rule restore_docs_sends [OF assms(1)]) (use assms(2-10) in simp_all)
  finally show ?thesis by (auto simp: no_rsp_def)
qed

definition demo_push :: push_world where
  "demo_push =
     (world.extend (Init demo_cfg SERVER_IDENTITY_SERVICE [] empty_rpcMgr 0 good_net)
        \<lparr>gGateAddrMap = [''0.0.0.0:8886'' \<mapsto> ''9.9.9.9:1''],
         pdb = \<lparr>gDBResource = [''myRedis2'' \<mapsto> RedisClusterClient [''a:1''], ''myMongo'' \<mapsto> MongoClient ''m:1''],
           dbAnswer = (\<lambda>c cmd. case c of
               RedisClusterClient _ \<Rightarrow> DbString ''0.0.0.0:8886/7.7.7.7:2''
             | _ \<Rightarrow> DbDocs [stored_record ''client0'' ''client'' (replicate 12 1, [5])]),
           dbLog = []\<rparr>\<rparr>)
     \<lparr>tcpServer := tcpServer (demo_server 0)\<rparr>"

lemma demo_push_simps:
  "gGateAddrMap demo_push = [''0.0.0.0:8886'' \<mapsto> ''9.9.9.9:1'']" "clients (tcpServer demo_push) = [''9.9.9.9:1'' \<mapsto> demo_client]"
  "netWrite demo_push = good_net" "out demo_push = []" "cfg demo_push = demo_cfg"
  "gDBResource (pdb demo_push) = [''myRedis2'' \<mapsto> RedisClusterClient [''a:1''], ''myMongo'' \<mapsto> MongoClient ''m:1'']"
  "dbAnswer (pdb demo_push) = (\<lambda>c cmd. case c of
               RedisClusterClient _ \<Rightarrow> DbString ''0.0.0.0:8886/7.7.7.7:2''
             | _ \<Rightarrow> DbDocs [stored_record ''client0'' ''client'' (replicate 12 1, [5])])"
  "dbLog (pdb demo_push) = []"
  by (simp_all add: demo_push_def world.defs Init_def demo_server_client)

lemma demo_push_msg: "\<exists>m. push_msg mp_codec (Namespace demo_cfg) ''7.7.7.7:2'' (replicate 12 1, [5]) = Inr m \<and> m \<noteq> []"
  by (simp add: push_msg_def MessageEncode_ok RpcEncode_def mp_codec_def put_str_def msg_names be32_def demo_cfg_def)

theorem restore_resends_all_witness:
  "\<exists>w' m. RpcPushRestore_Process mp_codec [VStr ''client0''] \<lparr>styp = SessionTcpClient, sconn = ''9.9.9.9:1'', sid = 0\<rparr> demo_push = (None, None, w')
     \<and> out w' = [(''9.9.9.9:1'', m)]"
proof -
  have "\<exists>w'. RpcPushRestore_Process mp_codec [VStr ''client0''] \<lparr>styp = SessionTcpClient, sconn = ''9.9.9.9:1'', sid = 0\<rparr> demo_push = (None, None, w')
    \<and> out w' = out demo_push @ map (\<lambda>r. (cconn demo_client, projr (push_msg mp_codec (Namespace (cfg demo_push)) ''7.7.7.7:2'' r))) [(replicate 12 1, [5])]
    \<and> (\<forall>c cmd. (c, cmd) \<in> set (dbLog (pdb w')) - set (dbLog (pdb demo_push)) \<longrightarrow>
         cmd = RedisGet ''c_client0'' \<or> (\<exists>f. cmd = MongoFind ''push_service'' ''safe_push_records'' f))"
    by (rule restore_resends_all [where tpe = "''client''" and gateAddr = "''0.0.0.0:8886''" and g = "''9.9.9.9:1''"
          and cl = "RedisClusterClient [''a:1'']" and mc = "MongoClient ''m:1''"])
      (use demo_push_msg in \<open>simp_all add: demo_push_simps push_key_def\<close>)
  then show ?thesis by (auto simp: demo_push_simps demo_client_def)
qed

text \<open>Property C38. (Deviation.) The gates are told apart by the address they listen at, which for every client gate is \<open>0.0.0.0\<close> and its
  port: when a second gate reports the same address, it replaces the first, and a push for a client whose login
  was recorded by the first gate is sent to the second, to which the client is not connected.\<close>

theorem gate_address_collision:
  assumes "push_key tpe clientID = Some key" "gDBResource (pdb w) ''myRedis2'' = Some cl" "is_cluster cl"
    "dbAnswer (pdb w) cl (RedisGet key) = DbString (gateAddr @ ''/'' @ k)" "CHR ''/'' \<notin> set gateAddr" "CHR ''/'' \<notin> set k"
    "clients (tcpServer w) (sconn gate2) = Some peer" "cconn peer = sconn gate2" "netWrite w = good_net"
    "push_msg mp (Namespace (cfg w)) k (pid, pushMsg) = Inr m" "m \<noteq> []"
  shows "\<exists>w1 w2 w3. RpcRspListenAddr_Process [VStr gateAddr] gate1 w = (None, None, w1)
    \<and> RpcRspListenAddr_Process [VStr gateAddr] gate2 w1 = (None, None, w2)
    \<and> PushToGate mp clientID tpe pushMsg pid w2 = (Inr (), w3) \<and> out w3 = out w @ [(sconn gate2, m)]"
proof -
  define w2 where "w2 = w\<lparr>gGateAddrMap := (gGateAddrMap w)(gateAddr \<mapsto> sconn gate2)\<rparr>"
  have "PushToGate mp clientID tpe pushMsg pid w2 =
    (Inr (), w2\<lparr>pdb := (pdb w2)\<lparr>dbLog := dbLog (pdb w2) @ [(cl, RedisGet key)]\<rparr>, out := out w2 @ [(cconn peer, m)]\<rparr>)"
    by (rule PushToGate_sends [where gateAddr = gateAddr and k = k and g = "sconn gate2"])
      (use assms in \<open>simp_all add: w2_def push_msg_def\<close>)
  then show ?thesis
    using assms(8) by (simp add: RpcRspListenAddr_Process_def GetConnID_def w2_def)
qed

theorem gate_address_collision_witness:
  "\<exists>w1 w2 w3 m. RpcRspListenAddr_Process [VStr ''0.0.0.0:8886''] \<lparr>styp = SessionTcpClient, sconn = ''8.8.8.8:1'', sid = 0\<rparr> demo_push = (None, None, w1)
     \<and> RpcRspListenAddr_Process [VStr ''0.0.0.0:8886''] \<lparr>styp = SessionTcpClient, sconn = ''9.9.9.9:1'', sid = 1\<rparr> w1 = (None, None, w2)
     \<and> PushToGate mp_codec ''client0'' ''client'' [5] (replicate 12 1) w2 = (Inr (), w3) \<and> out w3 = [(''9.9.9.9:1'', m)]"
proof -
  obtain m where m: "push_msg mp_codec (Namespace demo_cfg) ''7.7.7.7:2'' (replicate 12 1, [5]) = Inr m" "m \<noteq> []"
    using demo_push_msg by blast
  have "\<exists>w1 w2 w3. RpcRspListenAddr_Process [VStr ''0.0.0.0:8886''] \<lparr>styp = SessionTcpClient, sconn = ''8.8.8.8:1'', sid = 0\<rparr> demo_push = (None, None, w1)
    \<and> RpcRspListenAddr_Process [VStr ''0.0.0.0:8886''] \<lparr>styp = SessionTcpClient, sconn = ''9.9.9.9:1'', sid = 1\<rparr> w1 = (None, None, w2)
    \<and> PushToGate mp_codec ''client0'' ''client'' [5] (replicate 12 1) w2 = (Inr (), w3)
    \<and> out w3 = out demo_push @ [(sconn \<lparr>styp = SessionTcpClient, sconn = ''9.9.9.9:1'', sid = 1\<rparr>, m)]"
    by (rule gate_address_collision [where key = "''c_client0''" and k = "''7.7.7.7:2''" and cl = "RedisClusterClient [''a:1'']" and peer = demo_client])
      (use m in \<open>simp_all add: demo_push_simps push_key_def demo_client_def\<close>)
  then show ?thesis by (simp add: demo_push_simps) blast
qed

end
