(* ===== verification/Client_Sdk.thy ===== *)
theory Client_Sdk
  imports Rpc_Call
begin

text \<open>
  The client library (\<open>clientsdk/gate_proxy.go\<close>): the connection to a gate with its read loop, login and logoff, the service
  proxies whose calls carry an optional callback, and the handlers of responses and pushes. A \<open>CallBack\<close> is the number
  of a function of the application; calling it is recorded in \<open>cbCalls\<close> with the error and the reply.
\<close>

section \<open>State\<close>

datatype 'u sdk_h = S_G2CRpcRsp | S_G2CPush | S_User 'u

record 'h sdk_world = "'h world" +
  cbCalls :: "(nat \<times> string \<times> gval) list"

record GateProxy =
  gp_ip :: string
  gp_port :: int
  gp_conn :: conn
  gp_recv :: recv

record ServiceProxy =
  Gp :: GateProxy
  sp_Namespace :: string
  sp_ServiceName :: string

section \<open>The proxy of a gate\<close>

definition GateProxy_RpcCall ::
  "msgpack \<Rightarrow> GateProxy \<Rightarrow> string \<Rightarrow> gval list \<Rightarrow> ('h, 'b) world_scheme \<Rightarrow> unit res \<times> ('h, 'b) world_scheme" where
  "GateProxy_RpcCall mp g rpcName args w =
     (case rpc_send mp (Some (gp_conn g)) rpcName args w of (Inl e, w1) \<Rightarrow> (Inl e, w1) | (Inr _, w1) \<Rightarrow> (Inr (), w1))"

definition Login ::
  "msgpack \<Rightarrow> GateProxy \<Rightarrow> string \<Rightarrow> string \<Rightarrow> ('h, 'b) world_scheme \<Rightarrow> unit res \<times> ('h, 'b) world_scheme" where
  "Login mp g clientID namespace w =
     (case GateProxy_RpcCall mp g MSG_GATE_LOGIN [VStr clientID] w of
        (Inl e, w1) \<Rightarrow> (Inl e, w1)
      | (Inr _, w1) \<Rightarrow>
          GateProxy_RpcCall mp g MSG_C2G_RPC_ROUTE
            [VStr namespace, VStr ''PushService'', VInt 0, VBool False, VBytes (RpcEncode mp MSG_PUSH_RESTORE [VStr clientID])] w1)"

definition Logoff ::
  "msgpack \<Rightarrow> GateProxy \<Rightarrow> string \<Rightarrow> ('h, 'b) world_scheme \<Rightarrow> unit res \<times> ('h, 'b) world_scheme" where
  "Logoff mp g clientID w = GateProxy_RpcCall mp g MSG_GATE_LOGOFF [VStr clientID] w"

text \<open>\<open>CreateGateProxy\<close>; \<open>dial\<close> is whether \<open>net.Dial\<close> connects.\<close>

definition CreateGateProxy ::
  "msgpack \<Rightarrow> bool \<Rightarrow> string \<Rightarrow> int \<Rightarrow> ('h, 'b) world_scheme \<Rightarrow> GateProxy option res \<times> ('h, 'b) world_scheme" where
  "CreateGateProxy mp dial i p w =
     (if \<not> dial then (Inr None, w)
      else let g = \<lparr>gp_ip = i, gp_port = p, gp_conn = i @ '':'' @ show_int p, gp_recv = new_recv\<rparr> in
        (case GateProxy_RpcCall mp g MSG_C2G_VERTIFY [VStr VERTIFY_SECRET_KEY] w of
           (Inl e, w1) \<Rightarrow> (Inl e, w1)
         | (Inr _, w1) \<Rightarrow> (Inr (Some g), w1)))"

text \<open>One iteration of the read loop. No deadline is set, so a time-out is an error like any other.\<close>

definition GateProxy_HandleRead ::
  "msgpack \<Rightarrow> ('h, ('h, 'b) world_scheme) handlers \<Rightarrow> GateProxy \<Rightarrow> net_read \<Rightarrow> ('h, 'b) world_scheme \<Rightarrow>
     loop_exit res \<times> GateProxy \<times> ('h, 'b) world_scheme" where
  "GateProxy_HandleRead mp hs g rd w =
     (if rerr rd = TimeoutErr \<or> rerr rd = OtherErr then (Inr Break, g, w)
      else if length (rdata rd) = 0 then (Inr Break, g, w)
      else
        let r1 = recv_fill (gp_recv g) (rdata rd) in
        if \<not> remainLen r1 > RECV_BUF_MAX_LEN div 2 \<and> remainLen r1 > RECV_BUF_MAX_LEN then (Inr Break, g\<lparr>gp_recv := r1\<rparr>, w)
        else (case CreateSession SessionRemote (gp_conn g) w of
                (session, w1) \<Rightarrow>
                  (case recv_decode (packet_handler mp hs session) r1 w1 of
                     Inl e \<Rightarrow> (Inl e, g\<lparr>gp_recv := r1\<rparr>, w1)
                   | Inr (r2, w2) \<Rightarrow> (Inr Continue, g\<lparr>gp_recv := r2\<rparr>, w2))))"

section \<open>The proxy of a service\<close>

definition CreateServiceProxy :: "GateProxy \<Rightarrow> string \<Rightarrow> string \<Rightarrow> ServiceProxy" where
  "CreateServiceProxy g namespace serviceName = \<lparr>Gp = g, sp_Namespace = namespace, sp_ServiceName = serviceName\<rparr>"

text \<open>
  \<open>_rpcCall\<close>: the variadic arguments are the values \<open>args\<close> and the last one, when it has the type \<open>CallBack\<close>:
  \<open>cb\<close> is \<open>None\<close> without such an argument and \<open>Some None\<close> for a nil one.
\<close>

definition rpcCall ::
  "msgpack \<Rightarrow> ServiceProxy \<Rightarrow> bool \<Rightarrow> string \<Rightarrow> gval list \<Rightarrow> nat option option \<Rightarrow> ('h, 'b) world_scheme \<Rightarrow>
     unit res \<times> ('h, 'b) world_scheme" where
  "rpcCall mp sp ordered rpcName args cb w =
     (case (case cb of
              Some (Some f) \<Rightarrow>
                (case NewGid w of (rid, w1) \<Rightarrow>
                   (case add_callback rid [AFunc f] 100
                           (Some (RunTimeout f (''rpc call '' @ sp_Namespace sp @ '':'' @ sp_ServiceName sp @ '':'' @ rpcName @ '' time out'')))
                           w1 of
                      (r, w2) \<Rightarrow> (r, rid, w2)))
            | _ \<Rightarrow> (Inr (), 0, w)) of
        (Inl e, _, w2) \<Rightarrow> (Inl e, w2)
      | (Inr _, rid, w2) \<Rightarrow>
          GateProxy_RpcCall mp (Gp sp) MSG_C2G_RPC_ROUTE
            [VStr (sp_Namespace sp), VStr (sp_ServiceName sp), vu32 rid, VBool ordered, VBytes (RpcEncode mp rpcName args)] w2)"

definition ServiceProxy_RpcCall ::
  "msgpack \<Rightarrow> ServiceProxy \<Rightarrow> string \<Rightarrow> gval list \<Rightarrow> nat option option \<Rightarrow> ('h, 'b) world_scheme \<Rightarrow> unit res \<times> ('h, 'b) world_scheme" where
  "ServiceProxy_RpcCall mp sp rpcName args cb w = rpcCall mp sp False rpcName args cb w"

definition ServiceProxy_RpcCallOrdered ::
  "msgpack \<Rightarrow> ServiceProxy \<Rightarrow> string \<Rightarrow> gval list \<Rightarrow> nat option option \<Rightarrow> ('h, 'b) world_scheme \<Rightarrow> unit res \<times> ('h, 'b) world_scheme" where
  "ServiceProxy_RpcCallOrdered mp sp rpcName args cb w = rpcCall mp sp True rpcName args cb w"

section \<open>Handlers\<close>

definition call_fun :: "nat \<Rightarrow> string \<Rightarrow> gval \<Rightarrow> ('h, 'b) sdk_world_scheme \<Rightarrow> ('h, 'b) sdk_world_scheme" where
  "call_fun f err reply w = w\<lparr>cbCalls := cbCalls w @ [(f, err, reply)]\<rparr>"

text \<open>The tick of the callback manager in a client process.\<close>

definition sdk_tick :: "('h, 'b) sdk_world_scheme \<Rightarrow> unit res \<times> ('h, 'b) sdk_world_scheme" where
  "sdk_tick w = callback_tick (\<lambda>f err. call_fun f err VNil) w"

definition Sdk_G2CRpcRsp_Process :: "gval list \<Rightarrow> session \<Rightarrow> ('h, 'b) sdk_world_scheme \<Rightarrow> ('h, 'b) sdk_world_scheme proc" where
  "Sdk_G2CRpcRsp_Process req session w =
     (case get_callback (as_u32 (req ! 0)) w of
        (None, w1) \<Rightarrow> (None, None, w1)
      | (Some cbs, w1) \<Rightarrow>
          (case cbs of
             [] \<Rightarrow> (Some IndexOutOfRange, None, w1)
           | AFunc f # _ \<Rightarrow> (None, None, call_fun f (as_str (req ! 1)) (req ! 2) w1)
           | _ # _ \<Rightarrow> (Some TypeAssertion, None, w1)))"

definition RpcG2CPushReq :: "(string \<times> gty) list" where
  "RpcG2CPushReq = [(''Pid'', TBytes), (''Namespace'', TString), (''InnerRpc'', TBytes)]"

definition RpcG2CPush_Process ::
  "msgpack \<Rightarrow> ('h, ('h, 'b) world_scheme) handlers \<Rightarrow> gval list \<Rightarrow> session \<Rightarrow> ('h, 'b) world_scheme \<Rightarrow> ('h, 'b) world_scheme proc" where
  "RpcG2CPush_Process mp hs req session w =
     (let pid = as_bytes (req ! 0); namespace = as_str (req ! 1) in
      case decode_name mp (as_bytes (req ! 2)) of
        (rpcName, rest) \<Rightarrow>
          (case GetRpcHanderGenerator rpcName (rpcMgr w) of
             None \<Rightarrow> (None, None, w)
           | Some h \<Rightarrow>
               (case (case GetReqPtr hs h of None \<Rightarrow> Inr [] | Some fs \<Rightarrow> decode_fields mp fs rest) of
                  Inl _ \<Rightarrow> (None, None, w)
                | Inr args \<Rightarrow>
                    (case Process hs h args session w of
                       (Some e, _, w1) \<Rightarrow> (Some e, None, w1)
                     | (None, _, w1) \<Rightarrow>
                         if length pid \<noteq> 0
                         then no_rsp (rpc_send mp (Some (sconn session)) MSG_C2G_RPC_ROUTE
                                [VStr namespace, VStr ''PushService'', VInt 0, VBool False,
                                 VBytes (RpcEncode mp MSG_PUSH_REPLY [VBytes pid])] w1)
                         else (None, None, w1)))))"

text \<open>
  The handlers of a client whose own handlers are \<open>us\<close>. A push runs a registered handler, which may again be the
  push handler; \<open>n\<close> bounds that nesting, as in \<open>process_handlers\<close>.
\<close>

definition sdk_user ::
  "msgpack \<Rightarrow> ('u, ('u sdk_h handler, 'b) sdk_world_scheme) handlers \<Rightarrow>
     ('u sdk_h handler, ('u sdk_h handler, 'b) sdk_world_scheme) handlers option \<Rightarrow>
     ('u sdk_h, ('u sdk_h handler, 'b) sdk_world_scheme) handlers" where
  "sdk_user mp us nested =
     \<lparr>GetReqPtr = (\<lambda>h. case h of
          S_G2CRpcRsp \<Rightarrow> Some RpcG2CRpcRspReq | S_G2CPush \<Rightarrow> Some RpcG2CPushReq | S_User u \<Rightarrow> GetReqPtr us u),
      ClientAccess = (\<lambda>h. case h of S_User u \<Rightarrow> ClientAccess us u | _ \<Rightarrow> None),
      Process = (\<lambda>h req session w. case h of
          S_G2CRpcRsp \<Rightarrow> Sdk_G2CRpcRsp_Process req session w
        | S_G2CPush \<Rightarrow> (case nested of None \<Rightarrow> (Some Hang, None, w) | Some hs \<Rightarrow> RpcG2CPush_Process mp hs req session w)
        | S_User u \<Rightarrow> Process us u req session w)\<rparr>"

fun sdk_handlers ::
  "msgpack \<Rightarrow> ('u, ('u sdk_h handler, 'b) sdk_world_scheme) handlers \<Rightarrow> nat \<Rightarrow>
     ('u sdk_h handler, ('u sdk_h handler, 'b) sdk_world_scheme) handlers" where
  "sdk_handlers mp us 0 = process_handlers mp (sdk_user mp us None) 0"
| "sdk_handlers mp us (Suc n) = process_handlers mp (sdk_user mp us (Some (sdk_handlers mp us n))) (Suc n)"

section \<open>Initialisation\<close>

fun regist_force_all :: "('h, 'w) handlers \<Rightarrow> (string \<times> 'h) list \<Rightarrow> 'h SimpleRpcMgr \<Rightarrow> 'h SimpleRpcMgr res" where
  "regist_force_all hs [] r = Inr r"
| "regist_force_all hs ((n, g) # gs) r = res_bind (RegistRpcHandlerForce hs n g r) (regist_force_all hs gs)"

text \<open>The package function \<open>init\<close>: the defaults, then the two handlers that replace or extend them.\<close>

definition sdk_registrations :: "(string \<times> 'u sdk_h handler) list" where
  "sdk_registrations = [(MSG_G2C_RPC_RSP, H_User S_G2CRpcRsp), (MSG_G2C_PUSH, H_User S_G2CPush)]"

definition sdk_init :: "('u sdk_h handler, 'w) handlers \<Rightarrow> 'u sdk_h handler SimpleRpcMgr res" where
  "sdk_init hs = res_bind (CreateSimpleRpcMgr hs) (regist_force_all hs sdk_registrations)"

section \<open>Lemmas\<close>

definition call_timeout_text :: "ServiceProxy \<Rightarrow> string \<Rightarrow> string" where
  "call_timeout_text sp rpcName = ''rpc call '' @ sp_Namespace sp @ '':'' @ sp_ServiceName sp @ '':'' @ rpcName @ '' time out''"

lemma filter_key_single:
  assumes "distinct (map fst xs)" "k \<in> fst ` set xs" "\<And>x. x \<in> set xs \<Longrightarrow> fst x = k \<Longrightarrow> x = y"
  shows "filter (\<lambda>x. fst x = k) xs = [y]"
  using assms
proof (induction xs)
  case (Cons x xs)
  show ?case
  proof (cases "fst x = k")
    case True
    then have "filter (\<lambda>x. fst x = k) xs = []" using Cons.prems(1) by (auto simp: filter_empty_conv image_iff)
    with True Cons.prems(3) [of x] show ?thesis by simp
  next
    case False
    then show ?thesis using Cons by auto
  qed
qed simp

text \<open>A call with a callback: one message under a new identifier, and the callback registered for it.\<close>

lemma rpcCall_registers:
  assumes "cb_wf (cbMgr w)" "netWrite w = good_net"
    "MessageEncode (RpcEncode mp MSG_C2G_RPC_ROUTE [VStr (sp_Namespace sp), VStr (sp_ServiceName sp), vu32 (globalGID w + 1),
       VBool ordered, VBytes (RpcEncode mp rpcName args)]) = Inr msg" "msg \<noteq> []"
  shows "\<exists>m. rpcCall mp sp ordered rpcName args (Some (Some f)) w =
      (Inr (), w\<lparr>globalGID := globalGID w + 1, cbMgr := m, out := out w @ [(gp_conn (Gp sp), msg)]\<rparr>)
    \<and> cb_wf m \<and> cb_lookup m = (cb_lookup (cbMgr w))(globalGID w + 1 \<mapsto> [AFunc f])
    \<and> cb_timeouts m \<subseteq> insert (globalGID w + 1, Some (RunTimeout f (call_timeout_text sp rpcName))) (cb_timeouts (cbMgr w))"
proof -
  let ?rid = "globalGID w + 1" and ?to = "Some (RunTimeout f (call_timeout_text sp rpcName))"
  obtain m where m: "AddCallBack ?rid [AFunc f] 100 ?to (now w div 1000) (cbMgr w) = Some m" "cb_wf m"
    "cb_lookup m = (cb_lookup (cbMgr w))(?rid \<mapsto> [AFunc f])"
    using cb.add_law [OF assms(1), of ?rid "[AFunc f]" 100 ?to "now w div 1000"] by blast
  have "rpcCall mp sp ordered rpcName args (Some (Some f)) w =
      (Inr (), w\<lparr>globalGID := ?rid, cbMgr := m, out := out w @ [(gp_conn (Gp sp), msg)]\<rparr>)"
    using m(1) assms(2-4)
    by (simp add: rpcCall_def NewGid_def add_callback_def call_timeout_text_def GateProxy_RpcCall_def rpc_send_def
        MessageSend_def good_net_def)
  with m(2,3) cbt.add_timeouts [OF assms(1) m(1)] show ?thesis by blast
qed

lemma sdk_rsp_known:
  assumes "cb_wf (cbMgr w)" "cb_lookup (cbMgr w) rid = Some [AFunc f]"
  shows "\<exists>m. Sdk_G2CRpcRsp_Process [vu32 rid, VStr err, reply] session w = (None, None, call_fun f err reply (w\<lparr>cbMgr := m\<rparr>))
    \<and> m = snd (GetCallBack rid (cbMgr w)) \<and> cb_wf m \<and> cb_lookup m rid = None"
proof -
  have "get_callback rid w = (Some [AFunc f], w\<lparr>cbMgr := snd (GetCallBack rid (cbMgr w))\<rparr>)"
    using cb.get_law [OF assms(1), of rid] assms(2) by (simp add: get_callback_def split_beta)
  with cb.get_law [OF assms(1), of rid] show ?thesis by (simp add: Sdk_G2CRpcRsp_Process_def)
qed

lemma sdk_rsp_unknown:
  assumes "cb_wf (cbMgr w)" "cb_lookup (cbMgr w) rid = None"
  shows "\<exists>m. Sdk_G2CRpcRsp_Process [vu32 rid, VStr err, reply] session w = (None, None, w\<lparr>cbMgr := m\<rparr>)"
  using get_callback_law [OF assms(1), of rid] assms(2) by (auto simp: Sdk_G2CRpcRsp_Process_def)

section \<open>Properties\<close>


definition demo_proxy :: ServiceProxy where
  "demo_proxy = CreateServiceProxy \<lparr>gp_ip = ''1.1.1.1'', gp_port = 8886, gp_conn = ''1.1.1.1:8886'', gp_recv = new_recv\<rparr> ''ns'' ''ServiceA''"

definition demo_sdk :: "unit sdk_h handler sdk_world" where
  "demo_sdk = world.extend (Init demo_cfg SERVER_IDENTITY_SERVICE [] empty_rpcMgr 0 good_net) \<lparr>cbCalls = []\<rparr>"

lemma demo_sdk_simps:
  "cbMgr demo_sdk = new_cbmgr" "netWrite demo_sdk = good_net" "globalGID demo_sdk = 0" "out demo_sdk = []" "cbCalls demo_sdk = []"
  "rpcMgr demo_sdk = empty_rpcMgr"
  by (simp_all add: demo_sdk_def world.defs Init_def)


text \<open>A push is acknowledged exactly when it was processed: when the pushed rpc is registered, its arguments have the types of
  the request struct and the handler returns, the handler runs once on exactly these arguments and, when the push has an
  identifier, one \<open>MSG_C2G_RPC_ROUTE\<close> goes back on the same connection that asks the push service of the pushing
  namespace for \<open>MSG_PUSH_REPLY\<close> with the same identifier. An unknown rpc is neither run nor acknowledged.\<close>

theorem push_acknowledged:
  assumes "codec_ok mp" "length name < 2 ^ 32" "netWrite w1 = good_net"
    "MessageEncode (RpcEncode mp MSG_C2G_RPC_ROUTE [VStr ns, VStr ''PushService'', VInt 0, VBool False,
       VBytes (RpcEncode mp MSG_PUSH_REPLY [VBytes pid])]) = Inr m" "m \<noteq> []"
  shows "(rpcs (rpcMgr w) name = None \<longrightarrow>
      RpcG2CPush_Process mp hs [VBytes pid, VStr ns, VBytes (RpcEncode mp name args)] session w = (None, None, w))
    \<and> (\<forall>h fs rsp. rpcs (rpcMgr w) name = Some h \<longrightarrow> GetReqPtr hs h = Some fs \<longrightarrow> list_all2 has_type args (map snd fs) \<longrightarrow>
        Process hs h args session w = (None, rsp, w1) \<longrightarrow>
        RpcG2CPush_Process mp hs [VBytes pid, VStr ns, VBytes (RpcEncode mp name args)] session w =
          (None, None, if pid = [] then w1 else w1\<lparr>out := out w1 @ [(sconn session, m)]\<rparr>))"
proof -
  let ?bs = "concat (map (\<lambda>arg. fst (enc mp arg)) args)"
  have n: "decode_name mp (RpcEncode mp name args) = (name, ?bs)" by (rule decode_name_RpcEncode [OF assms(1,2)])
  have f: "decode_fields mp fs ?bs = Inr args" if "list_all2 has_type args (map snd fs)" for fs
    using decode_fields_args [OF assms(1) that, of "[]"] by simp
  have "rpc_send mp (Some (sconn session)) MSG_C2G_RPC_ROUTE [VStr ns, VStr ''PushService'', VInt 0, VBool False,
       VBytes (RpcEncode mp MSG_PUSH_REPLY [VBytes pid])] w1 = (Inr True, w1\<lparr>out := out w1 @ [(sconn session, m)]\<rparr>)"
    using assms(3-5) by (simp add: rpc_send_def MessageSend_def good_net_def)
  then show ?thesis
    by (auto simp: RpcG2CPush_Process_def n f GetRpcHanderGenerator_def no_rsp_def)
qed

definition demo_sdk_hs :: "(unit sdk_h handler, unit sdk_h handler sdk_world) handlers" where
  "demo_sdk_hs = \<lparr>GetReqPtr = (\<lambda>_. Some [(''Arg1'', TUint32)]), ClientAccess = (\<lambda>_. None),
     Process = (\<lambda>_ req _ w. (None, None, call_fun 9 [] (req ! 0) w))\<rparr>"

theorem push_acknowledged_witness:
  "\<exists>m. RpcG2CPush_Process mp_codec demo_sdk_hs [VBytes [1], VStr ''ns'', VBytes (RpcEncode mp_codec ''push_test'' [vu32 10])]
       \<lparr>styp = SessionRemote, sconn = ''1.1.1.1:8886'', sid = 0\<rparr>
       (demo_sdk\<lparr>rpcMgr := empty_rpcMgr\<lparr>rpcs := [''push_test'' \<mapsto> H_User (S_User ())]\<rparr>\<rparr>) =
     (None, None, demo_sdk\<lparr>rpcMgr := empty_rpcMgr\<lparr>rpcs := [''push_test'' \<mapsto> H_User (S_User ())]\<rparr>,
        cbCalls := [(9, [], vu32 10)], out := [(''1.1.1.1:8886'', m)]\<rparr>)"
proof -
  let ?w = "demo_sdk\<lparr>rpcMgr := empty_rpcMgr\<lparr>rpcs := [''push_test'' \<mapsto> H_User (S_User ())]\<rparr>\<rparr>"
  let ?w1 = "call_fun 9 [] (vu32 10) ?w"
  obtain m where m: "MessageEncode (RpcEncode mp_codec MSG_C2G_RPC_ROUTE [VStr ''ns'', VStr ''PushService'', VInt 0, VBool False,
       VBytes (RpcEncode mp_codec MSG_PUSH_REPLY [VBytes [1]])]) = Inr m" "m \<noteq> []"
    by (simp add: MessageEncode_ok RpcEncode_def mp_codec_def put_str_def msg_names be32_def)
  have nw: "netWrite ?w1 = good_net" by (simp add: call_fun_def demo_sdk_simps)
  have "RpcG2CPush_Process mp_codec demo_sdk_hs [VBytes [1], VStr ''ns'', VBytes (RpcEncode mp_codec ''push_test'' [vu32 10])]
       \<lparr>styp = SessionRemote, sconn = ''1.1.1.1:8886'', sid = 0\<rparr> ?w =
     (None, None, if [1 :: byte] = [] then ?w1 else ?w1\<lparr>out := out ?w1 @ [(sconn \<lparr>styp = SessionRemote, sconn = ''1.1.1.1:8886'', sid = 0\<rparr>, m)]\<rparr>)"
    by (rule push_acknowledged [THEN conjunct2, rule_format, OF codec_ok_mp _ nw m, where h = "H_User (S_User ())" and fs = "[(''Arg1'', TUint32)]"])
      (simp_all add: demo_sdk_hs_def)
  then show ?thesis by (intro exI [of _ m]) (simp add: call_fun_def demo_sdk_simps)
qed

end
