(* ===== verification/Client_Program.thy ===== *)
theory Client_Program
  imports Client_Sdk
begin

text \<open>
  The test client (\<open>client/client.go\<close>, \<open>client/rpc_handler.go\<close>): its command line, the rpc calls of its test modes and its
  handler of the pushed rpc \<open>push_test\<close>. Random numbers are arguments. The counter \<open>push_fvc\<close> is the number of its
  counts; the replies of the calls are counted by the callback, whose calls are in \<open>cbCalls\<close>.
\<close>

section \<open>The push handler\<close>

datatype client_h = C_PushTest

record client_world = "client_h sdk_h handler sdk_world" +
  push_fvc :: nat

definition RpcPushTest :: "(string \<times> gty) list" where
  "RpcPushTest = [(''Arg1'', TUint32), (''Arg2'', TString)]"

definition client_user :: "(client_h, client_world) handlers" where
  "client_user =
     \<lparr>GetReqPtr = (\<lambda>_. Some RpcPushTest), ClientAccess = (\<lambda>_. None),
      Process = (\<lambda>_ req session w. (None, None, w\<lparr>push_fvc := push_fvc w + 1\<rparr>))\<rparr>"

text \<open>The registry after the package initialisations of \<open>clientsdk\<close> and of the program.\<close>

definition client_registry :: "msgpack \<Rightarrow> nat \<Rightarrow> client_h sdk_h handler SimpleRpcMgr res" where
  "client_registry mp n =
     (let hs = sdk_handlers mp client_user n in
      res_bind (sdk_init hs) (regist_force_all hs [(''push_test'', H_User (S_User C_PushTest))]))"

section \<open>The test calls\<close>

definition client_namespace :: string where "client_namespace = ''YJ''"

text \<open>\<open>i\<close>, \<open>l1\<close>, \<open>l2\<close> are results of \<open>rand.Int31\<close>, \<open>f\<close> of \<open>rand.Float32\<close>, \<open>k\<close> of \<open>rand.Int63\<close>.\<close>

definition test_a_args :: "nat \<Rightarrow> u32 \<Rightarrow> nat \<Rightarrow> nat \<Rightarrow> nat \<Rightarrow> gval list" where
  "test_a_args i f k l1 l2 =
     [VInt (int i), VFloat f, VStr ''abc'', VMap [(''key1'', VInt (int k)), (''key2'', VStr ''def'')],
      VList [VInt (int l1), VInt (int l2)]]"

definition test_b_args :: "nat \<Rightarrow> gval list" where
  "test_b_args i = [VInt (int i)]"

definition RpcCallTestA ::
  "msgpack \<Rightarrow> GateProxy \<Rightarrow> bool \<Rightarrow> gval list \<Rightarrow> nat option \<Rightarrow> ('h, 'b) world_scheme \<Rightarrow> unit res \<times> ('h, 'b) world_scheme" where
  "RpcCallTestA mp gate ordered args cb w =
     (let TestService = CreateServiceProxy gate client_namespace ''ServiceA'' in
      if ordered then ServiceProxy_RpcCallOrdered mp TestService ''rpc_a'' args (Some cb) w
      else ServiceProxy_RpcCall mp TestService ''rpc_a'' args (Some cb) w)"

definition RpcCallTestB ::
  "msgpack \<Rightarrow> GateProxy \<Rightarrow> bool \<Rightarrow> gval list \<Rightarrow> nat option \<Rightarrow> ('h, 'b) world_scheme \<Rightarrow> unit res \<times> ('h, 'b) world_scheme" where
  "RpcCallTestB mp gate ordered args cb w =
     (let TestService = CreateServiceProxy gate client_namespace ''ServiceA'' in
      if ordered then ServiceProxy_RpcCallOrdered mp TestService ''rpc_b'' args (Some cb) w
      else ServiceProxy_RpcCall mp TestService ''rpc_b'' args (Some cb) w)"

definition RpcCallDBTest ::
  "msgpack \<Rightarrow> GateProxy \<Rightarrow> nat option \<Rightarrow> ('h, 'b) world_scheme \<Rightarrow> unit res \<times> ('h, 'b) world_scheme" where
  "RpcCallDBTest mp gate cb w =
     ServiceProxy_RpcCall mp (CreateServiceProxy gate client_namespace ''ServiceA'') ''rpc_db_test'' [] (Some cb) w"

definition RpcCallPushTest ::
  "msgpack \<Rightarrow> GateProxy \<Rightarrow> nat option \<Rightarrow> ('h, 'b) world_scheme \<Rightarrow> unit res \<times> ('h, 'b) world_scheme" where
  "RpcCallPushTest mp gate cb w =
     ServiceProxy_RpcCall mp (CreateServiceProxy gate client_namespace ''ServiceA'') ''rpc_push_test'' [] (Some cb) w"

text \<open>The loop of \<open>StartTest\<close>; \<open>rnd\<close> gives the arguments of the \<open>n\<close>-th call from the end.\<close>

fun test_calls ::
  "msgpack \<Rightarrow> (nat \<Rightarrow> gval list) \<Rightarrow> GateProxy \<Rightarrow> string \<Rightarrow> bool \<Rightarrow> nat option \<Rightarrow> nat \<Rightarrow> ('h, 'b) world_scheme \<Rightarrow>
     unit res \<times> ('h, 'b) world_scheme" where
  "test_calls mp rnd gate mode ordered cb 0 w = (Inr (), w)"
| "test_calls mp rnd gate mode ordered cb (Suc n) w =
     (case (if ''testa'' = mode then RpcCallTestA mp gate ordered (rnd n) cb w
            else if ''testb'' = mode then RpcCallTestB mp gate ordered (rnd n) cb w
            else if ''dbtest'' = mode then RpcCallDBTest mp gate cb w
            else (Inr (), w)) of
        (Inl e, w1) \<Rightarrow> (Inl e, w1)
      | (Inr _, w1) \<Rightarrow> test_calls mp rnd gate mode ordered cb n w1)"

fun push_calls ::
  "msgpack \<Rightarrow> GateProxy \<Rightarrow> nat \<Rightarrow> ('h, 'b) world_scheme \<Rightarrow> unit res \<times> ('h, 'b) world_scheme" where
  "push_calls mp gate 0 w = (Inr (), w)"
| "push_calls mp gate (Suc n) w =
     (case RpcCallPushTest mp gate None w of (Inl e, w1) \<Rightarrow> (Inl e, w1) | (Inr _, w1) \<Rightarrow> push_calls mp gate n w1)"

text \<open>Connecting and logging in, the common head of \<open>StartTest\<close> and \<open>StartPushTest\<close>.\<close>

definition client_login ::
  "msgpack \<Rightarrow> bool \<Rightarrow> string \<Rightarrow> int \<Rightarrow> nat \<Rightarrow> ('h, 'b) world_scheme \<Rightarrow> GateProxy res \<times> ('h, 'b) world_scheme" where
  "client_login mp dial i p idx w =
     (case CreateGateProxy mp dial i p w of
        (Inl e, w1) \<Rightarrow> (Inl e, w1)
      | (Inr None, w1) \<Rightarrow> (Inl (ExplicitPanic ''gate is nil~~~''), w1)
      | (Inr (Some g), w1) \<Rightarrow>
          (case Login mp g (''client'' @ show_nat idx) client_namespace w1 of
             (Inl e, w2) \<Rightarrow> (Inl e, w2)
           | (Inr _, w2) \<Rightarrow> (Inr g, w2)))"

text \<open>\<open>StartTest\<close> up to its wait for the replies, the exit test of that wait, and the rest.\<close>

definition StartTest_send ::
  "msgpack \<Rightarrow> (nat \<Rightarrow> gval list) \<Rightarrow> bool \<Rightarrow> string \<Rightarrow> int \<Rightarrow> string \<Rightarrow> nat \<Rightarrow> bool \<Rightarrow> nat \<Rightarrow> nat \<Rightarrow> ('h, 'b) world_scheme \<Rightarrow>
     GateProxy res \<times> ('h, 'b) world_scheme" where
  "StartTest_send mp rnd dial i p mode testCnt ordered cb idx w =
     (case client_login mp dial i p idx w of
        (Inl e, w1) \<Rightarrow> (Inl e, w1)
      | (Inr g, w1) \<Rightarrow>
          (case test_calls mp rnd g mode ordered (Some cb) testCnt w1 of
             (Inl e, w2) \<Rightarrow> (Inl e, w2)
           | (Inr _, w2) \<Rightarrow> (Inr g, w2)))"

definition StartTest_waits_for :: "nat \<Rightarrow> nat \<Rightarrow> ('h, 'b) sdk_world_scheme \<Rightarrow> bool" where
  "StartTest_waits_for cb testCnt w \<longleftrightarrow> length (filter (\<lambda>c. fst c = cb) (cbCalls w)) \<noteq> testCnt"

text \<open>The rest divides by the milliseconds since \<open>startTs\<close>.\<close>

definition StartTest_finish ::
  "msgpack \<Rightarrow> GateProxy \<Rightarrow> int \<Rightarrow> nat \<Rightarrow> ('h, 'b) world_scheme \<Rightarrow> unit res \<times> ('h, 'b) world_scheme" where
  "StartTest_finish mp g startTs idx w =
     (if now w - startTs = 0 then (Inl DivideByZero, w) else Logoff mp g (''client'' @ show_nat idx) w)"

definition StartPushTest ::
  "msgpack \<Rightarrow> bool \<Rightarrow> string \<Rightarrow> int \<Rightarrow> nat \<Rightarrow> nat \<Rightarrow> ('h, 'b) world_scheme \<Rightarrow> unit res \<times> ('h, 'b) world_scheme" where
  "StartPushTest mp dial i p testCnt idx w =
     (case client_login mp dial i p idx w of
        (Inl e, w1) \<Rightarrow> (Inl e, w1)
      | (Inr g, w1) \<Rightarrow>
          (case push_calls mp g testCnt w1 of
             (Inl e, w2) \<Rightarrow> (Inl e, w2)
           | (Inr _, w2) \<Rightarrow> Logoff mp g (''client'' @ show_nat idx) w2))"

section \<open>The command line\<close>

record client_args =
  a_IP :: string
  a_Port :: int
  a_mode :: string
  a_clientCnt :: int
  a_testCnt :: int
  a_interval :: int
  a_ordered :: bool
  a_logLevel :: string

definition default_args :: client_args where
  "default_args = \<lparr>a_IP = ''127.0.0.1'', a_Port = 8886, a_mode = [], a_clientCnt = 0, a_testCnt = 0, a_interval = 0,
     a_ordered = False, a_logLevel = ''DEBUG''\<rparr>"

definition number_arg :: "string \<Rightarrow> string \<Rightarrow> (int \<Rightarrow> client_args) \<Rightarrow> client_args res" where
  "number_arg opt v upd =
     (case Atoi v of (n, ok) \<Rightarrow> if ok then Inr (upd n) else Inl (ExplicitPanic (opt @ '' '' @ v @ '' error, must be number'')))"

definition set_option :: "string \<Rightarrow> string \<Rightarrow> client_args \<Rightarrow> client_args res" where
  "set_option opt v a =
     (if opt = ''-h'' then Inr (a\<lparr>a_IP := v\<rparr>)
      else if opt = ''-p'' then number_arg opt v (\<lambda>n. a\<lparr>a_Port := n\<rparr>)
      else if opt = ''-m''
      then (if v = ''testa'' \<or> v = ''testb'' \<or> v = ''dbtest'' \<or> v = ''pushtest'' then Inr (a\<lparr>a_mode := v\<rparr>)
            else Inl (ExplicitPanic (''-m '' @ v @ '' error must in [testa, testb, dbtest, pushtest]'')))
      else if opt = ''-n'' then number_arg opt v (\<lambda>n. a\<lparr>a_clientCnt := n\<rparr>)
      else if opt = ''-t'' then number_arg opt v (\<lambda>n. a\<lparr>a_testCnt := n\<rparr>)
      else if opt = ''-i'' then number_arg opt v (\<lambda>n. a\<lparr>a_interval := n\<rparr>)
      else if opt = ''-o''
      then (if v = ''true'' then Inr (a\<lparr>a_ordered := True\<rparr>)
            else if v = ''false'' then Inr (a\<lparr>a_ordered := False\<rparr>)
            else Inl (ExplicitPanic (''-o '' @ v @ '' error, must be true/false'')))
      else Inr (a\<lparr>a_logLevel := v\<rparr>))"

definition client_options :: "string list" where
  "client_options = [''-h'', ''-p'', ''-m'', ''-n'', ''-t'', ''-i'', ''-o'', ''-l'']"

text \<open>The loop over the arguments: \<open>None\<close> when \<open>Usage\<close> ends the program.\<close>

fun parse_args :: "string list \<Rightarrow> client_args \<Rightarrow> client_args option res" where
  "parse_args [] a = Inr (Some a)"
| "parse_args (x # xs) a =
     (if x = ''--help'' then Inr None
      else if x \<in> set client_options
      then (case xs of
              [] \<Rightarrow> Inl IndexOutOfRange
            | v # rest \<Rightarrow> res_bind (set_option x v a) (parse_args rest))
      else parse_args xs a)"

definition client_main_args :: "string list \<Rightarrow> client_args option res" where
  "client_main_args args = (if args = [] then Inr None else parse_args args default_args)"

text \<open>The clients the main function starts, by their index: the push test, or the test of the mode.\<close>

definition client_starts :: "client_args \<Rightarrow> (nat \<times> bool) list" where
  "client_starts a = map (\<lambda>i. (i, a_mode a = ''pushtest'')) [0 ..< nat (a_clientCnt a)]"

section \<open>Lemmas\<close>

text \<open>An argument list printed from a configuration, in the order of the usage text.\<close>

definition print_args :: "client_args \<Rightarrow> string list" where
  "print_args a =
     [''-h'', a_IP a, ''-p'', show_int (a_Port a), ''-m'', a_mode a, ''-n'', show_int (a_clientCnt a), ''-t'', show_int (a_testCnt a),
      ''-i'', show_int (a_interval a), ''-o'', if a_ordered a then ''true'' else ''false'', ''-l'', a_logLevel a]"

lemma number_arg_show:
  "int64_min \<le> n \<Longrightarrow> n \<le> int64_max \<Longrightarrow> number_arg opt (show_int n) upd = Inr (upd n)"
  by (simp add: number_arg_def Atoi_show_int)

section \<open>Properties\<close>

text \<open>The command line round trip: every configuration whose mode is one of the four and whose numbers are 64-bit integers is
  read back from the arguments that spell it, whatever the defaults are; an option without its value
  panics, and an unknown argument is skipped.\<close>

theorem client_args_roundtrip:
  assumes "a_mode a \<in> {''testa'', ''testb'', ''dbtest'', ''pushtest''}"
    "\<forall>n\<in>{a_Port a, a_clientCnt a, a_testCnt a, a_interval a}. int64_min \<le> n \<and> n \<le> int64_max"
  shows "parse_args (print_args a) b = Inr (Some a)
    \<and> (x \<in> set client_options \<longrightarrow> parse_args [x] b = Inl IndexOutOfRange)
    \<and> (y \<notin> set client_options \<longrightarrow> y \<noteq> ''--help'' \<longrightarrow> parse_args (y # print_args a) b = Inr (Some a))"
proof -
  have p: "parse_args (print_args a) b = Inr (Some a)" for b
    using assms
    by (cases a, cases b)
      (auto simp: print_args_def client_options_def set_option_def number_arg_show)
  moreover have "\<not> (x \<in> set client_options \<and> x = ''--help'')" by (auto simp: client_options_def)
  ultimately show ?thesis by auto
qed

theorem client_args_roundtrip_witness:
  "parse_args (print_args \<lparr>a_IP = ''10.246.13.142'', a_Port = 8886, a_mode = ''pushtest'', a_clientCnt = 1, a_testCnt = 10, a_interval = 1000,
     a_ordered = False, a_logLevel = ''INFO''\<rparr>) default_args =
   Inr (Some \<lparr>a_IP = ''10.246.13.142'', a_Port = 8886, a_mode = ''pushtest'', a_clientCnt = 1, a_testCnt = 10, a_interval = 1000,
     a_ordered = False, a_logLevel = ''INFO''\<rparr>) \<and> parse_args [''-p''] default_args = Inl IndexOutOfRange"
  using client_args_roundtrip [of "\<lparr>a_IP = ''10.246.13.142'', a_Port = 8886, a_mode = ''pushtest'', a_clientCnt = 1, a_testCnt = 10,
      a_interval = 1000, a_ordered = False, a_logLevel = ''INFO''\<rparr>" default_args "''-p''" "''-h''"]
  by (simp add: int64_min_def int64_max_def client_options_def)

end
