(* ===== verification/Life_Cycle.thy ===== *)
theory Life_Cycle
  imports Etcd_Driver Db_Driver Tcp_Server
begin

text \<open>
  The life of a process: the command line and configuration (\<open>msf_config.go\<close>), the log filter (\<open>msf_log.go\<close>), the flow
  velocity counter (\<open>msf_flow_velocity_counter.go\<close>) and the start and stop sequences of \<open>msf_main.go\<close> over the
  components of the other theories. Reading a file, json and the rate computed in floating point are arguments.
\<close>

section \<open>Logging\<close>

definition LOG_LEVEL_DICT :: "string \<rightharpoonup> int" where
  "LOG_LEVEL_DICT = [''DEBUG'' \<mapsto> 1, ''INFO'' \<mapsto> 2, ''WARN'' \<mapsto> 3, ''ERROR'' \<mapsto> 4]"

definition SetLogLevel :: "string \<Rightarrow> int" where
  "SetLogLevel level = (case LOG_LEVEL_DICT level of None \<Rightarrow> 1 | Some l \<Rightarrow> l)"

text \<open>What \<open>LOG\<close> hands to the printing goroutine: \<open>body\<close> is the formatted message and \<open>ts\<close> the time stamp.\<close>

definition LOG :: "int \<Rightarrow> GlobalConfig \<Rightarrow> string \<Rightarrow> string \<Rightarrow> string \<Rightarrow> string option" where
  "LOG gLogLevel c ts level body =
     (let ll = (case LOG_LEVEL_DICT level of None \<Rightarrow> 0 | Some l \<Rightarrow> l) in
      if ll < gLogLevel then None
      else Some (ts @ '' - ['' @ level @ ''] '' @ (if ll = 1 \<or> ll = 4 then [] else '' '') @ ''- ['' @
             Namespace c @ '':'' @ Service c @ ''] - '' @ body @ [CHR 0x0A]))"

definition DEBUG_LOG :: "int \<Rightarrow> GlobalConfig \<Rightarrow> string \<Rightarrow> string \<Rightarrow> string option" where
  "DEBUG_LOG lv c ts body = LOG lv c ts ''DEBUG'' body"

definition INFO_LOG :: "int \<Rightarrow> GlobalConfig \<Rightarrow> string \<Rightarrow> string \<Rightarrow> string option" where
  "INFO_LOG lv c ts body = LOG lv c ts ''INFO'' body"

definition WARN_LOG :: "int \<Rightarrow> GlobalConfig \<Rightarrow> string \<Rightarrow> string \<Rightarrow> string option" where
  "WARN_LOG lv c ts body = LOG lv c ts ''WARN'' body"

definition ERROR_LOG :: "int \<Rightarrow> GlobalConfig \<Rightarrow> string \<Rightarrow> string \<Rightarrow> string option" where
  "ERROR_LOG lv c ts body = LOG lv c ts ''ERROR'' body"

section \<open>Configuration\<close>

record config_state =
  GlobalCfg :: GlobalConfig
  gLogLevel :: int

definition LoadConfig ::
  "(string \<Rightarrow> string + string) \<Rightarrow> (string \<Rightarrow> GlobalConfig \<Rightarrow> string + GlobalConfig) \<Rightarrow> string \<Rightarrow> GlobalConfig \<Rightarrow> GlobalConfig res" where
  "LoadConfig readFile unmarshal filename c =
     (case readFile filename of
        Inl err \<Rightarrow> Inl (ExplicitPanic (''LoadConfig ReadFile error '' @ filename @ '' '' @ err))
      | Inr bytes_read \<Rightarrow>
          (case unmarshal bytes_read c of
             Inl err \<Rightarrow> Inl (ExplicitPanic (''LoadConfig json.Unmarshal error '' @ err))
           | Inr c' \<Rightarrow> Inr c'))"

fun ParseArgs ::
  "(string \<Rightarrow> string + string) \<Rightarrow> (string \<Rightarrow> GlobalConfig \<Rightarrow> string + GlobalConfig) \<Rightarrow> string list \<Rightarrow> config_state \<Rightarrow> config_state res" where
  "ParseArgs readFile unmarshal [] s = Inr s"
| "ParseArgs readFile unmarshal (x # xs) s =
     (if x = ''-c''
      then (case xs of
              [] \<Rightarrow> Inl (ExplicitPanic ''args parse error -c need follow config filename'')
            | file # rest \<Rightarrow>
                res_bind (LoadConfig readFile unmarshal file (GlobalCfg s)) (\<lambda>c.
                  ParseArgs readFile unmarshal rest (s\<lparr>GlobalCfg := c, gLogLevel := SetLogLevel (LogLevel c)\<rparr>)))
      else ParseArgs readFile unmarshal xs s)"

section \<open>The flow velocity counter\<close>

record FlowVelocityCounter =
  Counter :: string
  lastTime :: int
  cnt :: "32 word"
  totalCnt :: "64 word"
  velocity :: "32 word"
  frequency :: int
  fvc_stopped :: bool

definition fvc_Start :: "int \<Rightarrow> FlowVelocityCounter \<Rightarrow> FlowVelocityCounter" where
  "fvc_Start t f = f\<lparr>frequency := (if frequency f = 0 then 2000 else frequency f), lastTime := t, fvc_stopped := False\<rparr>"

text \<open>What the goroutine receives: a count, a stop, or its timer at time \<open>now\<close>.\<close>

datatype fvc_event = FvcCount | FvcStop | FvcTimer int

text \<open>\<open>rate c d\<close> is \<open>int32(float64(c)/float64(d)*1000)\<close>.\<close>

definition fvc_step :: "(32 word \<Rightarrow> int \<Rightarrow> 32 word) \<Rightarrow> fvc_event \<Rightarrow> FlowVelocityCounter \<Rightarrow> FlowVelocityCounter" where
  "fvc_step rate ev f =
     (if fvc_stopped f then f
      else case ev of
          FvcCount \<Rightarrow> f\<lparr>cnt := cnt f + 1, totalCnt := totalCnt f + 1\<rparr>
        | FvcStop \<Rightarrow> f\<lparr>fvc_stopped := True\<rparr>
        | FvcTimer nowMs \<Rightarrow>
            if nowMs > lastTime f then f\<lparr>velocity := rate (cnt f) (nowMs - lastTime f), lastTime := nowMs, cnt := 0\<rparr> else f)"

definition fvc_GetTotalCount :: "FlowVelocityCounter \<Rightarrow> 64 word" where
  "fvc_GetTotalCount f = totalCnt f"

definition StartRpcFvc :: "int \<Rightarrow> FlowVelocityCounter" where
  "StartRpcFvc t = fvc_Start t \<lparr>Counter = ''rpc ops'', lastTime = 0, cnt = 0, totalCnt = 0, velocity = 0, frequency = 0, fvc_stopped = False\<rparr>"

section \<open>Start and stop\<close>

record 'h process =
  pworld :: "'h world"
  petcd :: etcd_state
  presources :: "string \<rightharpoonup> db_client"
  pfvc :: FlowVelocityCounter
  closedDbs :: "db_client list"

text \<open>\<open>Start\<close> up to its wait for a signal. \<open>listen\<close> is the error of \<open>net.Listen\<close>; \<open>busi\<close> is \<open>StartBusi\<close>.\<close>

definition TcpServer_Start :: "string option \<Rightarrow> TcpServer \<Rightarrow> TcpServer res" where
  "TcpServer_Start listen s =
     (case listen of
        Some err \<Rightarrow> Inl (ExplicitPanic (''CreateTcpServer error '' @ ip s @ '':'' @ show_int (port s) @ '' - '' @ err))
      | None \<Rightarrow> Inr (s\<lparr>listening := True\<rparr>))"

definition Start ::
  "(db_client \<Rightarrow> string option) \<Rightarrow> (string \<Rightarrow> dial_result) \<Rightarrow> etcd_env \<Rightarrow> string option \<Rightarrow> ('h process \<Rightarrow> 'h process) \<Rightarrow> 'h process \<Rightarrow>
     'h process res" where
  "Start connect dial env listen busi p =
     (let w = pworld p; c = cfg w;
          p1 = p\<lparr>pworld := w\<lparr>rpcMgr := StopRcpHandlerRegist (rpcMgr w), gTaskPool := new_TaskPool\<rparr>, pfvc := StartRpcFvc (now w)\<rparr>
      in res_bind (CreateDBResource connect (DbCfg c) (presources p1)) (\<lambda>g.
           case EtcdDriver_Start dial env (petcd p1) of
             (Inl e, _) \<Rightarrow> Inl e
           | (Inr _, es) \<Rightarrow>
               res_bind (TcpServer_Start listen (tcpServer (pworld p1))) (\<lambda>s.
                 Inr (busi (p1\<lparr>pworld := (pworld p1)\<lparr>tcpServer := s\<rparr>, petcd := es, presources := g\<rparr>)))))"

text \<open>
  The steps of \<open>Stop\<close>, in order. Two of them wait, the second part of \<open>StopTcpServer\<close> until no client is left and
  \<open>StopTaskPool\<close> until no task is left; the other goroutines run on meanwhile. \<open>StopTcpServer\<close> returns at once when the
  server was stopped before.
\<close>

datatype stop_step = SS_StopBusi | SS_StopTcpServer | SS_WaitClients | SS_StopEtcdDriver | SS_ReleaseDBResource | SS_StopTaskPool
  | SS_StopRpcFvc

definition Stop_steps :: "stop_step list" where
  "Stop_steps = [SS_StopBusi, SS_StopTcpServer, SS_StopEtcdDriver, SS_ReleaseDBResource, SS_StopTaskPool, SS_StopRpcFvc]"

text \<open>One step: the steps it inserts before the rest and the new state, \<open>None\<close> while it waits.\<close>

definition stop_do :: "('h process \<Rightarrow> 'h process) \<Rightarrow> stop_step \<Rightarrow> 'h process \<Rightarrow> (stop_step list \<times> 'h process) option res" where
  "stop_do busi st p =
     (let w = pworld p in
      case st of
        SS_StopBusi \<Rightarrow> Inr (Some ([], busi p))
      | SS_StopTcpServer \<Rightarrow>
          if stop (tcpServer w) then Inr (Some ([], p))
          else Inr (Some ([SS_WaitClients], p\<lparr>pworld := w\<lparr>tcpServer := Stop_begin (tcpServer w)\<rparr>\<rparr>))
      | SS_WaitClients \<Rightarrow> if Stop_exits (tcpServer w) then Inr (Some ([], p)) else Inr None
      | SS_StopEtcdDriver \<Rightarrow> Inr (Some ([], p\<lparr>petcd := EtcdDriver_Stop (petcd p)\<rparr>))
      | SS_ReleaseDBResource \<Rightarrow>
          res_bind (ReleaseDBResource (DbCfg (cfg w)) (presources p)) (\<lambda>(closed, g).
            Inr (Some ([], p\<lparr>presources := g, closedDbs := closedDbs p @ closed\<rparr>)))
      | SS_StopTaskPool \<Rightarrow> if StopTaskPool_exits (gTaskPool w) then Inr (Some ([], p)) else Inr None
      | SS_StopRpcFvc \<Rightarrow> Inr (Some ([], p\<lparr>pfvc := fvc_step (\<lambda>_ _. 0) FvcStop (pfvc p)\<rparr>)))"

text \<open>The main goroutine runs until it waits or is done: the steps left and the state. \<open>n\<close> bounds the number of steps, of
  which there are at most seven.\<close>

fun stop_run :: "nat \<Rightarrow> ('h process \<Rightarrow> 'h process) \<Rightarrow> stop_step list \<Rightarrow> 'h process \<Rightarrow> (stop_step list \<times> 'h process) res" where
  "stop_run n busi [] p = Inr ([], p)"
| "stop_run 0 busi sts p = Inr (sts, p)"
| "stop_run (Suc n) busi (st # sts) p =
     res_bind (stop_do busi st p) (\<lambda>r. case r of None \<Rightarrow> Inr (st # sts, p) | Some (new, p1) \<Rightarrow> stop_run n busi (new @ sts) p1)"

section \<open>Lemmas\<close>

text \<open>What each level lets through: an unknown level is \<open>DEBUG\<close>, errors are always printed.\<close>

lemma log_filter:
  "DEBUG_LOG (SetLogLevel level) c ts body = None \<longleftrightarrow> level \<in> {''INFO'', ''WARN'', ''ERROR''}"
  "INFO_LOG (SetLogLevel level) c ts body = None \<longleftrightarrow> level \<in> {''WARN'', ''ERROR''}"
  "WARN_LOG (SetLogLevel level) c ts body = None \<longleftrightarrow> level = ''ERROR''"
  "ERROR_LOG (SetLogLevel level) c ts body \<noteq> None"
  by (auto simp: DEBUG_LOG_def INFO_LOG_def WARN_LOG_def ERROR_LOG_def LOG_def SetLogLevel_def LOG_LEVEL_DICT_def Let_def)

lemma EtcdDriver_Stop_facts:
  "exit (driver (EtcdDriver_Stop s))"
  "lease (driver s) = Some l \<Longrightarrow> EtcdRevoke l \<in> set (reqs (EtcdDriver_Stop s))"
  by (auto simp: EtcdDriver_Stop_def Let_def request_def split: option.splits)

lemma Start_Inr:
  assumes "Start connect dial env listen id p = Inr p1" "presources p = Map.empty"
  shows "CreateDBResource connect (DbCfg (cfg (pworld p))) Map.empty = Inr (presources p1)"
    "cfg (pworld p1) = cfg (pworld p)" "stopRegist (rpcMgr (pworld p1))" "\<not> fvc_stopped (pfvc p1)"
    "stop (tcpServer (pworld p1)) = stop (tcpServer (pworld p))" "clients (tcpServer (pworld p1)) = clients (tcpServer (pworld p))"
    "closedDbs p1 = closedDbs p" "gTaskPool (pworld p1) = new_TaskPool"
proof -
  obtain r es where e: "EtcdDriver_Start dial env (petcd p) = (r, es)" by fastforce
  obtain u where "r = Inr u"
    using assms(1) e by (cases r) (auto simp: Start_def Let_def res_bind_Inr_iff)
  moreover have "listen = None"
    using assms(1) e calculation by (cases listen) (auto simp: Start_def Let_def res_bind_Inr_iff TcpServer_Start_def)
  ultimately obtain g where g: "CreateDBResource connect (DbCfg (cfg (pworld p))) Map.empty = Inr g"
    "p1 = p\<lparr>pworld := (pworld p)\<lparr>rpcMgr := StopRcpHandlerRegist (rpcMgr (pworld p)), gTaskPool := new_TaskPool,
       tcpServer := (tcpServer (pworld p))\<lparr>listening := True\<rparr>\<rparr>, petcd := es, presources := g, pfvc := StartRpcFvc (now (pworld p))\<rparr>"
    using assms e by (auto simp: Start_def Let_def res_bind_Inr_iff TcpServer_Start_def)
  then show "CreateDBResource connect (DbCfg (cfg (pworld p))) Map.empty = Inr (presources p1)"
    "cfg (pworld p1) = cfg (pworld p)" "stopRegist (rpcMgr (pworld p1))" "\<not> fvc_stopped (pfvc p1)"
    "stop (tcpServer (pworld p1)) = stop (tcpServer (pworld p))" "clients (tcpServer (pworld p1)) = clients (tcpServer (pworld p))"
    "closedDbs p1 = closedDbs p" "gTaskPool (pworld p1) = new_TaskPool"
    by (simp_all add: StopRcpHandlerRegist_def StartRpcFvc_def fvc_Start_def)
qed

section \<open>Properties\<close>


definition demo_process :: "unit handler process" where
  "demo_process = \<lparr>pworld = (Init (demo_cfg\<lparr>DbCfg := demo_dbcfg\<rparr>) SERVER_IDENTITY_SERVICE [] empty_rpcMgr 0 good_net),
     petcd = demo_etcd, presources = Map.empty, pfvc = StartRpcFvc 0, closedDbs = []\<rparr>"


end
