(* ===== verification/Profile.thy ===== *)
theory Profile
  imports Prelude
begin

text \<open>
  The profiler (\<open>ms_framework/msf_profile.go\<close>): two signals start and stop a cpu and a memory profile. The state is the
  manager's, the files it has open, and whether the Go runtime is profiling, which is what \<open>pprof.StartCPUProfile\<close> fails on.
  Whether the directory and the files can be had is the environment of a start.
\<close>

section \<open>State and operations\<close>

record ProfileMgr =
  started :: bool
  cpu_prof :: "nat option"
  mem_prof :: "nat option"

record profiler = ProfileMgr +
  openFiles :: "nat set"
  nextFile :: nat
  cpuProfiling :: bool
  heapWritten :: "nat list"

record prof_env =
  getwd_ok :: bool
  create_cpu_ok :: bool
  create_mem_ok :: bool

definition new_profiler :: profiler where
  "new_profiler = \<lparr>started = False, cpu_prof = None, mem_prof = None, openFiles = {}, nextFile = 0, cpuProfiling = False, heapWritten = []\<rparr>"

text \<open>\<open>os.Create\<close>: a new file, or nil on an error. \<open>Close\<close> of nil or of a closed file is only an error value.\<close>

definition os_create :: "bool \<Rightarrow> profiler \<Rightarrow> nat option \<times> profiler" where
  "os_create ok s =
     (if ok then (Some (nextFile s), s\<lparr>openFiles := insert (nextFile s) (openFiles s), nextFile := Suc (nextFile s)\<rparr>) else (None, s))"

definition close_file :: "nat option \<Rightarrow> profiler \<Rightarrow> profiler" where
  "close_file f s = s\<lparr>openFiles := openFiles s - set_option f\<rparr>"

definition ProfileMgr_Start :: "prof_env \<Rightarrow> profiler \<Rightarrow> profiler" where
  "ProfileMgr_Start env s =
     (if started s then s
      else if \<not> getwd_ok env then s
      else case os_create (create_cpu_ok env) s of
          (None, s1) \<Rightarrow> s1\<lparr>cpu_prof := None\<rparr>
        | (Some f, s1) \<Rightarrow>
            let s2 = s1\<lparr>cpu_prof := Some f\<rparr> in
            if cpuProfiling s2 then close_file (mem_prof s2) (close_file (cpu_prof s2) s2)
            else let s3 = s2\<lparr>cpuProfiling := True\<rparr> in
              (case os_create (create_mem_ok env) s3 of
                 (None, s4) \<Rightarrow> close_file (cpu_prof s4) (s4\<lparr>mem_prof := None\<rparr>)
               | (Some g, s4) \<Rightarrow> s4\<lparr>mem_prof := Some g, started := True\<rparr>))"

definition ProfileMgr_Stop :: "profiler \<Rightarrow> profiler" where
  "ProfileMgr_Stop s =
     (if \<not> started s then s
      else let s1 = close_file (cpu_prof s) (s\<lparr>started := False, cpuProfiling := False\<rparr>);
               s2 = s1\<lparr>heapWritten := heapWritten s1 @ (case mem_prof s1 of None \<Rightarrow> [] | Some g \<Rightarrow> [g])\<rparr>
        in close_file (mem_prof s2) s2)"

text \<open>The loop of \<open>Watch\<close>, over the signals in the order they are received.\<close>

datatype prof_signal = SigStart prof_env | SigStop

definition watch_step :: "prof_signal \<Rightarrow> profiler \<Rightarrow> profiler" where
  "watch_step sig s = (case sig of SigStart env \<Rightarrow> ProfileMgr_Start env s | SigStop \<Rightarrow> ProfileMgr_Stop s)"

definition Watch :: "prof_signal list \<Rightarrow> profiler \<Rightarrow> profiler" where
  "Watch sigs s = fold watch_step sigs s"

section \<open>Lemmas\<close>

lemma Watch_simps [simp]: "Watch [] s = s" "Watch (sig # sigs) s = Watch sigs (watch_step sig s)" "Watch (a @ b) s = Watch b (Watch a s)"
  by (simp_all add: Watch_def)

fun mem_ok :: "prof_signal \<Rightarrow> bool" where
  "mem_ok (SigStart env) = create_mem_ok env"
| "mem_ok SigStop = True"

text \<open>While the memory file can be created, the manager knows whether the runtime is profiling, and has exactly the two
  files of a running profile open.\<close>

definition prof_inv :: "profiler \<Rightarrow> bool" where
  "prof_inv s \<longleftrightarrow> cpuProfiling s = started s \<and> (\<forall>f\<in>openFiles s. f < nextFile s)
     \<and> (if started s then \<exists>f g. f \<noteq> g \<and> cpu_prof s = Some f \<and> mem_prof s = Some g \<and> openFiles s = {f, g} else openFiles s = {})"

lemma prof_inv_new [simp]: "prof_inv new_profiler"
  by (simp add: prof_inv_def new_profiler_def)

lemma prof_inv_step: "prof_inv s \<Longrightarrow> mem_ok sig \<Longrightarrow> prof_inv (watch_step sig s)"
  by (cases sig)
    (auto simp: prof_inv_def watch_step_def ProfileMgr_Start_def ProfileMgr_Stop_def os_create_def close_file_def Let_def
      split: if_splits)

lemma prof_inv_Watch: "prof_inv s \<Longrightarrow> list_all mem_ok sigs \<Longrightarrow> prof_inv (Watch sigs s)"
  by (induction sigs arbitrary: s) (auto intro: prof_inv_step)

text \<open>A profile that runs without the manager knowing stays so.\<close>

lemma stuck_step: "\<not> started s \<Longrightarrow> cpuProfiling s \<Longrightarrow> \<not> started (watch_step sig s) \<and> cpuProfiling (watch_step sig s)"
  by (auto simp: watch_step_def ProfileMgr_Start_def ProfileMgr_Stop_def os_create_def close_file_def Let_def
      split: prof_signal.splits)

lemma stuck_Watch: "\<not> started s \<Longrightarrow> cpuProfiling s \<Longrightarrow> \<not> started (Watch sigs s) \<and> cpuProfiling (Watch sigs s)"
  by (induction sigs arbitrary: s) (simp_all add: stuck_step)

section \<open>Properties\<close>

text \<open>Property C31. The profiler. As long as the memory file can be created, the manager's flag says whether the runtime is profiling,
  after a stop every file is closed, and a start from an idle state starts a profile with two open files. (Deviation.) One start whose
  memory file cannot be created leaves the runtime profiling into a closed file with the flag unset: from then on, whatever signals
  come, no profile is started again and the runtime never stops profiling.\<close>

theorem profiler_lifecycle:
  assumes "list_all mem_ok sigs" "create_mem_ok good" "getwd_ok good" "create_cpu_ok good"
    "\<not> create_mem_ok bad" "getwd_ok bad" "create_cpu_ok bad"
  defines "s \<equiv> Watch sigs new_profiler"
  shows "cpuProfiling s = started s \<and> openFiles (Watch [SigStop] s) = {}
    \<and> (\<not> started s \<longrightarrow> started (Watch [SigStart good] s) \<and> card (openFiles (Watch [SigStart good] s)) = 2
         \<and> \<not> started (Watch (SigStart bad # later) s) \<and> cpuProfiling (Watch (SigStart bad # later) s) \<and> openFiles (Watch [SigStart bad] s) = {})"
proof -
  have inv: "prof_inv s" unfolding s_def by (rule prof_inv_Watch [OF prof_inv_new assms(1)])
  then have stop: "prof_inv (Watch [SigStop] s)" "\<not> started (Watch [SigStop] s)"
    using prof_inv_step [of s SigStop] by (auto simp: watch_step_def ProfileMgr_Stop_def close_file_def Let_def)
  have start: "started (Watch [SigStart good] s) \<and> card (openFiles (Watch [SigStart good] s)) = 2" if "\<not> started s"
  proof -
    have "prof_inv (watch_step (SigStart good) s)" using prof_inv_step [OF inv] assms(2) by simp
    moreover have "started (watch_step (SigStart good) s)"
      using that inv assms(2-4) by (simp add: prof_inv_def watch_step_def ProfileMgr_Start_def os_create_def Let_def)
    ultimately show ?thesis by (auto simp: prof_inv_def)
  qed
  have fail: "\<not> started (watch_step (SigStart bad) s) \<and> cpuProfiling (watch_step (SigStart bad) s) \<and> openFiles (watch_step (SigStart bad) s) = {}"
    if "\<not> started s"
    using that inv assms(5-7) by (simp add: prof_inv_def watch_step_def ProfileMgr_Start_def os_create_def close_file_def Let_def)
  then show ?thesis using inv stop start stuck_Watch by (simp add: prof_inv_def)
qed

theorem profiler_lifecycle_witness:
  "started (Watch [SigStart \<lparr>getwd_ok = True, create_cpu_ok = True, create_mem_ok = True\<rparr>] new_profiler)
   \<and> \<not> started (Watch [SigStart \<lparr>getwd_ok = True, create_cpu_ok = True, create_mem_ok = False\<rparr>, SigStop,
        SigStart \<lparr>getwd_ok = True, create_cpu_ok = True, create_mem_ok = True\<rparr>] new_profiler)"
  using profiler_lifecycle [of "[]" "\<lparr>getwd_ok = True, create_cpu_ok = True, create_mem_ok = True\<rparr>"
      "\<lparr>getwd_ok = True, create_cpu_ok = True, create_mem_ok = False\<rparr>"
      "[SigStop, SigStart \<lparr>getwd_ok = True, create_cpu_ok = True, create_mem_ok = True\<rparr>]"]
  by (simp add: new_profiler_def)

end
