(* ===== verification/End_To_End.thy ===== *)
theory End_To_End
  imports Gate_Properties Services Push_Service Client_Program
begin

text \<open>
  The processes together: an rpc call of a client through a gate to a service and back, and a push from the push service
  through a gate to a client and its confirmation back. Each process has its own state; what one writes to a connection
  is handled by the process at the other end.
\<close>

text \<open>
  The handling of one packet: \<open>RpcDecode\<close> reads the name, and the task it builds runs at once or in the task pool. The
  check of the sending client is in \<open>unverified_client_rejected\<close>, the queueing in \<open>verified_queued\<close>.
\<close>

definition handle_packet ::
  "msgpack \<Rightarrow> ('h, ('h, 'b) world_scheme) handlers \<Rightarrow> session \<Rightarrow> bytes \<Rightarrow> ('h, 'b) world_scheme \<Rightarrow> unit res \<times> ('h, 'b) world_scheme" where
  "handle_packet mp hs session buf w =
     (case decode_name mp buf of (rpcName, args) \<Rightarrow> run_task mp hs \<lparr>tSession = session, tName = rpcName, tArgs = args\<rparr> w)"

lemma handle_packet_args:
  assumes "codec_ok mp" "rpcs (rpcMgr w) name = Some h" "GetReqPtr hs h = Some fs" "length name < 2 ^ 32"
    "list_all2 has_type args (map snd fs)" "Process hs h args session w = (None, x, w')"
  shows "handle_packet mp hs session (RpcEncode mp name args) w = (Inr (), w')"
  using run_task_args [OF assms(1-3,5,6)] by (simp add: handle_packet_def decode_name_RpcEncode [OF assms(1,4)])

lemma gate_route_registered:
  assumes "gate_rpcMgr mp intn n = Inr r"
  shows "rpcs r MSG_C2G_RPC_ROUTE = Some (H_User G_C2GRpcRoute)" "rpcs r MSG_S2G_RPC_RSP = Some (H_User G_S2GRpcRsp)"
    "rpcs r MSG_P2G_PUSH = Some (H_User G_P2GPush)"
  using gate_rpcMgr_ok [of mp intn n] assms by (auto simp: default_handlers_def gate_registrations_def msg_names)

section \<open>A call\<close>

text \<open>The two passes through the gate.\<close>

lemma gate_forwards_packet:
  assumes "codec_ok mp" "gate_rpcMgr mp intn n = Inr (rpcMgr w)" "remote_inv (remoteMgr w)" "cb_wf (cbMgr w)" "netWrite w = good_net"
    "route_check mp \<lparr>rNameSpace = ns, rService = svc, rRid = rid, rIsOrdered = False, rInnerRpc = inner\<rparr> session w = []" "rid \<noteq> 0"
    "remotes (remoteMgr w) c0 = Some r0" "remoteId r0 = GetRemoteID ns svc"
    "length ns < 2 ^ 32" "length svc < 2 ^ 32" "length inner < 2 ^ 32"
    "MessageEncode (RpcEncode mp MSG_G2S_RPC_CALL [vu32 (globalGID w + 1), VBytes inner]) = Inr m" "m \<noteq> []"
  shows "\<exists>r w'. handle_packet mp (gate_handlers mp intn n) session
       (RpcEncode mp MSG_C2G_RPC_ROUTE [VStr ns, VStr svc, vu32 rid, VBool False, VBytes inner]) w = (Inr (), w')
    \<and> remotes (remoteMgr w) (rconn r) = Some r \<and> remoteId r = GetRemoteID ns svc \<and> out w' = out w @ [(rconn r, m)]
    \<and> (\<exists>info. cb_lookup (cbMgr w') (globalGID w + 1) = Some [ARoute info] \<and> cb_connID info = sconn session \<and> cb_rid info = rid)
    \<and> cb_wf (cbMgr w') \<and> remote_inv (remoteMgr w') \<and> tcpServer w' = tcpServer w \<and> netWrite w' = good_net \<and> rpcMgr w' = rpcMgr w"
proof -
  let ?req = "\<lparr>rNameSpace = ns, rService = svc, rRid = rid, rIsOrdered = False, rInnerRpc = inner\<rparr>"
  let ?args = "[VStr ns, VStr svc, vu32 rid, VBool False, VBytes inner]"
  obtain r w' where r: "RpcC2GRpcRoute_Process mp intn ?req session w = (None, None, w')"
    "remotes (remoteMgr w) (rconn r) = Some r" "remoteId r = GetRemoteID ns svc" "out w' = out w @ [(rconn r, m)]"
    "cb_lookup (cbMgr w') = (cb_lookup (cbMgr w))(globalGID w + 1 \<mapsto> [ARoute (route_cbInfo mp ?req session w)])"
    "cb_wf (cbMgr w')" "remote_inv (remoteMgr w')" "tcpServer w' = tcpServer w" "netWrite w' = good_net" "rpcMgr w' = rpcMgr w"
    using route_forwarded [OF assms(3-6), of c0 r0 m intn] assms(7-9,13,14) by auto
  have "as_route_req ?args = ?req" by (simp add: as_route_req_def)
  then have p: "Process (gate_handlers mp intn n) (H_User G_C2GRpcRoute) ?args session w = (None, None, w')"
    using r(1) by (simp add: gate_handlers_def gate_user_def)
  have "handle_packet mp (gate_handlers mp intn n) session (RpcEncode mp MSG_C2G_RPC_ROUTE ?args) w = (Inr (), w')"
    by (rule handle_packet_args [OF assms(1) gate_route_registered(1) [OF assms(2)] _ _ _ p, where fs = RpcC2GRpcRouteReq])
      (use assms(10-12) in \<open>simp_all add: gate_handlers_def gate_user_def RpcC2GRpcRouteReq_def msg_names\<close>)
  with r show ?thesis by (intro exI [of _ r] exI [of _ w']) (simp add: route_cbInfo_def GetConnID_def)
qed

lemma gate_returns_packet:
  assumes "codec_ok mp" "gate_rpcMgr mp intn n = Inr (rpcMgr w)" "cb_wf (cbMgr w)" "netWrite w = good_net"
    "cb_lookup (cbMgr w) k = Some [ARoute info]" "clients (tcpServer w) (cb_connID info) = Some cl" "cconn cl = cb_connID info"
    "has_type (VStr err) TString" "has_type reply TMap"
    "MessageEncode (RpcEncode mp MSG_G2C_RPC_RSP [vu32 (cb_rid info), VStr err, reply]) = Inr m" "m \<noteq> []"
  shows "\<exists>w'. handle_packet mp (gate_handlers mp intn n) session (RpcEncode mp MSG_S2G_RPC_RSP [vu32 k, VStr err, reply]) w = (Inr (), w')
    \<and> out w' = out w @ [(cb_connID info, m)] \<and> cb_lookup (cbMgr w') k = None"
proof -
  let ?args = "[vu32 k, VStr err, reply]"
  have conn: "rsp_conn (cb_connID info) w = Some (cb_connID info)" using assms(6,7) by (simp add: rsp_conn_def GetTcpClient_def)
  have k: "cb_lookup (cbMgr w) (as_u32 (?args ! 0)) = Some [ARoute info]" using assms(5) by simp
  obtain cm where cm: "cb_lookup cm = (cb_lookup (cbMgr w))(as_u32 (?args ! 0) := None)"
    "RpcS2GRpcRsp_Process mp ?args session w =
      no_rsp (rpc_send mp (Some (cb_connID info)) MSG_G2C_RPC_RSP [vu32 (cb_rid info), ?args ! 1, ?args ! 2] (w\<lparr>cbMgr := cm\<rparr>))"
    using rsp_known [OF assms(3) k, of mp session] unfolding conn option.case by blast
  let ?w' = "w\<lparr>cbMgr := cm, out := out w @ [(cb_connID info, m)]\<rparr>"
  have "RpcS2GRpcRsp_Process mp ?args session w = (None, None, ?w')"
    unfolding cm(2) using rpc_send_sends [OF assms(10,11), of "w\<lparr>cbMgr := cm\<rparr>"] assms(4) by (simp add: no_rsp_def)
  then have p: "Process (gate_handlers mp intn n) (H_User G_S2GRpcRsp) ?args session w = (None, None, ?w')"
    by (simp add: gate_handlers_def gate_user_def)
  have "handle_packet mp (gate_handlers mp intn n) session (RpcEncode mp MSG_S2G_RPC_RSP ?args) w = (Inr (), ?w')"
    by (rule handle_packet_args [OF assms(1) gate_route_registered(2) [OF assms(2)] _ _ _ p, where fs = RpcS2GRpcRsp])
      (use assms(8,9) in \<open>simp_all add: gate_handlers_def gate_user_def RpcS2GRpcRsp_def msg_names\<close>)
  with cm(1) show ?thesis by (intro exI [of _ ?w']) simp
qed

text \<open>The service and the client.\<close>

lemma service_answers_packet:
  assumes "codec_ok mp" "rpcs (rpcMgr w) MSG_G2S_RPC_CALL = Some H_G2SRpcCall" "length name < 2 ^ 32"
    "rpcs (rpcMgr w) name = Some h" "GetReqPtr (process_handlers mp us n) h = Some fs" "list_all2 has_type args (map snd fs)"
    "length (RpcEncode mp name args) < 2 ^ 32"
    "Process (process_handlers mp us n) h args session (RpcFvcCount w) = (None, Some stMap, w1)" "k \<noteq> 0" "netWrite w1 = good_net"
    "MessageEncode (RpcEncode mp MSG_S2G_RPC_RSP [vu32 k, VStr (GetResponseErr session w1), VMap stMap]) = Inr m" "m \<noteq> []"
  shows "handle_packet mp (process_handlers mp us (Suc n)) session
      (RpcEncode mp MSG_G2S_RPC_CALL [vu32 k, VBytes (RpcEncode mp name args)]) w = (Inr (), w1\<lparr>out := out w1 @ [(sconn session, m)]\<rparr>)"
proof -
  have p: "Process (process_handlers mp us (Suc n)) H_G2SRpcCall [vu32 k, VBytes (RpcEncode mp name args)] session w =
      (None, None, w1\<lparr>out := out w1 @ [(sconn session, m)]\<rparr>)"
    unfolding process_handlers_Process
    by (rule service_reply [OF assms(1,4,5,3,6,8) _ assms(9,10) _ assms(11,12)]) simp_all
  show ?thesis
    by (rule handle_packet_args [OF assms(1,2) _ _ _ p, where fs = RpcG2SRpcCallReq])
      (use assms(7) in \<open>simp_all add: RpcG2SRpcCallReq_def msg_names\<close>)
qed

lemma sdk_handlers_rsp:
  "GetReqPtr (sdk_handlers mp us n) (H_User S_G2CRpcRsp) = Some RpcG2CRpcRspReq"
  "Process (sdk_handlers mp us n) (H_User S_G2CRpcRsp) = Sdk_G2CRpcRsp_Process"
  by (cases n; simp add: sdk_user_def fun_eq_iff)+

lemma client_handles_response:
  assumes "codec_ok mp" "rpcs (rpcMgr w) MSG_G2C_RPC_RSP = Some (H_User S_G2CRpcRsp)" "cb_wf (cbMgr w)"
    "cb_lookup (cbMgr w) rid = Some [AFunc f]" "has_type (VStr err) TString" "has_type reply TMap"
  shows "\<exists>w'. handle_packet mp (sdk_handlers mp us n) session (RpcEncode mp MSG_G2C_RPC_RSP [vu32 rid, VStr err, reply]) w = (Inr (), w')
    \<and> cbCalls w' = cbCalls w @ [(f, err, reply)]"
proof -
  obtain m where m: "Sdk_G2CRpcRsp_Process [vu32 rid, VStr err, reply] session w = (None, None, call_fun f err reply (w\<lparr>cbMgr := m\<rparr>))"
    using sdk_rsp_known [OF assms(3,4)] by blast
  have "handle_packet mp (sdk_handlers mp us n) session (RpcEncode mp MSG_G2C_RPC_RSP [vu32 rid, VStr err, reply]) w =
      (Inr (), call_fun f err reply (w\<lparr>cbMgr := m\<rparr>))"
    by (rule handle_packet_args [OF assms(1,2) sdk_handlers_rsp(1) _ _ m [folded sdk_handlers_rsp(2) [of mp us n]]])
      (use assms(5,6) in \<open>simp_all add: RpcG2CRpcRspReq_def msg_names\<close>)
  then show ?thesis by (simp add: call_fun_def)
qed

text \<open>Property C3. A call from end to end. A client calls an rpc of a service with a callback. The message it sends, handled by the gate, is
  forwarded to one connected instance of the service; handled by the service, it runs the handler on exactly the
  values of the call; the answer, handled by the gate, goes to the connection of that client and under the number the client gave;
  and handled by the client, it calls the callback once with the service's error and response. The call is allowed at the gate, its
  arguments have the types of the handler's request struct, and the four messages fit into packets.\<close>

theorem call_end_to_end:
  assumes "codec_ok mp" "length name < 2 ^ 32" "length (sp_Namespace sp) < 2 ^ 32" "length (sp_ServiceName sp) < 2 ^ 32"
    "length (RpcEncode mp name args) < 2 ^ 32" "list_all2 has_type args (map snd fs)"
    \<comment> \<open>the client\<close>
    "cb_wf (cbMgr wc)" "netWrite wc = good_net" "rpcs (rpcMgr wc) MSG_G2C_RPC_RSP = Some (H_User S_G2CRpcRsp)" "globalGID wc + 1 \<noteq> 0"
    \<comment> \<open>the gate\<close>
    "gate_rpcMgr mp intn n = Inr (rpcMgr wg)" "remote_inv (remoteMgr wg)" "cb_wf (cbMgr wg)" "netWrite wg = good_net" "globalGID wg + 1 \<noteq> 0"
    "remotes (remoteMgr wg) c0 = Some r0" "remoteId r0 = GetRemoteID (sp_Namespace sp) (sp_ServiceName sp)"
    "clients (tcpServer wg) (sconn sg) = Some cl" "cconn cl = sconn sg"
    "route_check mp \<lparr>rNameSpace = sp_Namespace sp, rService = sp_ServiceName sp, rRid = globalGID wc + 1, rIsOrdered = False,
       rInnerRpc = RpcEncode mp name args\<rparr> sg wg = []"
    \<comment> \<open>the service\<close>
    "rpcs (rpcMgr ws) MSG_G2S_RPC_CALL = Some H_G2SRpcCall" "rpcs (rpcMgr ws) name = Some h"
    "GetReqPtr (process_handlers mp us n1) h = Some fs"
    "Process (process_handlers mp us n1) h args ss (RpcFvcCount ws) = (None, Some stMap, ws0)" "netWrite ws0 = good_net"
    "has_type (VStr (GetResponseErr ss ws0)) TString" "has_type (VMap stMap) TMap"
    \<comment> \<open>the messages\<close>
    "MessageEncode (RpcEncode mp MSG_C2G_RPC_ROUTE [VStr (sp_Namespace sp), VStr (sp_ServiceName sp), vu32 (globalGID wc + 1), VBool False,
       VBytes (RpcEncode mp name args)]) = Inr m1" "m1 \<noteq> []"
    "MessageEncode (RpcEncode mp MSG_G2S_RPC_CALL [vu32 (globalGID wg + 1), VBytes (RpcEncode mp name args)]) = Inr m2" "m2 \<noteq> []"
    "MessageEncode (RpcEncode mp MSG_S2G_RPC_RSP [vu32 (globalGID wg + 1), VStr (GetResponseErr ss ws0), VMap stMap]) = Inr m3" "m3 \<noteq> []"
    "MessageEncode (RpcEncode mp MSG_G2C_RPC_RSP [vu32 (globalGID wc + 1), VStr (GetResponseErr ss ws0), VMap stMap]) = Inr m4" "m4 \<noteq> []"
  shows "\<exists>wc1 r wg1 ws1 wg2 wc2.
      ServiceProxy_RpcCall mp sp name args (Some (Some f)) wc = (Inr (), wc1) \<and> out wc1 = out wc @ [(gp_conn (Gp sp), m1)]
    \<and> handle_packet mp (gate_handlers mp intn n) sg (RpcEncode mp MSG_C2G_RPC_ROUTE [VStr (sp_Namespace sp), VStr (sp_ServiceName sp),
        vu32 (globalGID wc + 1), VBool False, VBytes (RpcEncode mp name args)]) wg = (Inr (), wg1)
    \<and> out wg1 = out wg @ [(rconn r, m2)] \<and> remotes (remoteMgr wg) (rconn r) = Some r \<and> remoteId r = GetRemoteID (sp_Namespace sp) (sp_ServiceName sp)
    \<and> handle_packet mp (process_handlers mp us (Suc n1)) ss (RpcEncode mp MSG_G2S_RPC_CALL [vu32 (globalGID wg + 1),
        VBytes (RpcEncode mp name args)]) ws = (Inr (), ws1) \<and> out ws1 = out ws0 @ [(sconn ss, m3)]
    \<and> handle_packet mp (gate_handlers mp intn n) sr (RpcEncode mp MSG_S2G_RPC_RSP [vu32 (globalGID wg + 1),
        VStr (GetResponseErr ss ws0), VMap stMap]) wg1 = (Inr (), wg2) \<and> out wg2 = out wg1 @ [(sconn sg, m4)]
    \<and> handle_packet mp (sdk_handlers mp uc nc) sc (RpcEncode mp MSG_G2C_RPC_RSP [vu32 (globalGID wc + 1),
        VStr (GetResponseErr ss ws0), VMap stMap]) wc1 = (Inr (), wc2)
    \<and> cbCalls wc2 = cbCalls wc @ [(f, GetResponseErr ss ws0, VMap stMap)]"
proof -
  obtain cm where cm: "rpcCall mp sp False name args (Some (Some f)) wc =
      (Inr (), wc\<lparr>globalGID := globalGID wc + 1, cbMgr := cm, out := out wc @ [(gp_conn (Gp sp), m1)]\<rparr>)"
    "cb_wf cm" "cb_lookup cm = (cb_lookup (cbMgr wc))(globalGID wc + 1 \<mapsto> [AFunc f])"
    using rpcCall_registers [OF assms(7,8,28,29)] by blast
  define wc1 where "wc1 = wc\<lparr>globalGID := globalGID wc + 1, cbMgr := cm, out := out wc @ [(gp_conn (Gp sp), m1)]\<rparr>"
  obtain r wg1 info where g: "handle_packet mp (gate_handlers mp intn n) sg (RpcEncode mp MSG_C2G_RPC_ROUTE [VStr (sp_Namespace sp), VStr (sp_ServiceName sp),
        vu32 (globalGID wc + 1), VBool False, VBytes (RpcEncode mp name args)]) wg = (Inr (), wg1)"
    "remotes (remoteMgr wg) (rconn r) = Some r" "remoteId r = GetRemoteID (sp_Namespace sp) (sp_ServiceName sp)" "out wg1 = out wg @ [(rconn r, m2)]"
    "cb_lookup (cbMgr wg1) (globalGID wg + 1) = Some [ARoute info]" "cb_connID info = sconn sg" "cb_rid info = globalGID wc + 1"
    "cb_wf (cbMgr wg1)" "tcpServer wg1 = tcpServer wg" "netWrite wg1 = good_net" "rpcMgr wg1 = rpcMgr wg"
    using gate_forwards_packet [OF assms(1,11-14,20,10,16,17,3-5,30,31)] by blast
  have s: "handle_packet mp (process_handlers mp us (Suc n1)) ss (RpcEncode mp MSG_G2S_RPC_CALL [vu32 (globalGID wg + 1),
        VBytes (RpcEncode mp name args)]) ws = (Inr (), ws0\<lparr>out := out ws0 @ [(sconn ss, m3)]\<rparr>)"
    by (rule service_answers_packet [OF assms(1,21,2,22,23,6,5,24,15,25,32,33)])
  obtain wg2 where b: "handle_packet mp (gate_handlers mp intn n) sr (RpcEncode mp MSG_S2G_RPC_RSP [vu32 (globalGID wg + 1),
        VStr (GetResponseErr ss ws0), VMap stMap]) wg1 = (Inr (), wg2)" "out wg2 = out wg1 @ [(sconn sg, m4)]"
    using gate_returns_packet [OF assms(1) assms(11) [folded g(11)] g(8,10,5) _ _ assms(26,27), of cl m4 sr] assms(18,19,34,35) g(6,7,9) by auto
  have k: "rpcs (rpcMgr wc1) MSG_G2C_RPC_RSP = Some (H_User S_G2CRpcRsp)" "cb_wf (cbMgr wc1)"
    "cb_lookup (cbMgr wc1) (globalGID wc + 1) = Some [AFunc f]" "cbCalls wc1 = cbCalls wc"
    using assms(9) cm(2,3) by (simp_all add: wc1_def)
  obtain wc2 where c: "handle_packet mp (sdk_handlers mp uc nc) sc (RpcEncode mp MSG_G2C_RPC_RSP [vu32 (globalGID wc + 1),
        VStr (GetResponseErr ss ws0), VMap stMap]) wc1 = (Inr (), wc2)" "cbCalls wc2 = cbCalls wc1 @ [(f, GetResponseErr ss ws0, VMap stMap)]"
    using client_handles_response [OF assms(1) k(1-3) assms(26,27)] by blast
  have "ServiceProxy_RpcCall mp sp name args (Some (Some f)) wc = (Inr (), wc1)" "out wc1 = out wc @ [(gp_conn (Gp sp), m1)]"
    using cm(1) by (simp_all add: ServiceProxy_RpcCall_def wc1_def)
  with g(1-4) s b c k(4) show ?thesis
    by (intro exI [of _ wc1] exI [of _ r] exI [of _ wg1] exI [of _ "ws0\<lparr>out := out ws0 @ [(sconn ss, m3)]\<rparr>"] exI [of _ wg2] exI [of _ wc2]) simp
qed

text \<open>The example client, gate and service.\<close>

definition demo_caller :: "unit sdk_h handler sdk_world" where
  "demo_caller = demo_sdk\<lparr>rpcMgr := projr (sdk_init demo_sdk_hs)\<rparr>"

lemma sdk_init_rsp: "\<exists>r. sdk_init hs = Inr r \<and> rpcs r MSG_G2C_RPC_RSP = Some (H_User S_G2CRpcRsp) \<and> rpcs r MSG_G2C_PUSH = Some (H_User S_G2CPush)"
  by (simp add: sdk_init_def CreateSimpleRpcMgr_def default_handlers_def sdk_registrations_def RegistRpcHandler_def
      RegistRpcHandlerForce_def empty_rpcMgr_def msg_names)

lemma demo_caller_simps:
  "cbMgr demo_caller = new_cbmgr" "netWrite demo_caller = good_net" "globalGID demo_caller = 0" "cbCalls demo_caller = []" "out demo_caller = []"
  "rpcs (rpcMgr demo_caller) MSG_G2C_RPC_RSP = Some (H_User S_G2CRpcRsp)"
  using sdk_init_rsp [of demo_sdk_hs] by (auto simp: demo_caller_def demo_sdk_simps)

lemma demo_messages_encoded:
  "\<exists>m. MessageEncode (RpcEncode mp_codec MSG_C2G_RPC_ROUTE [VStr ''ns'', VStr ''ServiceA'', vu32 1, VBool False,
       VBytes (RpcEncode mp_codec ''rpc_b'' [vu32 10])]) = Inr m \<and> m \<noteq> []"
  "\<exists>m. MessageEncode (RpcEncode mp_codec MSG_G2S_RPC_CALL [vu32 1, VBytes (RpcEncode mp_codec ''rpc_b'' [vu32 10])]) = Inr m \<and> m \<noteq> []"
  "\<exists>m. MessageEncode (RpcEncode mp_codec MSG_S2G_RPC_RSP [vu32 1, VStr [], VMap (RpcARsp True (vu32 10))]) = Inr m \<and> m \<noteq> []"
  "\<exists>m. MessageEncode (RpcEncode mp_codec MSG_G2C_RPC_RSP [vu32 1, VStr [], VMap (RpcARsp True (vu32 10))]) = Inr m \<and> m \<noteq> []"
  by (simp_all add: MessageEncode_ok RpcEncode_def mp_codec_def put_str_def msg_names vu32_def be32_def RpcARsp_def)

theorem call_end_to_end_witness:
  "\<exists>m1 wc1 wc2. ServiceProxy_RpcCall mp_codec demo_proxy ''rpc_b'' [vu32 10] (Some (Some 3)) demo_caller = (Inr (), wc1)
     \<and> out wc1 = [(''1.1.1.1:8886'', m1)]
     \<and> handle_packet mp_codec (sdk_handlers mp_codec \<lparr>GetReqPtr = (\<lambda>_. None), ClientAccess = (\<lambda>_. None), Process = (\<lambda>_ _ _ w. (None, None, w))\<rparr> 1)
         \<lparr>styp = SessionRemote, sconn = ''1.1.1.1:8886'', sid = 0\<rparr>
         (RpcEncode mp_codec MSG_G2C_RPC_RSP [vu32 1, VStr [], VMap [(''Success'', VBool True), (''Req'', vu32 10)]]) wc1 = (Inr (), wc2)
     \<and> cbCalls wc2 = [(3, [], VMap [(''Success'', VBool True), (''Req'', vu32 10)])]"
proof -
  obtain r0 where r0: "remotes demo_remotes ''10.0.0.1:80'' = Some r0" "remoteId r0 = ''ns:ServiceA''"
    using demo_remotes_map(1) by auto
  have v: "remoteMgr demo_verified = demo_remotes" "cbMgr demo_verified = new_cbmgr" "netWrite demo_verified = good_net" "globalGID demo_verified = 0"
    "clients (tcpServer demo_verified) = [''9.9.9.9:1'' \<mapsto> demo_client]"
    by (simp_all add: demo_verified_def demo_server_client)
  have p: "sp_Namespace demo_proxy = ''ns''" "sp_ServiceName demo_proxy = ''ServiceA''" "gp_conn (Gp demo_proxy) = ''1.1.1.1:8886''"
    by (simp_all add: demo_proxy_def CreateServiceProxy_def)
  let ?ws0 = "RpcFvcCount (demo_sa [])"
  have e: "GetResponseErr demo_gate_session ?ws0 = []" "netWrite ?ws0 = good_net"
    by (simp_all add: GetResponseErr_def demo_sa_simps RpcFvcCount_def)
  obtain m1 m2 m3 m4 where m: "MessageEncode (RpcEncode mp_codec MSG_C2G_RPC_ROUTE [VStr ''ns'', VStr ''ServiceA'', vu32 1, VBool False,
       VBytes (RpcEncode mp_codec ''rpc_b'' [vu32 10])]) = Inr m1" "m1 \<noteq> []"
    "MessageEncode (RpcEncode mp_codec MSG_G2S_RPC_CALL [vu32 1, VBytes (RpcEncode mp_codec ''rpc_b'' [vu32 10])]) = Inr m2" "m2 \<noteq> []"
    "MessageEncode (RpcEncode mp_codec MSG_S2G_RPC_RSP [vu32 1, VStr [], VMap (RpcARsp True (vu32 10))]) = Inr m3" "m3 \<noteq> []"
    "MessageEncode (RpcEncode mp_codec MSG_G2C_RPC_RSP [vu32 1, VStr [], VMap (RpcARsp True (vu32 10))]) = Inr m4" "m4 \<noteq> []"
    using demo_messages_encoded by blast
  have chk: "route_check mp_codec \<lparr>rNameSpace = ''ns'', rService = ''ServiceA'', rRid = 1, rIsOrdered = False,
       rInnerRpc = RpcEncode mp_codec ''rpc_b'' [vu32 10]\<rparr> demo_session demo_verified = []"
    by (simp add: route_check_def demo_verified_def decode_name_RpcEncode [OF codec_ok_mp])
  have len: "length (RpcEncode mp_codec ''rpc_b'' [vu32 10]) < 2 ^ 32"
    by (simp add: RpcEncode_def mp_codec_def put_str_def vu32_def be32_def)
  have call: "rpcs (rpcMgr (demo_sa [])) MSG_G2S_RPC_CALL = Some H_G2SRpcCall"
    by (simp add: demo_sa_rpcs default_handlers_def msg_names)
  have stm: "has_type (VMap (RpcARsp True (vu32 10))) TMap" by (simp add: has_type_def fits_def RpcARsp_def vu32_def)
  note T = call_end_to_end [OF codec_ok_mp, of "''rpc_b''" demo_proxy "[vu32 10]" RpcBReq demo_caller id 1 demo_verified "''10.0.0.1:80''" r0
      demo_session demo_client "demo_sa []" "H_User A_RpcB" "service_a_user mp_codec id []" 0 demo_gate_session "RpcARsp True (vu32 10)" ?ws0 m1 m2 m3 m4 3
      demo_gate_session "\<lparr>GetReqPtr = (\<lambda>_. None), ClientAccess = (\<lambda>_. None), Process = (\<lambda>_ _ _ w. (None, None, w))\<rparr>" 1
      "\<lparr>styp = SessionRemote, sconn = ''1.1.1.1:8886'', sid = 0\<rparr>"]
  show ?thesis
    using T r0 m chk len call stm e demo_verified_ok(1) demo_sa_rpc_b service_a_rpc_b [of mp_codec id "[]" 0]
    by (simp add: p v demo_caller_simps demo_remotes_inv GetRemoteID_def demo_client_def RpcBReq_def service_a_handlers_def demo_sa_simps RpcARsp_def) blast
qed

section \<open>A push\<close>

text \<open>The passes through the gate: the login, the push, and the one-way request that confirms it.\<close>

lemma gate_login_packet:
  assumes "codec_ok mp" "gate_rpcMgr mp intn n = Inr (rpcMgr w)" "Service (cfg w) = ''ClientGate''" "length clientID < 2 ^ 32"
    "gDBResource (gdb w) ''myRedis2'' = Some cl" "is_cluster cl"
  shows "handle_packet mp (gate_handlers mp intn n) session (RpcEncode mp MSG_GATE_LOGIN [VStr clientID]) w =
    (Inr (), w\<lparr>gdb := (gdb w)\<lparr>dbLog := dbLog (gdb w) @ [(cl, RedisSet (''c_'' @ clientID) (listenAddr w @ ''/'' @ sconn session))]\<rparr>\<rparr>)"
proof -
  have reg: "rpcs (rpcMgr w) MSG_GATE_LOGIN = Some (H_User G_GateLogin)"
    using gate_rpcMgr_ok [of mp intn n] assms(2) by (auto simp: default_handlers_def gate_registrations_def msg_names)
  have "\<exists>x. Process (gate_handlers mp intn n) (H_User G_GateLogin) [VStr clientID] session w = (None, x,
      w\<lparr>gdb := (gdb w)\<lparr>dbLog := dbLog (gdb w) @ [(cl, RedisSet (''c_'' @ clientID) (listenAddr w @ ''/'' @ sconn session))]\<rparr>\<rparr>)"
    using assms(3,5,6) by (simp add: gate_handlers_def gate_user_def RpcGateLogin_Process_def login_key_def db_call_def
        GetRedisCluster_def get_client_def assert_client_def db_do_def GetConnID_def)
  then obtain x where p: "Process (gate_handlers mp intn n) (H_User G_GateLogin) [VStr clientID] session w = (None, x,
      w\<lparr>gdb := (gdb w)\<lparr>dbLog := dbLog (gdb w) @ [(cl, RedisSet (''c_'' @ clientID) (listenAddr w @ ''/'' @ sconn session))]\<rparr>\<rparr>)"
    by (elim exE) (rule that)
  show ?thesis
    by (rule handle_packet_args [OF assms(1) reg _ _ _ p, where fs = "[(''ClientID'', TString)]"])
      (use assms(4) in \<open>simp_all add: gate_handlers_def gate_user_def msg_names\<close>)
qed

lemma gate_push_packet:
  assumes "codec_ok mp" "gate_rpcMgr mp intn n = Inr (rpcMgr w)" "clients (tcpServer w) k = Some cl" "cconn cl = k" "netWrite w = good_net"
    "length k < 2 ^ 32" "length pid < 2 ^ 32" "length ns < 2 ^ 32" "length inner < 2 ^ 32"
    "MessageEncode (RpcEncode mp MSG_G2C_PUSH [VBytes pid, VStr ns, VBytes inner]) = Inr m" "m \<noteq> []"
  shows "handle_packet mp (gate_handlers mp intn n) session (RpcEncode mp MSG_P2G_PUSH [VStr k, VBytes pid, VStr ns, VBytes inner]) w =
    (Inr (), w\<lparr>out := out w @ [(k, m)]\<rparr>)"
proof -
  have p: "Process (gate_handlers mp intn n) (H_User G_P2GPush) [VStr k, VBytes pid, VStr ns, VBytes inner] session w =
      (None, None, w\<lparr>out := out w @ [(k, m)]\<rparr>)"
    using assms(3,4) rpc_send_sends [OF assms(10,11,5)]
    by (simp add: gate_handlers_def gate_user_def RpcP2GPush_Process_def GetTcpClient_def no_rsp_def)
  show ?thesis
    by (rule handle_packet_args [OF assms(1) gate_route_registered(3) [OF assms(2)] _ _ _ p, where fs = RpcP2GPushReq])
      (use assms(6-9) in \<open>simp_all add: gate_handlers_def gate_user_def RpcP2GPushReq_def msg_names\<close>)
qed

lemma gate_forwards_oneway:
  assumes "codec_ok mp" "gate_rpcMgr mp intn n = Inr (rpcMgr w)" "remote_inv (remoteMgr w)" "cb_wf (cbMgr w)" "netWrite w = good_net"
    "route_check mp \<lparr>rNameSpace = ns, rService = svc, rRid = 0, rIsOrdered = False, rInnerRpc = inner\<rparr> session w = []"
    "remotes (remoteMgr w) c0 = Some r0" "remoteId r0 = GetRemoteID ns svc"
    "length ns < 2 ^ 32" "length svc < 2 ^ 32" "length inner < 2 ^ 32"
    "MessageEncode (RpcEncode mp MSG_G2S_RPC_CALL [vu32 0, VBytes inner]) = Inr m" "m \<noteq> []"
  shows "\<exists>r w'. handle_packet mp (gate_handlers mp intn n) session
       (RpcEncode mp MSG_C2G_RPC_ROUTE [VStr ns, VStr svc, VInt 0, VBool False, VBytes inner]) w = (Inr (), w')
    \<and> remotes (remoteMgr w) (rconn r) = Some r \<and> remoteId r = GetRemoteID ns svc \<and> out w' = out w @ [(rconn r, m)]
    \<and> cb_lookup (cbMgr w') = cb_lookup (cbMgr w)"
proof -
  let ?req = "\<lparr>rNameSpace = ns, rService = svc, rRid = 0, rIsOrdered = False, rInnerRpc = inner\<rparr>"
  let ?args = "[VStr ns, VStr svc, vu32 0, VBool False, VBytes inner]"
  obtain res m1 where c: "ChoiceRemote intn (GetRemoteID ns svc) False (sconn session) (remoteMgr w) = (Inr res, m1)"
    "res = None \<longleftrightarrow> (\<forall>c r. remotes (remoteMgr w) c = Some r \<longrightarrow> remoteId r \<noteq> GetRemoteID ns svc)"
    "\<forall>r. res = Some r \<longrightarrow> remotes (remoteMgr w) (rconn r) = Some r \<and> remoteId r = GetRemoteID ns svc"
    using ChoiceRemote_unordered [OF assms(3), of intn "GetRemoteID ns svc" "sconn session"] by blast
  then obtain r where r: "res = Some r" using assms(7,8) by blast
  have ch: "ChoiceRemote intn (GetRemoteID (rNameSpace ?req) (rService ?req)) (rIsOrdered ?req) (sconn session) (remoteMgr w) = (Inr (Some r), m1)"
    using c(1) r by simp
  obtain cm where cm: "RpcC2GRpcRoute_Process mp intn ?req session w = no_rsp (rpc_send mp (Some (rconn r)) MSG_G2S_RPC_CALL [vu32 0, VBytes inner]
        ((RpcFvcCount w)\<lparr>remoteMgr := m1, globalGID := globalGID w, cbMgr := cm\<rparr>))" "cb_lookup cm = cb_lookup (cbMgr w)"
    using route_forward [OF assms(4,6) ch] by auto
  let ?w' = "(RpcFvcCount w)\<lparr>remoteMgr := m1, globalGID := globalGID w, cbMgr := cm, out := out w @ [(rconn r, m)]\<rparr>"
  have "RpcC2GRpcRoute_Process mp intn ?req session w = (None, None, ?w')"
    unfolding cm(1) by (subst rpc_send_sends [OF assms(12,13)]) (use assms(5) in \<open>simp_all add: no_rsp_def\<close>)
  then have p: "Process (gate_handlers mp intn n) (H_User G_C2GRpcRoute) ?args session w = (None, None, ?w')"
    by (simp add: gate_handlers_def gate_user_def as_route_req_def)
  have "handle_packet mp (gate_handlers mp intn n) session (RpcEncode mp MSG_C2G_RPC_ROUTE ?args) w = (Inr (), ?w')"
    by (rule handle_packet_args [OF assms(1) gate_route_registered(1) [OF assms(2)] _ _ _ p, where fs = RpcC2GRpcRouteReq])
      (use assms(9-11) in \<open>simp_all add: gate_handlers_def gate_user_def RpcC2GRpcRouteReq_def msg_names\<close>)
  moreover have "vu32 0 = VInt 0" by (simp add: vu32_def)
  ultimately show ?thesis using c(3) r cm(2) by (intro exI [of _ r] exI [of _ ?w']) simp
qed

text \<open>A call without an identifier at a service.\<close>

lemma service_oneway_packet:
  assumes "codec_ok mp" "rpcs (rpcMgr w) MSG_G2S_RPC_CALL = Some H_G2SRpcCall" "length name < 2 ^ 32"
    "rpcs (rpcMgr w) name = Some h" "GetReqPtr (process_handlers mp us n) h = Some fs" "list_all2 has_type args (map snd fs)"
    "length (RpcEncode mp name args) < 2 ^ 32"
    "Process (process_handlers mp us n) h args session (RpcFvcCount w) = (None, rsp, w1)"
  shows "handle_packet mp (process_handlers mp us (Suc n)) session
      (RpcEncode mp MSG_G2S_RPC_CALL [vu32 0, VBytes (RpcEncode mp name args)]) w = (Inr (), w1)"
proof -
  let ?bs = "concat (map (\<lambda>arg. fst (enc mp arg)) args)"
  have nm: "decode_name mp (RpcEncode mp name args) = (name, ?bs)" by (rule decode_name_RpcEncode [OF assms(1,3)])
  have f: "decode_fields mp fs ?bs = Inr args" using decode_fields_args [OF assms(1,6), of "[]"] by simp
  have "rpcHandle mp (process_handlers mp us n) 0 (RpcEncode mp name args) session (RpcFvcCount w) = (Inr ([], VNil), w1)"
    using assms(4,5,8) nm f by (simp add: rpcHandle_def GetRpcHanderGenerator_def doProcessWithPanicProtect_def del: process_handlers_GetReqPtr)
  then have p: "Process (process_handlers mp us (Suc n)) H_G2SRpcCall [vu32 0, VBytes (RpcEncode mp name args)] session w = (None, None, w1)"
    by (simp add: RpcG2SRpcCall_Process_def)
  show ?thesis
    by (rule handle_packet_args [OF assms(1,2) _ _ _ p, where fs = RpcG2SRpcCallReq])
      (use assms(7) in \<open>simp_all add: RpcG2SRpcCallReq_def msg_names\<close>)
qed

lemma push_registry:
  assumes "start_registry (push_handlers mp n) push_registrations = Inr r"
  shows "rpcs r MSG_G2S_RPC_CALL = Some H_G2SRpcCall" "rpcs r MSG_S2P_PUSH = Some (H_User P_S2PPush)"
    "rpcs r MSG_PUSH_REPLY = Some (H_User P_PushReply)"
  using start_registry_ok [of push_registrations "push_handlers mp n"] assms
  by (auto simp: push_registrations_def default_handlers_def msg_names)

text \<open>The push service stores a safe push and sends it to the gate of the client; a confirmation marks the record.\<close>

lemma RpcFvcCount_push [simp]:
  "pdb (RpcFvcCount w) = pdb w" "gGateAddrMap (RpcFvcCount w) = gGateAddrMap w" "cfg (RpcFvcCount w) = cfg w"
  by (simp_all add: RpcFvcCount_def)

lemma push_service_stores_and_sends:
  assumes "codec_ok mp" "start_registry (push_handlers mp (Suc n)) push_registrations = Inr (rpcMgr w)"
    "gDBResource (pdb w) ''myMongo'' = Some mc" "is_mongo mc"
    "dbAnswer (pdb w) mc (MongoInsertOne ''push_service'' ''safe_push_records'' (push_record clientID ''client'' inner)) = DbId (BObjectID pid)"
    "gDBResource (pdb w) ''myRedis2'' = Some cl" "is_cluster cl"
    "dbAnswer (pdb w) cl (RedisGet (''c_'' @ clientID)) = DbString (gateAddr @ ''/'' @ k)" "CHR ''/'' \<notin> set gateAddr" "CHR ''/'' \<notin> set k"
    "gGateAddrMap w gateAddr = Some g" "clients (tcpServer w) g = Some peer" "cconn peer = g" "netWrite w = good_net"
    "push_msg mp (Namespace (cfg w)) k (pid, inner) = Inr m" "m \<noteq> []" "length clientID < 2 ^ 32" "length inner < 2 ^ 32"
    "length (RpcEncode mp MSG_S2P_PUSH [VStr clientID, VStr ''client'', VBool True, VBytes inner]) < 2 ^ 32"
  shows "\<exists>w'. handle_packet mp (push_handlers mp (Suc n)) session
      (RpcEncode mp MSG_G2S_RPC_CALL [vu32 0, VBytes (RpcEncode mp MSG_S2P_PUSH [VStr clientID, VStr ''client'', VBool True, VBytes inner])]) w = (Inr (), w')
    \<and> out w' = out w @ [(g, m)] \<and> rpcMgr w' = rpcMgr w
    \<and> dbLog (pdb w') = dbLog (pdb w) @ [(mc, MongoInsertOne ''push_service'' ''safe_push_records'' (push_record clientID ''client'' inner)),
        (cl, RedisGet (''c_'' @ clientID))] \<and> gDBResource (pdb w') = gDBResource (pdb w)"
proof -
  let ?args = "[VStr clientID, VStr ''client'', VBool True, VBytes inner]"
  define w1 where "w1 = (RpcFvcCount w)\<lparr>pdb := (pdb w)\<lparr>dbLog := dbLog (pdb w) @
    [(mc, MongoInsertOne ''push_service'' ''safe_push_records'' (push_record clientID ''client'' inner))]\<rparr>\<rparr>"
  let ?w' = "w1\<lparr>pdb := (pdb w1)\<lparr>dbLog := dbLog (pdb w1) @ [(cl, RedisGet (''c_'' @ clientID))]\<rparr>, out := out w1 @ [(cconn peer, m)]\<rparr>"
  have "PushToGate mp clientID ''client'' inner pid w1 = (Inr (), ?w')"
    by (rule PushToGate_sends [where gateAddr = gateAddr and k = k and g = g])
      (use assms(6-16) in \<open>simp_all add: w1_def push_key_def push_msg_def\<close>)
  moreover have "db_call (GetMongo ''myMongo'' (gDBResource (pdb (RpcFvcCount w))))
      (MongoInsertOne ''push_service'' ''safe_push_records'' (push_record clientID ''client'' inner)) (pdb (RpcFvcCount w)) =
      (Inr (DbId (BObjectID pid)), (pdb w)\<lparr>dbLog := dbLog (pdb w) @
        [(mc, MongoInsertOne ''push_service'' ''safe_push_records'' (push_record clientID ''client'' inner))]\<rparr>)"
    using GetMongo_found [OF assms(3,4)] assms(5) by simp
  ultimately have p: "Process (process_handlers mp (push_user mp) n) (H_User P_S2PPush) ?args session (RpcFvcCount w) = (None, None, ?w')"
    by (simp add: push_user_def RpcS2PPush_Process_def as_object_id_def no_rsp_def w1_def)
  have "handle_packet mp (process_handlers mp (push_user mp) (Suc n)) session
      (RpcEncode mp MSG_G2S_RPC_CALL [vu32 0, VBytes (RpcEncode mp MSG_S2P_PUSH ?args)]) w = (Inr (), ?w')"
    by (rule service_oneway_packet [OF assms(1) push_registry(1) [OF assms(2)] _ push_registry(2) [OF assms(2)] _ _ assms(19) p, where fs = RpcS2PPushReq])
      (use assms(17,18) in \<open>simp_all add: push_user_def RpcS2PPushReq_def msg_names\<close>)
  then show ?thesis using assms(13) by (intro exI [of _ ?w']) (simp add: push_handlers_def w1_def)
qed

lemma push_service_confirms:
  assumes "codec_ok mp" "start_registry (push_handlers mp (Suc n)) push_registrations = Inr (rpcMgr w)"
    "gDBResource (pdb w) ''myMongo'' = Some mc" "is_mongo mc" "length pid = 12" "length (RpcEncode mp MSG_PUSH_REPLY [VBytes pid]) < 2 ^ 32"
  shows "\<exists>w'. handle_packet mp (push_handlers mp (Suc n)) session
      (RpcEncode mp MSG_G2S_RPC_CALL [vu32 0, VBytes (RpcEncode mp MSG_PUSH_REPLY [VBytes pid])]) w = (Inr (), w')
    \<and> dbLog (pdb w') = dbLog (pdb w) @ [(mc, MongoUpdateOne ''push_service'' ''safe_push_records'' [(''_id'', BObjectID pid)]
        [(''$set'', BDoc [(''state'', BInt PUSH_RECORD_STATE_ARRIVED)])])]"
proof -
  let ?cmd = "MongoUpdateOne ''push_service'' ''safe_push_records'' [(''_id'', BObjectID pid)]
        [(''$set'', BDoc [(''state'', BInt PUSH_RECORD_STATE_ARRIVED)])]"
  let ?w' = "(RpcFvcCount w)\<lparr>pdb := (pdb w)\<lparr>dbLog := dbLog (pdb w) @ [(mc, ?cmd)]\<rparr>\<rparr>"
  have p: "Process (process_handlers mp (push_user mp) n) (H_User P_PushReply) [VBytes pid] session (RpcFvcCount w) = (None, None, ?w')"
    using GetMongo_found [OF assms(3,4)] object_id_of_self [OF assms(5)] by (simp add: push_user_def RpcPushReply_Process_def)
  have "handle_packet mp (process_handlers mp (push_user mp) (Suc n)) session
      (RpcEncode mp MSG_G2S_RPC_CALL [vu32 0, VBytes (RpcEncode mp MSG_PUSH_REPLY [VBytes pid])]) w = (Inr (), ?w')"
    by (rule service_oneway_packet [OF assms(1) push_registry(1) [OF assms(2)] _ push_registry(3) [OF assms(2)] _ _ assms(6) p, where fs = "[(''Pid'', TBytes)]"])
      (use assms(5) in \<open>simp_all add: push_user_def msg_names\<close>)
  then show ?thesis by (intro exI [of _ ?w']) (simp add: push_handlers_def)
qed

text \<open>The client runs the pushed rpc and confirms.\<close>

lemma client_handles_push:
  assumes "codec_ok mp" "rpcs (rpcMgr w) MSG_G2C_PUSH = Some (H_User S_G2CPush)" "rpcs (rpcMgr w) name = Some h" "length name < 2 ^ 32"
    "GetReqPtr (sdk_handlers mp us n) h = Some fs" "list_all2 has_type args (map snd fs)"
    "Process (sdk_handlers mp us n) h args session w = (None, rsp, w1)" "netWrite w1 = good_net" "pid \<noteq> []"
    "length pid < 2 ^ 32" "length ns < 2 ^ 32" "length (RpcEncode mp name args) < 2 ^ 32"
    "MessageEncode (RpcEncode mp MSG_C2G_RPC_ROUTE [VStr ns, VStr ''PushService'', VInt 0, VBool False,
       VBytes (RpcEncode mp MSG_PUSH_REPLY [VBytes pid])]) = Inr m" "m \<noteq> []"
  shows "handle_packet mp (sdk_handlers mp us (Suc n)) session (RpcEncode mp MSG_G2C_PUSH [VBytes pid, VStr ns, VBytes (RpcEncode mp name args)]) w =
    (Inr (), w1\<lparr>out := out w1 @ [(sconn session, m)]\<rparr>)"
proof -
  let ?bs = "concat (map (\<lambda>arg. fst (enc mp arg)) args)"
  have nm: "decode_name mp (RpcEncode mp name args) = (name, ?bs)" by (rule decode_name_RpcEncode [OF assms(1,4)])
  have f: "decode_fields mp fs ?bs = Inr args" using decode_fields_args [OF assms(1,6), of "[]"] by simp
  have "RpcG2CPush_Process mp (sdk_handlers mp us n) [VBytes pid, VStr ns, VBytes (RpcEncode mp name args)] session w =
      (None, None, w1\<lparr>out := out w1 @ [(sconn session, m)]\<rparr>)"
    using assms(3,5,7,9) rpc_send_sends [OF assms(13,14,8)] nm f
    by (simp add: RpcG2CPush_Process_def GetRpcHanderGenerator_def no_rsp_def)
  then have p: "Process (sdk_handlers mp us (Suc n)) (H_User S_G2CPush) [VBytes pid, VStr ns, VBytes (RpcEncode mp name args)] session w =
      (None, None, w1\<lparr>out := out w1 @ [(sconn session, m)]\<rparr>)"
    by (simp add: sdk_user_def)
  show ?thesis
    by (rule handle_packet_args [OF assms(1,2) _ _ _ p, where fs = RpcG2CPushReq])
      (use assms(10-12) in \<open>simp_all add: sdk_user_def RpcG2CPushReq_def msg_names\<close>)
qed

text \<open>Property C7. A safe push from end to end. A client logs in at a client gate; let \<open>v\<close> be the value the gate stores in redis for it. If redis
  then answers \<open>v\<close> to the push service, which the gate has told its address, a safe push for the client is stored as not
  arrived and sent to that gate; handled by the gate, it goes to the connection of the client; handled by the client, it runs the pushed
  rpc on exactly its arguments and sends a confirmation; handled by the gate, this goes to an instance of the push service of the
  pushing namespace; and handled there, it marks as arrived the very record the push was stored in.\<close>

theorem push_end_to_end:
  assumes "codec_ok mp" "length clientID < 2 ^ 32" "length name < 2 ^ 32" "list_all2 has_type args (map snd fs)" "length pid = 12"
    "length (Namespace (cfg wp)) < 2 ^ 32" "length (sconn sg) < 2 ^ 32" "length (RpcEncode mp name args) < 2 ^ 32"
    "length (RpcEncode mp MSG_S2P_PUSH [VStr clientID, VStr ''client'', VBool True, VBytes (RpcEncode mp name args)]) < 2 ^ 32"
    "length (RpcEncode mp MSG_PUSH_REPLY [VBytes pid]) < 2 ^ 32"
    \<comment> \<open>the gate\<close>
    "gate_rpcMgr mp intn n = Inr (rpcMgr wg)" "Service (cfg wg) = ''ClientGate''" "gDBResource (gdb wg) ''myRedis2'' = Some clg" "is_cluster clg"
    "clients (tcpServer wg) (sconn sg) = Some cl" "cconn cl = sconn sg" "netWrite wg = good_net" "remote_inv (remoteMgr wg)" "cb_wf (cbMgr wg)"
    "CHR ''/'' \<notin> set (listenAddr wg)" "CHR ''/'' \<notin> set (sconn sg)"
    "route_check mp \<lparr>rNameSpace = Namespace (cfg wp), rService = ''PushService'', rRid = 0, rIsOrdered = False,
       rInnerRpc = RpcEncode mp MSG_PUSH_REPLY [VBytes pid]\<rparr> sg wg = []"
    "remotes (remoteMgr wg) c0 = Some r0" "remoteId r0 = GetRemoteID (Namespace (cfg wp)) ''PushService''"
    \<comment> \<open>the push service\<close>
    "start_registry (push_handlers mp (Suc np)) push_registrations = Inr (rpcMgr wp)" "netWrite wp = good_net"
    "gDBResource (pdb wp) ''myMongo'' = Some mc" "is_mongo mc" "gDBResource (pdb wp) ''myRedis2'' = Some clp" "is_cluster clp"
    "dbAnswer (pdb wp) mc (MongoInsertOne ''push_service'' ''safe_push_records'' (push_record clientID ''client'' (RpcEncode mp name args)))
       = DbId (BObjectID pid)"
    "gGateAddrMap wp (listenAddr wg) = Some g" "clients (tcpServer wp) g = Some peer" "cconn peer = g"
    \<comment> \<open>the client\<close>
    "rpcs (rpcMgr wc) MSG_G2C_PUSH = Some (H_User S_G2CPush)" "rpcs (rpcMgr wc) name = Some h" "GetReqPtr (sdk_handlers mp uc nc) h = Some fs"
    "Process (sdk_handlers mp uc nc) h args sc wc = (None, rsp, wc1)" "netWrite wc1 = good_net"
    \<comment> \<open>the messages\<close>
    "push_msg mp (Namespace (cfg wp)) (sconn sg) (pid, RpcEncode mp name args) = Inr m1" "m1 \<noteq> []"
    "MessageEncode (RpcEncode mp MSG_G2C_PUSH [VBytes pid, VStr (Namespace (cfg wp)), VBytes (RpcEncode mp name args)]) = Inr m2" "m2 \<noteq> []"
    "MessageEncode (RpcEncode mp MSG_C2G_RPC_ROUTE [VStr (Namespace (cfg wp)), VStr ''PushService'', VInt 0, VBool False,
       VBytes (RpcEncode mp MSG_PUSH_REPLY [VBytes pid])]) = Inr m3" "m3 \<noteq> []"
    "MessageEncode (RpcEncode mp MSG_G2S_RPC_CALL [vu32 0, VBytes (RpcEncode mp MSG_PUSH_REPLY [VBytes pid])]) = Inr m4" "m4 \<noteq> []"
  shows "\<exists>wg1 v. handle_packet mp (gate_handlers mp intn n) sg (RpcEncode mp MSG_GATE_LOGIN [VStr clientID]) wg = (Inr (), wg1)
    \<and> dbLog (gdb wg1) = dbLog (gdb wg) @ [(clg, RedisSet (''c_'' @ clientID) v)]
    \<and> (dbAnswer (pdb wp) clp (RedisGet (''c_'' @ clientID)) = DbString v \<longrightarrow> (\<exists>wp1 wg2 wg3 r wp2.
         handle_packet mp (push_handlers mp (Suc np)) ss (RpcEncode mp MSG_G2S_RPC_CALL [vu32 0, VBytes (RpcEncode mp MSG_S2P_PUSH
           [VStr clientID, VStr ''client'', VBool True, VBytes (RpcEncode mp name args)])]) wp = (Inr (), wp1)
       \<and> (mc, MongoInsertOne ''push_service'' ''safe_push_records'' (push_record clientID ''client'' (RpcEncode mp name args))) \<in> set (dbLog (pdb wp1))
       \<and> out wp1 = out wp @ [(g, m1)]
       \<and> handle_packet mp (gate_handlers mp intn n) sp (RpcEncode mp MSG_P2G_PUSH [VStr (sconn sg), VBytes pid, VStr (Namespace (cfg wp)),
           VBytes (RpcEncode mp name args)]) wg1 = (Inr (), wg2) \<and> out wg2 = out wg1 @ [(sconn sg, m2)]
       \<and> handle_packet mp (sdk_handlers mp uc (Suc nc)) sc (RpcEncode mp MSG_G2C_PUSH [VBytes pid, VStr (Namespace (cfg wp)),
           VBytes (RpcEncode mp name args)]) wc = (Inr (), wc1\<lparr>out := out wc1 @ [(sconn sc, m3)]\<rparr>)
       \<and> handle_packet mp (gate_handlers mp intn n) sg (RpcEncode mp MSG_C2G_RPC_ROUTE [VStr (Namespace (cfg wp)), VStr ''PushService'', VInt 0, VBool False,
           VBytes (RpcEncode mp MSG_PUSH_REPLY [VBytes pid])]) wg2 = (Inr (), wg3)
       \<and> out wg3 = out wg2 @ [(rconn r, m4)] \<and> remotes (remoteMgr wg) (rconn r) = Some r \<and> remoteId r = GetRemoteID (Namespace (cfg wp)) ''PushService''
       \<and> handle_packet mp (push_handlers mp (Suc np)) ss2 (RpcEncode mp MSG_G2S_RPC_CALL [vu32 0, VBytes (RpcEncode mp MSG_PUSH_REPLY [VBytes pid])]) wp1
           = (Inr (), wp2)
       \<and> dbLog (pdb wp2) = dbLog (pdb wp1) @ [(mc, MongoUpdateOne ''push_service'' ''safe_push_records'' [(''_id'', BObjectID pid)]
           [(''$set'', BDoc [(''state'', BInt PUSH_RECORD_STATE_ARRIVED)])])]))"
proof -
  let ?v = "listenAddr wg @ ''/'' @ sconn sg" and ?inner = "RpcEncode mp name args"
  define wg1 where "wg1 = wg\<lparr>gdb := (gdb wg)\<lparr>dbLog := dbLog (gdb wg) @ [(clg, RedisSet (''c_'' @ clientID) ?v)]\<rparr>\<rparr>"
  have login: "handle_packet mp (gate_handlers mp intn n) sg (RpcEncode mp MSG_GATE_LOGIN [VStr clientID]) wg = (Inr (), wg1)"
    unfolding wg1_def by (rule gate_login_packet [OF assms(1,11,12,2,13,14)])
  have f1: "rpcMgr wg1 = rpcMgr wg" "tcpServer wg1 = tcpServer wg" "netWrite wg1 = netWrite wg" "remoteMgr wg1 = remoteMgr wg" "cbMgr wg1 = cbMgr wg"
    by (simp_all add: wg1_def)
  define wg2 where "wg2 = wg1\<lparr>out := out wg1 @ [(sconn sg, m2)]\<rparr>"
  have f2: "gate_rpcMgr mp intn n = Inr (rpcMgr wg2)" "remote_inv (remoteMgr wg2)" "cb_wf (cbMgr wg2)" "netWrite wg2 = good_net"
    "remoteMgr wg2 = remoteMgr wg"
    using assms(11,17-19) f1 by (simp_all add: wg2_def)
  have "route_check mp req sg wg2 = route_check mp req sg wg" for req by (simp add: route_check_def wg2_def wg1_def)
  note chk = trans [OF this assms(22)]
  have ps: "length ''PushService'' < 2 ^ 32" by simp
  have "length pid < 2 ^ 32" "pid \<noteq> []" using assms(5) by auto
  note pid = this
  have push: "handle_packet mp (gate_handlers mp intn n) sp (RpcEncode mp MSG_P2G_PUSH [VStr (sconn sg), VBytes pid, VStr (Namespace (cfg wp)),
           VBytes ?inner]) wg1 = (Inr (), wg2)"
    unfolding wg2_def by (rule gate_push_packet [OF assms(1), where cl = cl]) (use assms pid(1) f1 in simp_all)
  obtain r wg3 where fwd: "handle_packet mp (gate_handlers mp intn n) sg (RpcEncode mp MSG_C2G_RPC_ROUTE [VStr (Namespace (cfg wp)),
       VStr ''PushService'', VInt 0, VBool False, VBytes (RpcEncode mp MSG_PUSH_REPLY [VBytes pid])]) wg2 = (Inr (), wg3)"
    "out wg3 = out wg2 @ [(rconn r, m4)]" "remotes (remoteMgr wg) (rconn r) = Some r" "remoteId r = GetRemoteID (Namespace (cfg wp)) ''PushService''"
    using gate_forwards_oneway [OF assms(1) f2(1-4) chk assms(23,24) [folded f2(5)] assms(6) ps assms(10,46,47)] unfolding f2(5) by blast
  have client: "handle_packet mp (sdk_handlers mp uc (Suc nc)) sc (RpcEncode mp MSG_G2C_PUSH [VBytes pid, VStr (Namespace (cfg wp)),
           VBytes ?inner]) wc = (Inr (), wc1\<lparr>out := out wc1 @ [(sconn sc, m3)]\<rparr>)"
    by (rule client_handles_push [OF assms(1,35,36,3,37,4,38,39) pid(2,1) assms(6,8,44,45)])
  have "\<exists>wp1 wp2. handle_packet mp (push_handlers mp (Suc np)) ss (RpcEncode mp MSG_G2S_RPC_CALL [vu32 0, VBytes (RpcEncode mp MSG_S2P_PUSH
           [VStr clientID, VStr ''client'', VBool True, VBytes ?inner])]) wp = (Inr (), wp1)
       \<and> (mc, MongoInsertOne ''push_service'' ''safe_push_records'' (push_record clientID ''client'' ?inner)) \<in> set (dbLog (pdb wp1))
       \<and> out wp1 = out wp @ [(g, m1)]
       \<and> handle_packet mp (push_handlers mp (Suc np)) ss2 (RpcEncode mp MSG_G2S_RPC_CALL [vu32 0, VBytes (RpcEncode mp MSG_PUSH_REPLY [VBytes pid])]) wp1
           = (Inr (), wp2)
       \<and> dbLog (pdb wp2) = dbLog (pdb wp1) @ [(mc, MongoUpdateOne ''push_service'' ''safe_push_records'' [(''_id'', BObjectID pid)]
           [(''$set'', BDoc [(''state'', BInt PUSH_RECORD_STATE_ARRIVED)])])]"
    if v: "dbAnswer (pdb wp) clp (RedisGet (''c_'' @ clientID)) = DbString ?v"
  proof -
    obtain wp1 where w1: "handle_packet mp (push_handlers mp (Suc np)) ss (RpcEncode mp MSG_G2S_RPC_CALL [vu32 0, VBytes (RpcEncode mp MSG_S2P_PUSH
           [VStr clientID, VStr ''client'', VBool True, VBytes ?inner])]) wp = (Inr (), wp1)" "out wp1 = out wp @ [(g, m1)]" "rpcMgr wp1 = rpcMgr wp"
      "dbLog (pdb wp1) = dbLog (pdb wp) @ [(mc, MongoInsertOne ''push_service'' ''safe_push_records'' (push_record clientID ''client'' ?inner)),
        (clp, RedisGet (''c_'' @ clientID))]" "gDBResource (pdb wp1) = gDBResource (pdb wp)"
      using push_service_stores_and_sends [OF assms(1,25,27,28,31,29,30) v assms(20,21,32-34,26,40,41,2,8,9)] by blast
    with push_service_confirms [OF assms(1), of np wp1 mc pid ss2] assms(25,27,28,5,10) show ?thesis by auto
  qed
  with login push fwd client show ?thesis
    by (intro exI [of _ wg1] exI [of _ ?v]) (auto simp: wg1_def [THEN arg_cong [where f = gdb]] wg2_def)
qed

text \<open>The client program, a client gate and a push service, up to the confirmation of one push.\<close>

lemma client_registry_ok:
  "\<exists>r. client_registry mp n = Inr r \<and> rpcs r MSG_G2C_PUSH = Some (H_User S_G2CPush) \<and> rpcs r ''push_test'' = Some (H_User (S_User C_PushTest))"
  by (simp add: client_registry_def sdk_init_def CreateSimpleRpcMgr_def default_handlers_def sdk_registrations_def RegistRpcHandler_def
      RegistRpcHandlerForce_def empty_rpcMgr_def msg_names Let_def)

definition demo_pushed :: client_world where
  "demo_pushed = world.extend (Init demo_cfg SERVER_IDENTITY_SERVICE [] (projr (client_registry mp_codec 1)) 0 good_net)
     \<lparr>cbCalls = [], push_fvc = 0\<rparr>"

lemma demo_pushed_ok:
  "rpcs (rpcMgr demo_pushed) MSG_G2C_PUSH = Some (H_User S_G2CPush)" "rpcs (rpcMgr demo_pushed) ''push_test'' = Some (H_User (S_User C_PushTest))"
  "netWrite demo_pushed = good_net" "push_fvc demo_pushed = 0" "out demo_pushed = []"
  using client_registry_ok [of mp_codec 1]
  by (auto simp: demo_pushed_def world.defs sdk_world.defs client_world.defs Init_def)

definition demo_push_gate :: gate_world where
  "demo_push_gate = demo_verified\<lparr>gClientAccess := [''ns:PushService'' \<mapsto> [MSG_PUSH_REPLY \<mapsto> True]],
     remoteMgr := ConnectRemote ''ns'' ''PushService'' ''10.0.0.7'' 80 0 CreateRemoteMgr\<rparr>"

lemma demo_push_gate_ok:
  "gate_rpcMgr mp_codec id 1 = Inr (rpcMgr demo_push_gate)" "Service (cfg demo_push_gate) = ''ClientGate''"
  "gDBResource (gdb demo_push_gate) ''myRedis2'' = Some (RedisClusterClient [''a:1''])" "cb_wf (cbMgr demo_push_gate)"
  "clients (tcpServer demo_push_gate) = [''9.9.9.9:1'' \<mapsto> demo_client]" "netWrite demo_push_gate = good_net"
  "listenAddr demo_push_gate = ''1.1.1.1:8888''" "out demo_push_gate = []"
  using demo_verified_ok(1)
  by (simp_all add: demo_push_gate_def demo_verified_def demo_gate_def world.defs Init_def demo_cfg_def demo_server_client)

lemma demo_push_gate_remote:
  "remote_inv (remoteMgr demo_push_gate)"
  "\<exists>r. remotes (remoteMgr demo_push_gate) (GenConnIDByIPPort ''10.0.0.7'' 80) = Some r \<and> remoteId r = GetRemoteID ''ns'' ''PushService''"
proof -
  show "remote_inv (remoteMgr demo_push_gate)" by (simp add: demo_push_gate_def remote_inv_ConnectRemote)
  show "\<exists>r. remotes (remoteMgr demo_push_gate) (GenConnIDByIPPort ''10.0.0.7'' 80) = Some r \<and> remoteId r = GetRemoteID ''ns'' ''PushService''"
    by (simp add: demo_push_gate_def ConnectRemote_def CreateRemoteMgr_def Let_def AddElement_def new_LoadBalancer_def elems_def)
qed

definition demo_pusher :: push_world where
  "demo_pusher = demo_push\<lparr>rpcMgr := projr (start_registry (push_handlers mp_codec 1) push_registrations),
     gGateAddrMap := [''1.1.1.1:8888'' \<mapsto> ''9.9.9.9:1''],
     pdb := (pdb demo_push)\<lparr>dbAnswer := (\<lambda>c cmd. case c of
         RedisClusterClient _ \<Rightarrow> DbString ''1.1.1.1:8888/9.9.9.9:1'' | _ \<Rightarrow> DbId (BObjectID (replicate 12 1)))\<rparr>\<rparr>"

lemma demo_pusher_ok:
  "start_registry (push_handlers mp_codec (Suc 0)) push_registrations = Inr (rpcMgr demo_pusher)" "netWrite demo_pusher = good_net" "out demo_pusher = []"
  "Namespace (cfg demo_pusher) = ''ns''" "gDBResource (pdb demo_pusher) ''myMongo'' = Some (MongoClient ''m:1'')"
  "gDBResource (pdb demo_pusher) ''myRedis2'' = Some (RedisClusterClient [''a:1''])" "gGateAddrMap demo_pusher = [''1.1.1.1:8888'' \<mapsto> ''9.9.9.9:1'']"
  "clients (tcpServer demo_pusher) = [''9.9.9.9:1'' \<mapsto> demo_client]"
  "dbAnswer (pdb demo_pusher) (MongoClient a) cmd = DbId (BObjectID (replicate 12 1))"
  "dbAnswer (pdb demo_pusher) (RedisClusterClient b) cmd = DbString ''1.1.1.1:8888/9.9.9.9:1''"
  using start_registry_ok [of push_registrations "push_handlers mp_codec 1"]
  by (auto simp: demo_pusher_def demo_push_simps push_registrations_def default_handlers_def msg_names demo_cfg_def)

lemma demo_push_messages:
  fixes inner :: bytes
  assumes "length inner \<le> 100"
  shows "\<exists>m. push_msg mp_codec ''ns'' ''9.9.9.9:1'' (replicate 12 1, inner) = Inr m \<and> m \<noteq> []"
  "\<exists>m. MessageEncode (RpcEncode mp_codec MSG_G2C_PUSH [VBytes (replicate 12 1), VStr ''ns'', VBytes inner]) = Inr m \<and> m \<noteq> []"
  "\<exists>m. MessageEncode (RpcEncode mp_codec MSG_C2G_RPC_ROUTE [VStr ''ns'', VStr ''PushService'', VInt 0, VBool False, VBytes inner]) = Inr m \<and> m \<noteq> []"
  "\<exists>m. MessageEncode (RpcEncode mp_codec MSG_G2S_RPC_CALL [vu32 0, VBytes inner]) = Inr m \<and> m \<noteq> []"
  using assms by (simp_all add: push_msg_def MessageEncode_ok RpcEncode_def mp_codec_def put_str_def msg_names vu32_def be32_def)

theorem push_end_to_end_witness:
  "\<exists>wc2 m3 wp1 wp2. handle_packet mp_codec (push_handlers mp_codec 1) demo_session (RpcEncode mp_codec MSG_G2S_RPC_CALL [vu32 0,
       VBytes (RpcEncode mp_codec MSG_S2P_PUSH [VStr ''client0'', VStr ''client'', VBool True,
         VBytes (RpcEncode mp_codec ''push_test'' [VInt 10, VStr ''hello''])])]) demo_pusher = (Inr (), wp1)
     \<and> handle_packet mp_codec (sdk_handlers mp_codec client_user 1) \<lparr>styp = SessionRemote, sconn = ''1.1.1.1:8888'', sid = 0\<rparr>
       (RpcEncode mp_codec MSG_G2C_PUSH [VBytes (replicate 12 1), VStr ''ns'', VBytes (RpcEncode mp_codec ''push_test'' [VInt 10, VStr ''hello''])])
       demo_pushed = (Inr (), wc2) \<and> push_fvc wc2 = 1 \<and> out wc2 = [(''1.1.1.1:8888'', m3)]
     \<and> handle_packet mp_codec (push_handlers mp_codec 1) demo_session (RpcEncode mp_codec MSG_G2S_RPC_CALL [vu32 0,
       VBytes (RpcEncode mp_codec MSG_PUSH_REPLY [VBytes (replicate 12 1)])]) wp1 = (Inr (), wp2)
     \<and> dbLog (pdb wp2) = dbLog (pdb wp1) @ [(MongoClient ''m:1'', MongoUpdateOne ''push_service'' ''safe_push_records''
         [(''_id'', BObjectID (replicate 12 1))] [(''$set'', BDoc [(''state'', BInt PUSH_RECORD_STATE_ARRIVED)])])]"
proof -
  let ?inner = "RpcEncode mp_codec ''push_test'' [VInt 10, VStr ''hello'']" and ?pid = "replicate 12 1 :: byte list"
  let ?ack = "RpcEncode mp_codec MSG_PUSH_REPLY [VBytes ?pid]"
  let ?sc = "\<lparr>styp = SessionRemote, sconn = ''1.1.1.1:8888'', sid = 0\<rparr>"
  have len: "length ?inner \<le> 100" "length ?ack \<le> 100"
    "length (RpcEncode mp_codec MSG_S2P_PUSH [VStr ''client0'', VStr ''client'', VBool True, VBytes ?inner]) < 2 ^ 32"
    by (simp_all add: RpcEncode_def mp_codec_def put_str_def be32_def msg_names)
  obtain m1 m2 where m12: "push_msg mp_codec ''ns'' ''9.9.9.9:1'' (?pid, ?inner) = Inr m1" "m1 \<noteq> []"
    "MessageEncode (RpcEncode mp_codec MSG_G2C_PUSH [VBytes ?pid, VStr ''ns'', VBytes ?inner]) = Inr m2" "m2 \<noteq> []"
    using demo_push_messages(1,2) [OF len(1)] by blast
  obtain m3 m4 where m34: "MessageEncode (RpcEncode mp_codec MSG_C2G_RPC_ROUTE [VStr ''ns'', VStr ''PushService'', VInt 0, VBool False, VBytes ?ack]) = Inr m3"
    "m3 \<noteq> []" "MessageEncode (RpcEncode mp_codec MSG_G2S_RPC_CALL [vu32 0, VBytes ?ack]) = Inr m4" "m4 \<noteq> []"
    using demo_push_messages(3,4) [OF len(2)] by blast
  obtain r0 where r0: "remotes (remoteMgr demo_push_gate) (GenConnIDByIPPort ''10.0.0.7'' 80) = Some r0" "remoteId r0 = GetRemoteID ''ns'' ''PushService''"
    using demo_push_gate_remote(2) by blast
  have chk: "route_check mp_codec \<lparr>rNameSpace = ''ns'', rService = ''PushService'', rRid = 0, rIsOrdered = False, rInnerRpc = ?ack\<rparr>
      demo_session demo_push_gate = []"
    by (simp add: route_check_def demo_push_gate_def decode_name_RpcEncode [OF codec_ok_mp] msg_names)
  have typed: "list_all2 has_type [VInt 10, VStr ''hello''] (map snd RpcPushTest)"
    by (simp add: RpcPushTest_def has_type_def fits_def)
  have proc: "GetReqPtr (sdk_handlers mp_codec client_user 0) (H_User (S_User C_PushTest)) = Some RpcPushTest"
    "Process (sdk_handlers mp_codec client_user 0) (H_User (S_User C_PushTest)) [VInt 10, VStr ''hello''] ?sc demo_pushed =
      (None, None, demo_pushed\<lparr>push_fvc := 1\<rparr>)"
    by (simp_all add: sdk_user_def client_user_def demo_pushed_ok)
  note T = push_end_to_end [OF codec_ok_mp, of "''client0''" "''push_test''" "[VInt 10, VStr ''hello'']" RpcPushTest ?pid demo_pusher demo_session
      id 1 demo_push_gate "RedisClusterClient [''a:1'']" demo_client "GenConnIDByIPPort ''10.0.0.7'' 80" r0 0 "MongoClient ''m:1''"
      "RedisClusterClient [''a:1'']" "''9.9.9.9:1''" demo_client demo_pushed "H_User (S_User C_PushTest)" client_user 0 ?sc None
      "demo_pushed\<lparr>push_fvc := 1\<rparr>" m1 m2 m3 m4 demo_session demo_session demo_session]
  let ?w = "handle_packet mp_codec (gate_handlers mp_codec id 1) demo_session (RpcEncode mp_codec MSG_GATE_LOGIN [VStr ''client0'']) demo_push_gate"
  obtain wg1 where login: "?w = (Inr (), wg1)" "dbLog (gdb wg1) = dbLog (gdb demo_push_gate) @
      [(RedisClusterClient [''a:1''], RedisSet ''c_client0'' ''1.1.1.1:8888/9.9.9.9:1'')]"
    using gate_login_packet [OF codec_ok_mp demo_push_gate_ok(1,2) _ demo_push_gate_ok(3), of "''client0''" demo_session]
    by (simp add: demo_push_gate_ok)
  have "\<exists>wp1 wp2. handle_packet mp_codec (push_handlers mp_codec (Suc 0)) demo_session (RpcEncode mp_codec MSG_G2S_RPC_CALL [vu32 0,
       VBytes (RpcEncode mp_codec MSG_S2P_PUSH [VStr ''client0'', VStr ''client'', VBool True, VBytes ?inner])]) demo_pusher = (Inr (), wp1)
     \<and> handle_packet mp_codec (sdk_handlers mp_codec client_user (Suc 0)) ?sc
       (RpcEncode mp_codec MSG_G2C_PUSH [VBytes ?pid, VStr ''ns'', VBytes ?inner]) demo_pushed =
         (Inr (), demo_pushed\<lparr>push_fvc := Suc 0, out := [(''1.1.1.1:8888'', m3)]\<rparr>)
     \<and> handle_packet mp_codec (push_handlers mp_codec (Suc 0)) demo_session (RpcEncode mp_codec MSG_G2S_RPC_CALL [vu32 0,
       VBytes (RpcEncode mp_codec MSG_PUSH_REPLY [VBytes ?pid])]) wp1 = (Inr (), wp2)
     \<and> dbLog (pdb wp2) = dbLog (pdb wp1) @ [(MongoClient ''m:1'', MongoUpdateOne ''push_service'' ''safe_push_records''
         [(''_id'', BObjectID ?pid)] [(''$set'', BDoc [(''state'', BInt PUSH_RECORD_STATE_ARRIVED)])])]"
    using T typed len m12 m34 r0 chk proc demo_push_gate_remote(1) demo_push_gate_ok(1) [unfolded One_nat_def]
    by (simp add: login [unfolded One_nat_def] demo_push_gate_ok(2-) demo_pusher_ok demo_pushed_ok demo_client_def del: sdk_handlers.simps) blast
  then show ?thesis
    by (intro exI [of _ "demo_pushed\<lparr>push_fvc := Suc 0, out := [(''1.1.1.1:8888'', m3)]\<rparr>"] exI [of _ m3]) (simp del: sdk_handlers.simps)
qed

section \<open>Types\<close>

text \<open>Property C26. The test client and the services agree on the types of their calls: for every result of the random generators
  (\<open>rand.Int31\<close> is below \<open>2 ^ 31\<close>, \<open>rand.Int63\<close> below \<open>2 ^ 63\<close>), the arguments of the test calls have, in number, order and type, the fields of
  the request structs of service A and, for \<open>rpc_b\<close>, of service B, so the handlers read back exactly the values sent; the same holds
  for the rpc that service A pushes and the push handler of the client.\<close>

theorem test_calls_well_typed:
  assumes "codec_ok mp" "i < 2 ^ 31" "l1 < 2 ^ 31" "l2 < 2 ^ 31" "k < 2 ^ 63"
  shows "GetReqPtr (service_a_user mp intn rsps) A_RpcA = Some RpcAReq
    \<and> decode_fields mp RpcAReq (snd (decode_name mp (RpcEncode mp ''rpc_a'' (test_a_args i f k l1 l2)))) = Inr (test_a_args i f k l1 l2)
    \<and> GetReqPtr (service_a_user mp intn rsps) A_RpcB = Some RpcBReq \<and> GetReqPtr service_b_user B_RpcB = Some RpcBReq
    \<and> decode_fields mp RpcBReq (snd (decode_name mp (RpcEncode mp ''rpc_b'' (test_b_args i)))) = Inr (test_b_args i)
    \<and> GetReqPtr client_user C_PushTest = Some RpcPushTest
    \<and> decode_fields mp RpcPushTest (snd (decode_name mp (RpcEncode mp ''push_test'' [VInt 10, VStr ''hello'']))) = Inr [VInt 10, VStr ''hello'']"
proof -
  have dec: "decode_fields mp fs (snd (decode_name mp (RpcEncode mp name args))) = Inr args"
    if "list_all2 has_type args (map snd fs)" "length name < 2 ^ 32" for fs name args
    using decode_fields_args [OF assms(1) that(1), of "[]"] decode_name_RpcEncode [OF assms(1) that(2), of args] by simp
  have "list_all2 has_type (test_a_args i f k l1 l2) (map snd RpcAReq)" "list_all2 has_type (test_b_args i) (map snd RpcBReq)"
    "list_all2 has_type [VInt 10, VStr ''hello''] (map snd RpcPushTest)"
    using assms(2-5) by (simp_all add: test_a_args_def test_b_args_def RpcAReq_def RpcBReq_def RpcPushTest_def has_type_def fits_def)
  then show ?thesis by (simp add: dec service_a_user_def service_b_user_def client_user_def)
qed

theorem test_calls_well_typed_witness:
  "decode_fields mp_codec RpcAReq (snd (decode_name mp_codec (RpcEncode mp_codec ''rpc_a'' (test_a_args 5 0 (2 ^ 63 - 1) 0 (2 ^ 31 - 1))))) =
     Inr (test_a_args 5 0 (2 ^ 63 - 1) 0 (2 ^ 31 - 1))"
  using test_calls_well_typed [OF codec_ok_mp, of 5 0 "2 ^ 31 - 1" "2 ^ 63 - 1" id "[]" 0] by simp

end
