(* ===== verification/Process_System.thy ===== *)
theory Process_System
  imports Rpc_Call Etcd_Driver
begin

text \<open>
  A process as a whole: the steps of its goroutines on the shared state, whatever handlers it registers. The read loops
  of clients and remotes hand packets to \<open>RpcDecode\<close>, the workers of the task pool run the queued tasks, the listener
  accepts, the etcd driver adds and removes remotes, the callback manager ticks, \<open>Stop\<close> marks the clients. The
  interleaving is arbitrary; a step is one packet, one task or one event. What the peers send is not restricted. (The
  address of an accepted connection is not empty.)

  The second component of the state holds the structs of the \<open>Remote.HandleRead\<close> goroutines that are no entry of the
  remote manager any more: \<open>OnRemoteDisappear\<close> deletes the entry of a connection and leaves its goroutine running.
\<close>

section \<open>The steps\<close>

type_synonym ('h, 'b) process = "('h, 'b) world_scheme \<times> Remote list"

text \<open>
  \<open>A\<close> says which service may use which address; an etcd event of a service for another address does not occur. With
  \<open>A\<close> always true the events are not restricted.
\<close>

fun event_service :: "remote_event \<Rightarrow> REMOTE_ID" where
  "event_service (Discover ns svc i p) = GetRemoteID ns svc"
| "event_service (Disappear ns svc i p) = GetRemoteID ns svc"

fun event_addr :: "remote_event \<Rightarrow> CONN_ID" where
  "event_addr (Discover ns svc i p) = GenConnIDByIPPort i p"
| "event_addr (Disappear ns svc i p) = GenConnIDByIPPort i p"

text \<open>The goroutines that go on without an entry when the entry of an address is deleted.\<close>

definition orphaned :: "CONN_ID \<Rightarrow> RemoteMgr \<Rightarrow> RemoteMgr \<Rightarrow> Remote list" where
  "orphaned c m m' = (case remotes m c of None \<Rightarrow> [] | Some r \<Rightarrow> if remotes m' c = None then [r] else [])"

inductive proc_step ::
  "msgpack \<Rightarrow> ('h, ('h, 'b) world_scheme) handlers \<Rightarrow> (conn \<Rightarrow> ('h, 'b) world_scheme \<Rightarrow> ('h, 'b) world_scheme) \<Rightarrow>
   (nat \<Rightarrow> string \<Rightarrow> ('h, 'b) world_scheme \<Rightarrow> ('h, 'b) world_scheme) \<Rightarrow> (REMOTE_ID \<Rightarrow> CONN_ID \<Rightarrow> bool) \<Rightarrow>
   ('h, 'b) process \<Rightarrow> ('h, 'b) process \<Rightarrow> bool"
  for mp hs busi cf A where
  packet: "RpcDecode mp hs session buf w = (Inr (), w') \<Longrightarrow> proc_step mp hs busi cf A (w, os) (w', os)"
| session: "CreateSession ty c w = (s, w') \<Longrightarrow> proc_step mp hs busi cf A (w, os) (w', os)"
| heart_beat: "HeartBeat mp c w = (Inr ok, w') \<Longrightarrow> proc_step mp hs busi cf A (w, os) (w', os)"
| client_read: "clients (tcpServer w) k = Some c \<Longrightarrow> recv_wf b \<Longrightarrow>
    proc_step mp hs busi cf A (w, os) (set_client k (c\<lparr>lastActiveTime := t, crecv := b\<rparr>) w, os)"
| client_close: "proc_step mp hs busi cf A (w, os) (onClientClose k w, os)"
| remote_read: "remotes (remoteMgr w) k = Some r \<Longrightarrow> recv_wf b \<Longrightarrow>
    proc_step mp hs busi cf A (w, os) (set_remote k (r\<lparr>rrecv := b, rlastActiveTime := t\<rparr>) w, os)"
| remote_close: "remotes (remoteMgr w) (rconn r) = Some r \<Longrightarrow> remote_exit r w = (Inr Break, w') \<Longrightarrow>
    proc_step mp hs busi cf A (w, os) (w', os)"
| orphan_read: "r \<in> set os \<Longrightarrow> recv_wf b \<Longrightarrow>
    proc_step mp hs busi cf A (w, os) (w, r\<lparr>rrecv := b, rlastActiveTime := t\<rparr> # remove1 r os)"
| orphan_close: "r \<in> set os \<Longrightarrow> remote_exit r w = (Inr Break, w') \<Longrightarrow>
    proc_step mp hs busi cf A (w, os) (w', orphaned (rconn r) (remoteMgr w) (remoteMgr w') @ remove1 r os)"
| event: "run_remote_event dial t ev (remoteMgr w) = Inr m \<Longrightarrow> A (event_service ev) (event_addr ev) \<Longrightarrow>
    proc_step mp hs busi cf A (w, os) (w\<lparr>remoteMgr := m\<rparr>, orphaned (event_addr ev) (remoteMgr w) m @ os)"
| accept: "accept_conn mp busi c w = (Inr (), w') \<Longrightarrow> c \<noteq> [] \<Longrightarrow> proc_step mp hs busi cf A (w, os) (w', os)"
| stop: "proc_step mp hs busi cf A (w, os) (w\<lparr>tcpServer := Stop_begin (tcpServer w)\<rparr>, os)"
| tick: "callback_tick cf w = (Inr (), w') \<Longrightarrow> proc_step mp hs busi cf A (w, os) (w', os)"
| clock: "now w \<le> t \<Longrightarrow> proc_step mp hs busi cf A (w, os) (w\<lparr>now := t\<rparr>, os)"
| take_task: "worker_take (gTaskPool w) = Some (x, p) \<Longrightarrow> proc_step mp hs busi cf A (w, os) (w\<lparr>gTaskPool := p\<rparr>, os)"
| run: "x \<in> set (running (gTaskPool w)) \<Longrightarrow> run_task mp hs x w = (Inr (), w') \<Longrightarrow>
    proc_step mp hs busi cf A (w, os) (w'\<lparr>gTaskPool := worker_done x (gTaskPool w')\<rparr>, os)"
| take_separate: "separate_take x (gTaskPool w) = Some p \<Longrightarrow> proc_step mp hs busi cf A (w, os) (w\<lparr>gTaskPool := p\<rparr>, os)"
| run_separate: "sepRunning (gTaskPool w) = Some x \<Longrightarrow> run_task mp hs x w = (Inr (), w') \<Longrightarrow>
    proc_step mp hs busi cf A (w, os) (w'\<lparr>gTaskPool := separate_done (gTaskPool w')\<rparr>, os)"

definition proc_run ::
  "msgpack \<Rightarrow> ('h, ('h, 'b) world_scheme) handlers \<Rightarrow> (conn \<Rightarrow> ('h, 'b) world_scheme \<Rightarrow> ('h, 'b) world_scheme) \<Rightarrow>
   (nat \<Rightarrow> string \<Rightarrow> ('h, 'b) world_scheme \<Rightarrow> ('h, 'b) world_scheme) \<Rightarrow> (REMOTE_ID \<Rightarrow> CONN_ID \<Rightarrow> bool) \<Rightarrow>
   ('h, 'b) process \<Rightarrow> ('h, 'b) process \<Rightarrow> bool" where
  "proc_run mp hs busi cf A = (proc_step mp hs busi cf A)\<^sup>*\<^sup>*"

lemma proc_run_refl [simp, intro]: "proc_run mp hs busi cf A p p"
  by (simp add: proc_run_def)

lemma proc_run_step: "proc_step mp hs busi cf A p q \<Longrightarrow> proc_run mp hs busi cf A p q"
  unfolding proc_run_def by (rule r_into_rtranclp)

lemma proc_run_trans: "proc_run mp hs busi cf A p q \<Longrightarrow> proc_run mp hs busi cf A q r \<Longrightarrow> proc_run mp hs busi cf A p r"
  unfolding proc_run_def by (rule rtranclp_trans)

section \<open>The read loops take these steps\<close>

lemma recv_decode_run:
  assumes "recv_decode (packet_handler mp hs session) r w = Inr (r', w')"
  shows "proc_run mp hs busi cf A (w, os) (w', os)"
proof (rule recv_decode_rel [where R = "\<lambda>w w'. proc_run mp hs busi cf A (w, os) (w', os)", OF _ _ _ assms])
  show "reflp (\<lambda>w w'. proc_run mp hs busi cf A (w, os) (w', os))" by (simp add: reflp_def)
  show "transp (\<lambda>w w'. proc_run mp hs busi cf A (w, os) (w', os))" unfolding transp_def by (blast intro: proc_run_trans)
  show "proc_run mp hs busi cf A (s, os) (s', os)" if "packet_handler mp hs session b s = Inr s'" for b s s'
    using that by (auto simp: packet_handler_def split: prod.splits sum.splits intro!: proc_run_step packet)
qed

lemma recv_decode_wf:
  assumes "recv_wf r" "length d \<le> recv_space r" "recv_decode rd (recv_fill r d) s = Inr (r', s')"
  shows "recv_wf r'"
proof -
  obtain r1 where "recv_wf r1" "recv_decode rd (recv_fill r d) s =
      res_bind (deliver rd (fst (frames (content r @ d))) s) (\<lambda>s'. Inr (r1, s'))"
    using recv_decode_fill [OF assms(1,2), of rd s] by blast
  with assms(3) show ?thesis by (cases "deliver rd (fst (frames (content r @ d))) s") auto
qed

lemma idle_check_run:
  "idle_check mp c t w = (Inr x, w') \<Longrightarrow> proc_run mp hs busi cf A (w, os) (w', os) \<and> remoteMgr w' = remoteMgr w"
  using rpc_send_frame [of mp "Some c" MSG_HEART_BEAT_REQ "[]" w]
  by (auto simp: idle_check_def HeartBeat_def split: if_splits prod.splits sum.splits
      intro!: proc_run_step heart_beat)

text \<open>One pass of the goroutine of a client. The network fills at most the free part of the buffer.\<close>

theorem client_iteration_run:
  assumes "client_iteration mp hs k rd w = (Inr x, w')" "clients (tcpServer w) k = Some c" "recv_wf (crecv c)"
    "length (rdata rd) \<le> recv_space (crecv c)"
  shows "proc_run mp hs busi cf A (w, os) (w', os)"
proof -
  let ?run = "\<lambda>w w'. proc_run mp hs busi cf A (w, os) (w', os)"
  obtain y w1 where h: "TcpClient_HandleRead mp hs k rd w = (y, w1)" by fastforce
  have "?run w w1" if y: "y = Inr z" for z
  proof (cases "state c = TcpClientState_EXIT \<or> rerr rd = OtherErr \<or> (rerr rd \<noteq> TimeoutErr \<and> rdata rd = [])")
    case True
    then consider "w1 = w" | "idle_check mp (cconn c) (lastActiveTime c) w = (Inr z, w1)"
      using h assms(2) y by (auto simp: TcpClient_HandleRead_def split: if_splits)
    then show ?thesis using idle_check_run [of mp "cconn c" "lastActiveTime c" w z w1] by cases simp_all
  next
    case False
    let ?w1 = "set_client k (c\<lparr>lastActiveTime := now w, crecv := crecv c\<rparr>) w"
    have 1: "?run w ?w1" by (rule proc_run_step [OF client_read [OF assms(2,3)]])
    show ?thesis
    proof (cases "rerr rd = TimeoutErr")
      case True
      then have "idle_check mp (cconn c) (lastActiveTime c) w = (Inr z, w1)"
        using h assms(2) y False by (simp add: TcpClient_HandleRead_def)
      then show ?thesis using idle_check_run by blast
    next
      case no: False
      show ?thesis
      proof (cases "remainLen (recv_fill (crecv c) (rdata rd)) > RECV_BUF_MAX_LEN")
        case True
        then have "w1 = ?w1" using h assms(2) False no by (simp add: TcpClient_HandleRead_def)
        with 1 show ?thesis by simp
      next
        case fits: False
        obtain s w2 where s: "CreateSession SessionTcpClient (cconn c) ?w1 = (s, w2)" by fastforce
        then obtain r2 w3 where d: "recv_decode (packet_handler mp hs s) (recv_fill (crecv c) (rdata rd)) w2 = Inr (r2, w3)"
          and w1: "w1 = set_client_recv k r2 w3"
          using h assms(2) False no fits y by (auto simp: TcpClient_HandleRead_def Let_def split: sum.splits)
        have 2: "?run ?w1 w2" by (rule proc_run_step [OF session [OF s]])
        have 3: "?run w2 w3" by (rule recv_decode_run [OF d])
        have wf: "recv_wf r2" by (rule recv_decode_wf [OF assms(3,4) d])
        have 4: "?run w3 w1"
        proof (cases "clients (tcpServer w3) k")
          case (Some c3)
          have "w1 = set_client k (c3\<lparr>lastActiveTime := lastActiveTime c3, crecv := r2\<rparr>) w3"
            using w1 Some by (simp add: set_client_recv_def)
          then show ?thesis using proc_run_step [OF client_read [OF Some wf]] by metis
        qed (use w1 in \<open>simp add: set_client_recv_def\<close>)
        show ?thesis using 1 2 3 4 by (blast intro: proc_run_trans)
      qed
    qed
  qed
  moreover have "?run w1 (onClientClose k w1)" by (rule proc_run_step [OF client_close])
  moreover obtain z where "y = Inr z" "(z = Continue \<and> w' = w1) \<or> (z = Break \<and> w' = onClientClose k w1)"
    using assms(1) h by (auto simp: client_iteration_def split: sum.splits loop_exit.splits)
  ultimately show ?thesis by (metis proc_run_trans)
qed

text \<open>One pass of the goroutine of a remote.\<close>

lemma Remote_HandleRead_run:
  assumes "Remote_HandleRead mp hs r rd w = (Inr x, r', w')" "recv_wf (rrecv r)" "length (rdata rd) \<le> recv_space (rrecv r)"
  shows "proc_run mp hs busi cf A (w, os) (w', os) \<and> remoteId r' = remoteId r \<and> rconn r' = rconn r
    \<and> (x = Continue \<longrightarrow> recv_wf (rrecv r')) \<and> (x = Break \<longrightarrow> remoteMgr w' = remoteMgr w)"
proof (cases "rerr rd = TimeoutErr")
  case True
  then have "idle_check mp (rconn r) (rlastActiveTime r) w = (Inr x, w')" "r' = r"
    using assms(1) by (auto simp: Remote_HandleRead_def split: prod.splits)
  then show ?thesis using idle_check_run assms(2) by blast
next
  case no: False
  let ?f = "recv_fill (rrecv r) (rdata rd)"
  show ?thesis
  proof (cases "rerr rd = OtherErr \<or> rdata rd = [] \<or> (\<not> remainLen ?f > RECV_BUF_MAX_LEN div 2 \<and> remainLen ?f > RECV_BUF_MAX_LEN)")
    case True
    then show ?thesis using no assms(1) by (auto simp: Remote_HandleRead_def Let_def split: if_splits)
  next
    case False
    obtain s w1 where s: "CreateSession SessionRemote (rconn r) w = (s, w1)" by fastforce
    then obtain b where d: "recv_decode (packet_handler mp hs s) ?f w1 = Inr (b, w')" "x = Continue"
      "r' = r\<lparr>rlastActiveTime := now w, rrecv := b\<rparr>"
      using assms(1) no False by (auto simp: Remote_HandleRead_def Let_def split: sum.splits if_splits)
    have "proc_run mp hs busi cf A (w, os) (w1, os)" by (rule proc_run_step [OF session [OF s]])
    moreover have "proc_run mp hs busi cf A (w1, os) (w', os)" by (rule recv_decode_run [OF d(1)])
    ultimately show ?thesis using recv_decode_wf [OF assms(2,3) d(1)] d(2,3) by (auto intro: proc_run_trans)
  qed
qed

lemma remote_exit_Inr:
  "remote_exit r w = (Inr x, w') \<Longrightarrow> x = Break"
  by (auto simp: remote_exit_def split: sum.splits)

lemma remote_exit_cong: "remoteId r' = remoteId r \<Longrightarrow> rconn r' = rconn r \<Longrightarrow> remote_exit r' w = remote_exit r w"
  by (simp add: remote_exit_def)

theorem remote_iteration_run:
  assumes "remote_iteration mp hs (rconn r) rd w = (Inr x, w')" "remotes (remoteMgr w) (rconn r) = Some r" "recv_wf (rrecv r)"
    "length (rdata rd) \<le> recv_space (rrecv r)"
  shows "proc_run mp hs busi cf A (w, os) (w', os)"
proof -
  obtain y r1 w1 where h: "Remote_HandleRead mp hs r rd w = (Inr y, r1, w1)"
    using assms(1,2) by (cases "Remote_HandleRead mp hs r rd w") (auto simp: remote_iteration_def split: sum.splits)
  note H = Remote_HandleRead_run [OF h assms(3,4), where busi = busi and cf = cf and A = A and os = os]
  show ?thesis
  proof (cases y)
    case Continue
    then have w': "w' = set_remote_fields (rconn r) r1 w1" using assms(1,2) h by (simp add: remote_iteration_def)
    have "proc_run mp hs busi cf A (w1, os) (w', os)"
    proof (cases "remotes (remoteMgr w1) (rconn r)")
      case (Some r2)
      show ?thesis using proc_run_step [OF remote_read [OF Some]] H Continue Some by (simp add: w' set_remote_fields_def)
    qed (simp add: w' set_remote_fields_def)
    with H show ?thesis by (blast intro: proc_run_trans)
  next
    case Break
    then have e: "remote_exit r w1 = (Inr x, w')"
      using assms(1,2) h H remote_exit_cong [of r1 r w1] by (simp add: remote_iteration_def)
    moreover have "remotes (remoteMgr w1) (rconn r) = Some r" using H Break assms(2) by simp
    ultimately have "proc_run mp hs busi cf A (w1, os) (w', os)"
      using remote_exit_Inr [OF e] by (intro proc_run_step remote_close) simp_all
    with H show ?thesis by (blast intro: proc_run_trans)
  qed
qed

text \<open>One pass of a goroutine whose struct is no entry: it may delete the entry another connection has now.\<close>

theorem orphan_iteration_run:
  assumes "orphan_iteration mp hs r rd w = (Inr x, r', w')" "r \<in> set os" "recv_wf (rrecv r)"
    "length (rdata rd) \<le> recv_space (rrecv r)"
  shows "proc_run mp hs busi cf A (w, os)
    (w', (case x of Continue \<Rightarrow> [r'] | Break \<Rightarrow> orphaned (rconn r) (remoteMgr w) (remoteMgr w')) @ remove1 r os)"
proof -
  obtain y r1 w1 where h: "Remote_HandleRead mp hs r rd w = (Inr y, r1, w1)"
    using assms(1) by (cases "Remote_HandleRead mp hs r rd w") (auto simp: orphan_iteration_def split: sum.splits)
  note H = Remote_HandleRead_run [OF h assms(3,4), where busi = busi and cf = cf and A = A and os = os]
  show ?thesis
  proof (cases y)
    case Continue
    then have e: "x = Continue" "r' = r1" "w' = w1" using assms(1) h by (simp_all add: orphan_iteration_def)
    have "r' = r\<lparr>rrecv := rrecv r', rlastActiveTime := rlastActiveTime r'\<rparr>" using H e by (cases r; cases r') simp
    moreover have "recv_wf (rrecv r')" using H Continue e by simp
    ultimately have "proc_run mp hs busi cf A (w1, os) (w1, r' # remove1 r os)"
      using proc_run_step [OF orphan_read [OF assms(2)]] by metis
    with H e show ?thesis by (auto intro: proc_run_trans)
  next
    case Break
    then have e: "remote_exit r w1 = (Inr x, w')"
      using assms(1) h H remote_exit_cong [of r1 r w1] by (auto simp: orphan_iteration_def split: prod.splits)
    have "proc_run mp hs busi cf A (w1, os) (w', orphaned (rconn r) (remoteMgr w1) (remoteMgr w') @ remove1 r os)"
      using e remote_exit_Inr [OF e] assms(2) by (intro proc_run_step orphan_close) simp_all
    with H Break remote_exit_Inr [OF e] show ?thesis by (auto intro: proc_run_trans)
  qed
qed


section \<open>Relations kept by the handlers\<close>

text \<open>
  What every handler of a process keeps, the whole process keeps. \<open>handler_rel\<close> is the interface of the handlers \<open>us\<close> a
  process registers: a relation \<open>R\<close> between the states before and after, kept by each of them and by what the default
  handlers do. \<open>dispatch_rel\<close> adds what the dispatch of a packet changes, \<open>process_rel\<close> the events of the process;
  \<open>own\<close> is an invariant of its state.
\<close>

locale handler_rel =
  fixes mp :: msgpack
    and us :: "('u, ('u handler, 'b) world_scheme) handlers"
    and R :: "('u handler, 'b) world_scheme \<Rightarrow> ('u handler, 'b) world_scheme \<Rightarrow> bool"
  assumes rel_refl: "R w w"
    and rel_trans: "R w1 w2 \<Longrightarrow> R w2 w3 \<Longrightarrow> R w1 w3"
    and user: "Process us u req session w = (e, x, w') \<Longrightarrow> R w w'"
    and default_rsp: "RpcG2CRpcRsp_Process req session w = (e, x, w') \<Longrightarrow> R w w'"
    and counted: "R w (RpcFvcCount w)"
    and sent: "rpc_send mp (Some c) name args w = (b, w') \<Longrightarrow> name \<in> {MSG_S2G_RPC_RSP, MSG_HEART_BEAT_RSP} \<Longrightarrow> R w w'"
begin

lemma no_rsp_R:
  "no_rsp (rpc_send mp (Some c) name args w) = (e, x, w') \<Longrightarrow> name \<in> {MSG_S2G_RPC_RSP, MSG_HEART_BEAT_RSP} \<Longrightarrow> R w w'"
  by (rule sent [of c name args w "fst (rpc_send mp (Some c) name args w)"]) (auto simp: no_rsp_def split: prod.splits sum.splits)

lemma rpcHandle_R:
  assumes "\<And>h req session w e x w'. Process hs h req session w = (e, x, w') \<Longrightarrow> R w w'"
    "rpcHandle mp hs grid inner session w = (r, w')"
  shows "R w w'"
  using assms(2) rel_refl
  by (auto simp: rpcHandle_def doProcessWithPanicProtect_def split: prod.splits option.splits sum.splits panic.splits if_splits
      intro: assms(1))

lemma process_R: "Process (process_handlers mp us n) h req session w = (e, x, w') \<Longrightarrow> R w w'"
proof (induction n arbitrary: h req session w e x w')
  case 0
  then show ?case
    by (cases h) (auto simp: process_handlers.simps RpcHeartBeatReq_Process_def RpcHeartBeatRsp_Process_def
      intro: user default_rsp rel_refl no_rsp_R)
next
  case (Suc n)
  show ?case
  proof (cases h)
    case H_G2SRpcCall
    obtain r w1 where r: "rpcHandle mp (process_handlers mp us n) (as_u32 (req ! 0)) (as_bytes (req ! 1)) session (RpcFvcCount w) = (r, w1)"
      by fastforce
    have "R (RpcFvcCount w) w1" by (rule rpcHandle_R [OF _ r]) (rule Suc.IH)
    then have "R w w1" using counted rel_trans by blast
    moreover have "R w1 w'" using Suc.prems r H_G2SRpcCall rel_refl
      by (auto simp: RpcG2SRpcCall_Process_def Let_def split: sum.splits prod.splits if_splits intro: no_rsp_R)
    ultimately show ?thesis by (rule rel_trans)
  qed (use Suc.prems in \<open>auto simp: RpcHeartBeatReq_Process_def RpcHeartBeatRsp_Process_def intro: user default_rsp rel_refl no_rsp_R\<close>)
qed

end

locale dispatch_rel =
  fixes mp :: msgpack
    and hs :: "('h, ('h, 'b) world_scheme) handlers"
    and R :: "('h, 'b) world_scheme \<Rightarrow> ('h, 'b) world_scheme \<Rightarrow> bool"
  assumes refl: "R w w"
    and trans: "R w1 w2 \<Longrightarrow> R w2 w3 \<Longrightarrow> R w1 w3"
    and process: "Process hs h req session w = (e, x, w') \<Longrightarrow> R w w'"
    and refused: "R w (SetState k TcpClientState_EXIT w)"
    and pool: "R w (w\<lparr>gTaskPool := p\<rparr>)"
begin

lemma run_task_R: "run_task mp hs t w = (r, w') \<Longrightarrow> R w w'"
  by (auto simp: run_task_def split: option.splits sum.splits prod.splits intro: refl process)

lemma PreCheck_R: "PreCheck session name w = (r, w') \<Longrightarrow> R w w'"
  by (auto simp: PreCheck_def split: if_splits option.splits intro: refl refused)

lemma RpcDecode_R:
  assumes "RpcDecode mp hs session buf w = (r, w')"
  shows "R w w'"
proof -
  obtain name args where n: "decode_name mp buf = (name, args)" by fastforce
  obtain ok w1 where c: "PreCheck session name w = (ok, w1)" by fastforce
  have "R w1 w'" using assms n c
    by (auto simp: RpcDecode_def Let_def split: sum.splits bool.splits if_splits intro: refl run_task_R pool)
  with PreCheck_R [OF c] show ?thesis by (rule trans)
qed

end

locale process_rel = dispatch_rel mp hs R
  for mp and hs :: "('h, ('h, 'b) world_scheme) handlers" and R +
  fixes busi :: "conn \<Rightarrow> ('h, 'b) world_scheme \<Rightarrow> ('h, 'b) world_scheme"
    and cf :: "nat \<Rightarrow> string \<Rightarrow> ('h, 'b) world_scheme \<Rightarrow> ('h, 'b) world_scheme"
    and A :: "REMOTE_ID \<Rightarrow> CONN_ID \<Rightarrow> bool"
    and own :: "('h, 'b) world_scheme \<Rightarrow> bool"
  assumes own_rel: "R w w' \<Longrightarrow> own w \<Longrightarrow> own w'"
    and own_remote: "own w \<Longrightarrow> remotes (remoteMgr w) k = Some r \<Longrightarrow> A (remoteId r) (rconn r)"
    and new_session: "CreateSession ty c w = (s, w') \<Longrightarrow> R w w'"
    and heart_beat_R: "HeartBeat mp c w = (b, w') \<Longrightarrow> R w w'"
    and client_R: "clients (tcpServer w) k = Some cl \<Longrightarrow> recv_wf rb \<Longrightarrow> R w (set_client k (cl\<lparr>lastActiveTime := t, crecv := rb\<rparr>) w)"
    and remote_R: "remotes (remoteMgr w) k = Some r \<Longrightarrow> recv_wf rb \<Longrightarrow> R w (set_remote k (r\<lparr>rrecv := rb, rlastActiveTime := t\<rparr>) w)"
    and close_R: "R w (onClientClose k w)"
    and stop_R: "R w (w\<lparr>tcpServer := Stop_begin (tcpServer w)\<rparr>)"
    and clock_R: "R w (w\<lparr>now := t\<rparr>)"
    and accept_R: "accept_conn mp busi c w = (Inr (), w') \<Longrightarrow> c \<noteq> [] \<Longrightarrow> R w w'"
    and tick_R: "callback_tick cf w = (Inr (), w') \<Longrightarrow> R w w'"
    and discover_R: "own w \<Longrightarrow> A (GetRemoteID ns svc) (GenConnIDByIPPort i p) \<Longrightarrow>
      R w (w\<lparr>remoteMgr := OnRemoteDiscover dial ns svc i p t (remoteMgr w)\<rparr>)"
    and disappear_R: "own w \<Longrightarrow> A rid c \<Longrightarrow> OnRemoteDisappear rid c (remoteMgr w) = Inr m \<Longrightarrow> R w (w\<lparr>remoteMgr := m\<rparr>)"
begin

lemma orphaned_owned: "own w \<Longrightarrow> r \<in> set (orphaned c (remoteMgr w) m) \<Longrightarrow> A (remoteId r) (rconn r)"
  by (auto simp: orphaned_def split: option.splits if_splits intro: own_remote)

lemma exit_R:
  assumes "own w" "A (remoteId r) (rconn r)" "remote_exit r w = (Inr x, w')"
  shows "R w w'"
  using assms by (auto simp: remote_exit_def GetConnID_def split: sum.splits intro: disappear_R)

lemma event_R:
  assumes "own w" "A (event_service ev) (event_addr ev)" "run_remote_event dial t ev (remoteMgr w) = Inr m"
  shows "R w (w\<lparr>remoteMgr := m\<rparr>)"
  using assms by (cases ev) (auto simp: run_remote_event_def intro: discover_R disappear_R)

lemma step_R:
  assumes "proc_step mp hs busi cf A p q" "own (fst p)" "\<forall>r\<in>set (snd p). A (remoteId r) (rconn r)"
  shows "R (fst p) (fst q) \<and> (\<forall>r\<in>set (snd q). A (remoteId r) (rconn r))"
  using assms
proof (cases rule: proc_step.cases)
  case (orphan_read r os b w t)
  then show ?thesis using assms(3) refl by (auto dest: notin_set_remove1)
next
  case (orphan_close r os w w')
  have "A (remoteId r) (rconn r)" using assms(3) orphan_close by simp
  then have "R w w'" using assms(2) orphan_close exit_R by simp
  then show ?thesis using assms(2,3) orphan_close by (auto dest: orphaned_owned notin_set_remove1)
next
  case (event dial t ev w m os)
  then show ?thesis using assms(2,3) event_R orphaned_owned by auto
next
  case (remote_close w r w' os)
  then show ?thesis using assms(2,3) exit_R [of w r] own_remote by auto
next
  case (run x w w' os)
  then show ?thesis using assms(3) by (auto intro: trans [OF run_task_R pool])
next
  case (run_separate w x w' os)
  then show ?thesis using assms(3) by (auto intro: trans [OF run_task_R pool])
qed (auto intro: RpcDecode_R new_session heart_beat_R client_R remote_R close_R stop_R clock_R accept_R tick_R pool)

theorem run_R:
  assumes "proc_run mp hs busi cf A (w, []) (w', os)" "own w"
  shows "R w w' \<and> own w' \<and> (\<forall>r\<in>set os. A (remoteId r) (rconn r))"
proof -
  have "R w (fst q) \<and> own (fst q) \<and> (\<forall>r\<in>set (snd q). A (remoteId r) (rconn r))"
    if "(proc_step mp hs busi cf A)\<^sup>*\<^sup>* (w, []) q" for q
    using that
  proof (induction rule: rtranclp_induct)
    case (step p q)
    with step_R [OF step.hyps(2)] show ?case using own_rel trans by blast
  qed (use assms(2) refl in simp)
  from this [of "(w', os)"] assms(1) show ?thesis by (simp add: proc_run_def)
qed

end

end
