(* ===== verification/Process_Invariant.thy ===== *)
theory Process_Invariant
  imports Process_System
begin

text \<open>
  The invariant of a process: the load balancer of its server holds exactly the connected clients, the load balancers of
  its remote manager exactly the live connections of their services, the order cache pins clients to connections of the
  right service, and the callback manager is well formed. It holds in every state a process reaches whose handlers keep
  it, as long as an address is used by one service only (\<open>svc\<close> gives the service of an address); the configuration, the
  registry and the identity of the process never change.
\<close>

section \<open>The invariant\<close>

definition mgr_inv :: "(CONN_ID \<Rightarrow> REMOTE_ID) \<Rightarrow> RemoteMgr \<Rightarrow> bool" where
  "mgr_inv svc m \<longleftrightarrow> remote_inv m
     \<and> (\<forall>c r. remotes m c = Some r \<longrightarrow> remoteId r = svc c)
     \<and> (\<forall>k rid c. pinned m k rid = Some c \<longrightarrow> svc c = rid)"

definition srv_inv :: "TcpServer \<Rightarrow> bool" where
  "srv_inv s \<longleftrightarrow> server_inv s \<and> [] \<notin> dom (clients s)"

definition process_inv :: "(CONN_ID \<Rightarrow> REMOTE_ID) \<Rightarrow> ('h, 'b) world_scheme \<Rightarrow> bool" where
  "process_inv svc w \<longleftrightarrow> srv_inv (tcpServer w) \<and> mgr_inv svc (remoteMgr w) \<and> cb_wf (cbMgr w)"

definition same_process :: "('h, 'b) world_scheme \<Rightarrow> ('h, 'b) world_scheme \<Rightarrow> bool" where
  "same_process w w' \<longleftrightarrow> rpcMgr w' = rpcMgr w \<and> cfg w' = cfg w \<and> serverIdentity w' = serverIdentity w \<and> netWrite w' = netWrite w"

definition keeps :: "(CONN_ID \<Rightarrow> REMOTE_ID) \<Rightarrow> ('h, 'b) world_scheme \<Rightarrow> ('h, 'b) world_scheme \<Rightarrow> bool" where
  "keeps svc w w' \<longleftrightarrow> same_process w w' \<and> (process_inv svc w \<longrightarrow> process_inv svc w')"

lemma keeps_refl: "keeps svc w w"
  by (simp add: keeps_def same_process_def)

lemma keeps_trans: "keeps svc w1 w2 \<Longrightarrow> keeps svc w2 w3 \<Longrightarrow> keeps svc w1 w3"
  by (simp add: keeps_def same_process_def)

lemma keeps_inv: "keeps svc w w' \<Longrightarrow> process_inv svc w \<Longrightarrow> process_inv svc w'"
  by (simp add: keeps_def)

lemma keepsI:
  assumes "same_process w w'" "srv_inv (tcpServer w) \<Longrightarrow> srv_inv (tcpServer w')"
    "mgr_inv svc (remoteMgr w) \<Longrightarrow> mgr_inv svc (remoteMgr w')" "cb_wf (cbMgr w) \<Longrightarrow> cb_wf (cbMgr w')"
  shows "keeps svc w w'"
  using assms by (simp add: keeps_def process_inv_def)

text \<open>Changes of the other fields.\<close>

lemma keeps_fields [simp]:
  "keeps svc w (w\<lparr>out := o'\<rparr>)" "keeps svc w (w\<lparr>gTaskPool := p\<rparr>)" "keeps svc w (w\<lparr>now := t\<rparr>)" "keeps svc w (RpcFvcCount w)"
  "keeps svc w (w\<lparr>nextSid := i, sessErr := se\<rparr>)" "keeps svc w (w\<lparr>sessErr := se\<rparr>)" "keeps svc w (w\<lparr>globalGID := g\<rparr>)"
  "keeps svc w (w\<lparr>chanRecv := cr, chanMsgs := cm\<rparr>)" "keeps svc w (w\<lparr>chanRecv := cr\<rparr>)" "keeps svc w (w\<lparr>nextChan := ch\<rparr>)"
  by (auto intro!: keepsI simp: same_process_def RpcFvcCount_def)

lemma keeps_rpc_send: "rpc_send mp c name args w = (r, w') \<Longrightarrow> keeps svc w w'"
  using rpc_send_frame by fastforce

lemma keeps_no_rsp_send: "no_rsp (rpc_send mp c name args w) = (e, x, w') \<Longrightarrow> keeps svc w w'"
  by (auto simp: no_rsp_def split: prod.splits sum.splits dest: keeps_rpc_send)

lemma keeps_chan_send: "chan_send ch m w = (r, w') \<Longrightarrow> keeps svc w w'"
  by (auto simp: chan_send_def keeps_refl split: if_splits)

lemma keeps_SetState: "keeps svc w (SetState k st w)"
proof (rule keepsI)
  have "dom (clients (tcpServer (SetState k st w))) = dom (clients (tcpServer w))" by (auto simp: SetState_def)
  then show "srv_inv (tcpServer w) \<Longrightarrow> srv_inv (tcpServer (SetState k st w))" by (simp add: srv_inv_def server_inv_SetState)
qed (simp_all add: same_process_def SetState_def)

lemma keeps_add_callback: "add_callback k v t f w = (r, w') \<Longrightarrow> keeps svc w w'"
  using cb.add_SomeD [of "cbMgr w" k v t f "now w div 1000"]
  by (auto simp: add_callback_def keeps_refl same_process_def split: option.splits intro!: keepsI)

lemma keeps_get_callback: "get_callback k w = (r, w') \<Longrightarrow> keeps svc w w'"
  using cb.get_law [of "cbMgr w" k]
  by (auto simp: get_callback_def same_process_def split: prod.splits intro!: keepsI)

lemma keeps_default_rsp:
  assumes "RpcG2CRpcRsp_Process req session w = (e, x, w')"
  shows "keeps svc w w'"
proof -
  obtain r w1 where g: "get_callback (as_u32 (req ! 0)) w = (r, w1)" by fastforce
  have "keeps svc w1 w'" using assms g
    by (auto simp: RpcG2CRpcRsp_Process_def no_rsp_def keeps_refl split: option.splits list.splits gany.splits prod.splits sum.splits
        dest: keeps_chan_send)
  with keeps_get_callback [OF g] show ?thesis by (rule keeps_trans)
qed

lemma keeps_run_timeouts:
  "run_timeouts (\<lambda>_ _ w. w) fs w = (r, w') \<Longrightarrow> keeps svc w (w' :: ('h, 'b) world_scheme)"
proof (induction "\<lambda>(_ :: nat) (_ :: string) (w :: ('h, 'b) world_scheme). w" fs w rule: run_timeouts.induct)
  case (4 k ch err fs w)
  obtain x w1 where c: "chan_send ch (RspTimeout err) w = (x, w1)" by fastforce
  note k = keeps_chan_send [OF c, of svc]
  show ?case
  proof (cases x)
    case (Inl p)
    then show ?thesis using 4(2) c k by simp
  next
    case (Inr u)
    then have "run_timeouts (\<lambda>_ _ w. w) fs w1 = (r, w')" using 4(2) c by simp
    with 4(1) c Inr k show ?thesis by (auto intro: keeps_trans)
  qed
qed (auto simp: keeps_refl)

lemma keeps_tick:
  assumes "callback_tick (\<lambda>_ _ w. w) w = (Inr (), w')"
  shows "keeps svc w w'"
proof -
  obtain m fired where t: "priorityQueueTick (now w div 1000) (cbMgr w) = Some (m, fired)"
    "run_timeouts (\<lambda>_ _ w. w) fired (w\<lparr>cbMgr := m\<rparr>) = (Inr (), w')"
    using assms by (auto simp: callback_tick_def split: option.splits)
  have "keeps svc w (w\<lparr>cbMgr := m\<rparr>)" using cbt.tick_SomeD(1) [OF _ t(1)] by (auto simp: same_process_def intro!: keepsI)
  with keeps_run_timeouts [OF t(2)] show ?thesis by (blast intro: keeps_trans)
qed

section \<open>The remote manager\<close>

lemma mgr_inv_create [simp]: "mgr_inv svc CreateRemoteMgr"
proof -
  have "remotes CreateRemoteMgr = Map.empty" "pinned CreateRemoteMgr k rid = None" for k rid
    by (simp_all add: CreateRemoteMgr_def pinned_def)
  then show ?thesis by (simp add: mgr_inv_def)
qed

lemma process_inv_init:
  assumes "clients (tcpServer w) = Map.empty" "slb (tcpServer w) = new_LoadBalancer" "remoteMgr w = CreateRemoteMgr" "cbMgr w = new_cbmgr"
  shows "process_inv svc w"
  using assms by (simp add: process_inv_def srv_inv_def server_inv_def)

lemma mgr_inv_cache: "mgr_inv svc m \<Longrightarrow> cache_inv m"
proof -
  assume "mgr_inv svc m"
  moreover have "orderedCache m k = Some cache \<Longrightarrow> cache rid = Some c \<Longrightarrow> pinned m k rid = Some c" for k cache rid c
    by (simp add: pinned_def)
  ultimately show "cache_inv m" unfolding mgr_inv_def cache_inv_def by blast
qed

lemma mgr_inv_disappear:
  assumes "mgr_inv svc m" "OnRemoteDisappear (svc c) c m = Inr m'"
  shows "mgr_inv svc m'"
proof -
  have "remotes m c = Some r \<Longrightarrow> remoteId r = svc c" for r using assms(1) by (simp add: mgr_inv_def)
  then obtain m2 where "OnRemoteDisappear (svc c) c m = Inr m2" "remote_inv m2" "remotes m2 = (remotes m)(c := None)"
    "orderedCache m2 = orderedCache m"
    using OnRemoteDisappear_ok [of m c "svc c"] assms(1) by (auto simp: mgr_inv_def)
  with assms show ?thesis by (auto simp: mgr_inv_def pinned_def split: if_splits)
qed

lemma connect_retry_cases: "connect_retry n dial ns s i p t m = m \<or> connect_retry n dial ns s i p t m = ConnectRemote ns s i p t m"
  by (induction n) auto

lemma mgr_inv_discover:
  assumes "mgr_inv svc m" "GetRemoteID ns s = svc (GenConnIDByIPPort i p)"
  shows "mgr_inv svc (OnRemoteDiscover dial ns s i p t m)"
proof -
  have "mgr_inv svc (ConnectRemote ns s i p t m)"
  proof (cases "remotes m (GenConnIDByIPPort i p)")
    case None
    have "remote_inv m" using assms(1) by (simp add: mgr_inv_def)
    note N = ConnectRemote_new(1) [OF this None, of ns s t]
    have "remote_inv (ConnectRemote ns s i p t m)" by (rule remote_inv_ConnectRemote) fact
    then show ?thesis using assms unfolding mgr_inv_def N by (auto simp: pinned_def)
  qed (use assms(1) in \<open>simp add: ConnectRemote_def\<close>)
  then show ?thesis using assms(1) connect_retry_cases [of 5 dial ns s i p t m] by (auto simp: OnRemoteDiscover_def)
qed

text \<open>A choice pins a client to a connection of the service it asked for.\<close>

lemma mgr_inv_choice:
  assumes "mgr_inv svc m"
  shows "\<exists>res m'. ChoiceRemote intn rid ordered k m = (Inr res, m') \<and> mgr_inv svc m' \<and> remotes m' = remotes m
    \<and> (res = None \<longleftrightarrow> (\<forall>c r. remotes m c = Some r \<longrightarrow> remoteId r \<noteq> rid))
    \<and> (\<forall>r. res = Some r \<longrightarrow> remotes m (rconn r) = Some r \<and> remoteId r = rid)"
proof (cases "ordered \<and> (\<exists>c r. pinned m k rid = Some c \<and> remotes m c = Some r)")
  case True
  then obtain c r where h: "ordered" "pinned m k rid = Some c" "remotes m c = Some r" by blast
  moreover have "remoteId r = rid" "rconn r = c" using h assms remote_invD(1) by (auto simp: mgr_inv_def)
  ultimately show ?thesis using ChoiceRemote_hit [of m k rid c r intn] assms by auto
next
  case False
  have inv: "remote_inv m" using assms by (simp add: mgr_inv_def)
  obtain res m' where c: "ChoiceRemote intn rid ordered k m = (Inr res, m')" "remote_inv m'" "remotes m' = remotes m"
    "res = None \<longleftrightarrow> (\<forall>c r. remotes m c = Some r \<longrightarrow> remoteId r \<noteq> rid)"
    "\<forall>r. res = Some r \<longrightarrow> remotes m (rconn r) = Some r \<and> remoteId r = rid"
    "\<forall>k2 rid2. pinned m' k2 rid2 = pinned m k2 rid2 \<or> (rid2 = rid \<and> pinned m' k2 rid2 = map_option rconn res)"
  proof (cases ordered)
    case True
    have miss: "pinned m k rid = Some c \<Longrightarrow> remotes m c = None" for c using False True by (cases "remotes m c") auto
    obtain res m' where t: "ChoiceRemote intn rid True k m = (Inr res, m')" "remote_inv m'" "remotes m' = remotes m"
      "res = None \<longleftrightarrow> (\<forall>c r. remotes m c = Some r \<longrightarrow> remoteId r \<noteq> rid)"
      "\<forall>r. res = Some r \<longrightarrow> remotes m (rconn r) = Some r \<and> remoteId r = rid"
      "\<forall>k2 rid2. pinned m' k2 rid2 = (if k2 = k \<and> rid2 = rid then map_option rconn res else pinned m k2 rid2)"
      using ChoiceRemote_ordered_miss [of m k rid intn] inv miss by blast
    show thesis by (rule that [OF _ t(2-5)]) (use t(1,6) True in simp_all)
  next
    case unordered: False
    obtain res m' where f: "ChoiceRemote intn rid False k m = (Inr res, m')" "remote_inv m'" "remotes m' = remotes m"
      "res = None \<longleftrightarrow> (\<forall>c r. remotes m c = Some r \<longrightarrow> remoteId r \<noteq> rid)"
      "\<forall>r. res = Some r \<longrightarrow> remotes m (rconn r) = Some r \<and> remoteId r = rid"
      "\<forall>k2 rid2. pinned m' k2 rid2 = pinned m k2 rid2"
      using ChoiceRemote_unordered [OF inv, of intn rid k] by blast
    show thesis by (rule that [OF _ f(2-5)]) (use f(1,6) unordered in simp_all)
  qed
  have "svc d = rid2" if pin: "pinned m' k2 rid2 = Some d" for k2 rid2 d
  proof -
    consider "pinned m k2 rid2 = Some d" | "rid2 = rid" "map_option rconn res = Some d" using c(6) pin by metis
    then show ?thesis
    proof cases
      case 1
      then show ?thesis using assms by (simp add: mgr_inv_def)
    next
      case 2
      then obtain r where "res = Some r" "rconn r = d" by auto
      then have "remotes m d = Some r" "remoteId r = rid" using c(5) by auto
      then show ?thesis using assms 2(1) by (auto simp: mgr_inv_def)
    qed
  qed
  then have "mgr_inv svc m'" using c(2,3) assms by (simp add: mgr_inv_def)
  then show ?thesis by (intro exI conjI) (rule c(1), assumption, rule c(3), rule c(4), rule c(5))
qed

lemma keeps_choice:
  assumes "ChoiceRemote intn rid ordered k (remoteMgr w) = (res, m)"
  shows "keeps svc w (w\<lparr>remoteMgr := m\<rparr>)"
proof (rule keepsI)
  show "mgr_inv svc (remoteMgr w) \<Longrightarrow> mgr_inv svc (remoteMgr (w\<lparr>remoteMgr := m\<rparr>))"
    using mgr_inv_choice [of svc "remoteMgr w" intn rid ordered k] assms by auto
qed (simp_all add: same_process_def)

lemma mgr_inv_del_cache: "mgr_inv svc m \<Longrightarrow> mgr_inv svc (DelRemoteOrderCache c m)"
  by (auto simp: mgr_inv_def pinned_def DelRemoteOrderCache_def split: if_splits)

lemma mgr_inv_fields:
  assumes "mgr_inv svc m" "remotes m k = Some r" "recv_wf b"
  shows "mgr_inv svc (m\<lparr>remotes := (remotes m)(k \<mapsto> r\<lparr>rrecv := b, rlastActiveTime := t\<rparr>)\<rparr>)"
proof -
  let ?m = "m\<lparr>remotes := (remotes m)(k \<mapsto> r\<lparr>rrecv := b, rlastActiveTime := t\<rparr>)\<rparr>"
  have I: "remote_inv m" using assms(1) by (simp add: mgr_inv_def)
  have "(\<exists>r'. remotes ?m c = Some r' \<and> remoteId r' = rid) \<longleftrightarrow> (\<exists>r'. remotes m c = Some r' \<and> remoteId r' = rid)" for c rid
    using assms(2) by auto
  then have "remote_inv ?m"
    using I assms(2,3) unfolding remote_inv_def by (auto split: if_splits)
  then show ?thesis using assms by (auto simp: mgr_inv_def pinned_def)
qed

section \<open>Every process keeps it\<close>

text \<open>A process whose own handlers keep the invariant.\<close>

locale consistent_process =
  fixes mp :: msgpack
    and us :: "('u, ('u handler, 'b) world_scheme) handlers"
    and busi :: "conn \<Rightarrow> ('u handler, 'b) world_scheme \<Rightarrow> ('u handler, 'b) world_scheme"
    and svc :: "CONN_ID \<Rightarrow> REMOTE_ID"
  assumes user_keeps: "Process us u req session w = (e, x, w') \<Longrightarrow> keeps svc w w'"
    and busi_sends: "\<exists>o'. busi c w = w\<lparr>out := o'\<rparr>"

sublocale consistent_process \<subseteq> h: handler_rel mp us "keeps svc"
  by unfold_locales
    (auto intro: keeps_refl keeps_trans user_keeps keeps_default_rsp keeps_rpc_send)

context consistent_process
begin

lemma accept_keeps:
  assumes "accept_conn mp busi c w = (Inr (), w')" "c \<noteq> []"
  shows "keeps svc w w'"
proof (rule keepsI)
  from assms(1) busi_sends show "same_process w w'" "mgr_inv svc (remoteMgr w) \<Longrightarrow> mgr_inv svc (remoteMgr w')" "cb_wf (cbMgr w) \<Longrightarrow> cb_wf (cbMgr w')"
    by (cases rule: accept_conn_cases; simp add: same_process_def)+
  have "dom (clients (tcpServer w')) \<subseteq> insert c (dom (clients (tcpServer w)))"
    using assms(1) busi_sends by (cases rule: accept_conn_cases) auto
  then show "srv_inv (tcpServer w) \<Longrightarrow> srv_inv (tcpServer w')"
    using server_inv_accept [OF _ assms(1) busi_sends] assms(2) by (auto simp: srv_inv_def)
qed

lemma client_keeps:
  assumes "clients (tcpServer w) k = Some cl" "recv_wf rb"
  shows "keeps svc w (set_client k (cl\<lparr>lastActiveTime := t, crecv := rb\<rparr>) w)"
  by (rule keepsI) (use assms in \<open>auto simp: same_process_def set_client_def srv_inv_def server_inv_def split: if_splits\<close>)

lemma remote_keeps:
  assumes "remotes (remoteMgr w) k = Some r" "recv_wf rb"
  shows "keeps svc w (set_remote k (r\<lparr>rrecv := rb, rlastActiveTime := t\<rparr>) w)"
  by (rule keepsI) (use mgr_inv_fields [OF _ assms] in \<open>auto simp: same_process_def set_remote_def\<close>)

lemma close_keeps: "keeps svc w (onClientClose k w)"
proof (rule keepsI)
  show "same_process w (onClientClose k w)" "cb_wf (cbMgr w) \<Longrightarrow> cb_wf (cbMgr (onClientClose k w))"
    by (simp_all add: same_process_def onClientClose_def Let_def)
  show "mgr_inv svc (remoteMgr w) \<Longrightarrow> mgr_inv svc (remoteMgr (onClientClose k w))"
    by (simp add: onClientClose_def Let_def mgr_inv_del_cache)
  show "srv_inv (tcpServer w) \<Longrightarrow> srv_inv (tcpServer (onClientClose k w))"
    by (auto simp: srv_inv_def server_inv_close)
qed

lemma stop_keeps: "keeps svc w (w\<lparr>tcpServer := Stop_begin (tcpServer w)\<rparr>)"
  by (rule keepsI) (auto simp: same_process_def srv_inv_def server_inv_stop, auto simp: Stop_begin_def split: if_splits)

lemma remoteMgr_keeps: "(mgr_inv svc (remoteMgr w) \<Longrightarrow> mgr_inv svc m) \<Longrightarrow> keeps svc w (w\<lparr>remoteMgr := m\<rparr>)"
  by (rule keepsI) (simp_all add: same_process_def)

end

sublocale consistent_process \<subseteq>
  p: process_rel mp "process_handlers mp us n" "keeps svc" busi "\<lambda>_ _ w. w" "\<lambda>rid c. rid = svc c" "process_inv svc" for n
proof
  fix w k r assume "process_inv svc w" "remotes (remoteMgr w) k = Some r"
  then show "remoteId r = svc (rconn r)" using remote_invD(1) by (auto simp: process_inv_def mgr_inv_def)
qed (auto simp: keeps_refl keeps_SetState CreateSession_def HeartBeat_def
    intro: keeps_trans keeps_inv h.process_R keeps_rpc_send client_keeps remote_keeps close_keeps stop_keeps accept_keeps keeps_tick
      remoteMgr_keeps mgr_inv_discover mgr_inv_disappear)


section \<open>A reader that outlives its entry\<close>

text \<open>Property C40. (Deviation.) When etcd reports a service gone and back again (a lease that expired and was renewed), the goroutine of
  the old connection goes on reading without an entry. When that connection breaks, the goroutine deletes the entry
  under its address, which is the one of the new connection: the gate has an open connection to the only instance of
  the service, but from then on finds none, until etcd is listed again.\<close>

theorem stale_reader_drops_new_connection:
  assumes "mgr_inv svc (remoteMgr w)" "remotes (remoteMgr w) c = Some r" "c = GenConnIDByIPPort i p" "remoteId r = GetRemoteID ns s"
    "\<forall>c' r'. remotes (remoteMgr w) c' = Some r' \<and> remoteId r' = GetRemoteID ns s \<longrightarrow> c' = c" "rerr rd = OtherErr"
  shows "\<exists>m1 m2 w3 r2. run_remote_event dial t (Disappear ns s i p) (remoteMgr w) = Inr m1
    \<and> run_remote_event (\<lambda>_. True) t (Discover ns s i p) m1 = Inr m2 \<and> remotes m2 c = Some r2 \<and> remoteId r2 = GetRemoteID ns s
    \<and> orphan_iteration mp hs r rd (w\<lparr>remoteMgr := m2\<rparr>) = (Inr Break, r, w3)
    \<and> fst (ChoiceRemote intn (GetRemoteID ns s) ordered k (remoteMgr w3)) = Inr None
    \<and> proc_run mp hs busi cf (\<lambda>_ _. True) (w, os) (w3, r2 # os)"
proof -
  let ?rid = "GetRemoteID ns s" and ?m = "remoteMgr w"
  have svc: "svc c = ?rid" and rc: "rconn r = c"
    using assms(1,2,4) remote_invD(1) by (auto simp: mgr_inv_def)
  obtain m1 where m1: "OnRemoteDisappear ?rid c ?m = Inr m1" "remote_inv m1" "remotes m1 = (remotes ?m)(c := None)"
    using OnRemoteDisappear_ok [of ?m c ?rid] assms(1,2,4) by (auto simp: mgr_inv_def)
  have I1: "mgr_inv svc m1" by (rule mgr_inv_disappear [OF assms(1), of c]) (simp add: svc m1(1))
  define m2 where "m2 = OnRemoteDiscover (\<lambda>_. True) ns s i p t m1"
  have I2: "mgr_inv svc m2" unfolding m2_def by (rule mgr_inv_discover [OF I1]) (simp add: svc flip: assms(3))
  let ?r2 = "\<lparr>remoteId = ?rid, rconn = c, rrecv = new_recv, rlastActiveTime = t\<rparr>"
  have none: "remotes m1 (GenConnIDByIPPort i p) = None" using m1(3) assms(3) by simp
  have "connect_retry 5 (\<lambda>_. True) ns s i p t m1 = ConnectRemote ns s i p t m1" by (simp add: numeral_eq_Suc)
  then have r2: "remotes m2 = (remotes m1)(c \<mapsto> ?r2)"
    using none ConnectRemote_new(1) [OF m1(2) none, of ns s t] assms(3) by (simp add: m2_def OnRemoteDiscover_def)
  obtain m3 where m3: "OnRemoteDisappear ?rid c m2 = Inr m3" "remotes m3 = (remotes m2)(c := None)"
    using OnRemoteDisappear_ok [of m2 c ?rid] I2 r2 by (auto simp: mgr_inv_def)
  have I3: "mgr_inv svc m3" by (rule mgr_inv_disappear [OF I2, of c]) (simp add: svc m3(1))
  let ?w3 = "w\<lparr>remoteMgr := m3\<rparr>"
  have it: "orphan_iteration mp hs r rd (w\<lparr>remoteMgr := m2\<rparr>) = (Inr Break, r, ?w3)"
    using assms(4,6) m3(1) rc by (simp add: orphan_iteration_def Remote_HandleRead_def remote_exit_def GetConnID_def)
  have ev: "run_remote_event dial t (Disappear ns s i p) ?m = Inr m1" "run_remote_event (\<lambda>_. True) t (Discover ns s i p) m1 = Inr m2"
    using m1(1) assms(3) by (simp_all add: run_remote_event_def m2_def)
  have "remoteId r' \<noteq> ?rid" if "remotes m3 c' = Some r'" for c' r'
    using that assms(5) m1(3) m3(2) r2 by (auto split: if_splits)
  then have ch: "fst (ChoiceRemote intn ?rid ordered k m3) = Inr None"
    using mgr_inv_choice [OF I3, of intn ?rid ordered k] by fastforce
  let ?step = "proc_step mp hs busi cf (\<lambda>_ _. True)"
  have 1: "?step (w, os) (w\<lparr>remoteMgr := m1\<rparr>, r # os)"
    using proc_step.event [OF ev(1), of "\<lambda>_ _. True" mp hs busi cf os] assms(2,3) m1(3) by (simp add: orphaned_def)
  have 2: "?step (w\<lparr>remoteMgr := m1\<rparr>, r # os) (w\<lparr>remoteMgr := m2\<rparr>, r # os)"
    using proc_step.event [of "\<lambda>_. True" t "Discover ns s i p" "w\<lparr>remoteMgr := m1\<rparr>" m2 "\<lambda>_ _. True" mp hs busi cf "r # os"] ev(2) none
    by (simp add: orphaned_def)
  have "remote_exit r (w\<lparr>remoteMgr := m2\<rparr>) = (Inr Break, ?w3)" using m3(1) rc assms(4) by (simp add: remote_exit_def GetConnID_def)
  from proc_step.orphan_close [OF _ this, of "r # os" mp hs busi cf "\<lambda>_ _. True"]
  have 3: "?step (w\<lparr>remoteMgr := m2\<rparr>, r # os) (?w3, ?r2 # os)" using rc r2 m3(2) by (simp add: orphaned_def)
  have "proc_run mp hs busi cf (\<lambda>_ _. True) (w, os) (?w3, ?r2 # os)"
    using proc_run_trans [OF proc_run_step [OF 1] proc_run_trans [OF proc_run_step [OF 2] proc_run_step [OF 3]]] .
  with ev it ch r2 show ?thesis by (intro exI [of _ m1] exI [of _ m2] exI [of _ ?w3] exI [of _ ?r2]) simp
qed

text \<open>On a gate connected to one instance of \<open>ServiceA\<close>.\<close>

definition demo_one_service :: "unit handler world" where
  "demo_one_service = (demo_server 5)\<lparr>remoteMgr := ConnectRemote ''ns'' ''ServiceA'' ''10.0.0.1'' 80 0 CreateRemoteMgr\<rparr>"

lemma demo_one_service_remotes:
  "remotes (remoteMgr demo_one_service) = [GenConnIDByIPPort ''10.0.0.1'' 80 \<mapsto>
     \<lparr>remoteId = GetRemoteID ''ns'' ''ServiceA'', rconn = GenConnIDByIPPort ''10.0.0.1'' 80, rrecv = new_recv, rlastActiveTime = 0\<rparr>]"
  by (simp add: demo_one_service_def ConnectRemote_def CreateRemoteMgr_def Let_def AddElement_def new_LoadBalancer_def elems_def)

lemma demo_one_service_inv: "mgr_inv (\<lambda>_. GetRemoteID ''ns'' ''ServiceA'') (remoteMgr demo_one_service)"
proof -
  have "mgr_inv (\<lambda>_. GetRemoteID ''ns'' ''ServiceA'') (OnRemoteDiscover (\<lambda>_. True) ''ns'' ''ServiceA'' ''10.0.0.1'' 80 0 CreateRemoteMgr)"
    by (rule mgr_inv_discover) simp_all
  moreover have "remotes CreateRemoteMgr = Map.empty" by (simp add: CreateRemoteMgr_def)
  ultimately show ?thesis by (simp add: OnRemoteDiscover_def numeral_eq_Suc demo_one_service_def)
qed

theorem stale_reader_drops_new_connection_witness:
  "\<exists>w3 r2. proc_run mp_codec demo_hs (\<lambda>_ w. w) (\<lambda>_ _ w. w) (\<lambda>_ _. True) (demo_one_service, []) (w3, [r2])
     \<and> remoteId r2 = GetRemoteID ''ns'' ''ServiceA''
     \<and> fst (ChoiceRemote id (GetRemoteID ''ns'' ''ServiceA'') False ''9.9.9.9:1'' (remoteMgr w3)) = Inr None"
proof -
  let ?c = "GenConnIDByIPPort ''10.0.0.1'' 80"
  let ?r = "\<lparr>remoteId = GetRemoteID ''ns'' ''ServiceA'', rconn = ?c, rrecv = new_recv, rlastActiveTime = 0\<rparr>"
  have r: "remotes (remoteMgr demo_one_service) ?c = Some ?r" "remoteId ?r = GetRemoteID ''ns'' ''ServiceA''"
    "\<forall>c' r'. remotes (remoteMgr demo_one_service) c' = Some r' \<and> remoteId r' = GetRemoteID ''ns'' ''ServiceA'' \<longrightarrow> c' = ?c"
    "rerr \<lparr>rdata = [], rerr = OtherErr\<rparr> = OtherErr"
    by (simp_all add: demo_one_service_remotes)
  show ?thesis
    using stale_reader_drops_new_connection [OF demo_one_service_inv r(1) refl r(2,3,4), where os = "[]" and hs = demo_hs and mp = mp_codec
      and intn = id and ordered = False and k = "''9.9.9.9:1''" and busi = "\<lambda>_ w. w" and cf = "\<lambda>_ _ w. w"]
    by blast
qed

end
