(* ===== verification/Gate_Process.thy ===== *)
theory Gate_Process
  imports Process_Invariant Gate_Properties
begin

text \<open>
  The gate process: the steps of \<open>Process_System\<close> with the handlers of the gate. Every run of the process is a run of
  \<open>gate_step\<close>, so the contract of \<open>Gate_System\<close> holds of the process with its read loops, dispatch and task pool.
\<close>

section \<open>The process takes the steps of the gate\<close>

definition gate_reaches :: "msgpack \<Rightarrow> (nat \<Rightarrow> nat) \<Rightarrow> gate_world \<Rightarrow> gate_world \<Rightarrow> bool" where
  "gate_reaches mp intn w w' \<longleftrightarrow> (\<exists>tr. gate_run mp intn w tr w')"

lemma gate_run_append:
  "gate_run mp intn w2 tr2 w3 \<Longrightarrow> gate_run mp intn w1 tr1 w2 \<Longrightarrow> gate_run mp intn w1 (tr1 @ tr2) w3"
proof (induction arbitrary: tr1 rule: gate_run.induct)
  case (run_step w tr w1' l w2')
  have "gate_run mp intn w1 ((tr1 @ tr) @ [l]) w2'"
    by (rule gate_run.run_step [OF run_step.IH [OF run_step.prems] run_step.hyps(2)])
  then show ?case by simp
qed simp

lemma gate_reaches_refl: "gate_reaches mp intn w w"
  unfolding gate_reaches_def by (blast intro: run_nil)

lemma gate_reaches_trans: "gate_reaches mp intn w1 w2 \<Longrightarrow> gate_reaches mp intn w2 w3 \<Longrightarrow> gate_reaches mp intn w1 w3"
  unfolding gate_reaches_def by (blast intro: gate_run_append)

lemma gate_reaches_step: "gate_step mp intn w l w' \<Longrightarrow> gate_reaches mp intn w w'"
  unfolding gate_reaches_def using run_step [OF run_nil] by blast

lemma gate_reaches_io:
  "gate_reaches mp intn w (w\<lparr>gTaskPool := p\<rparr>)" "gate_reaches mp intn w (w\<lparr>nextSid := i, sessErr := se\<rparr>)"
  "gate_reaches mp intn w (w\<lparr>now := t\<rparr>)"
proof -
  show "gate_reaches mp intn w (w\<lparr>gTaskPool := p\<rparr>)"
    using gate_reaches_step [OF io [where w = w and tp = p and se = "sessErr w" and sd = "nextSid w" and t = "now w"]] by simp
  have eq: "w\<lparr>nextSid := i, sessErr := se\<rparr> = w\<lparr>sessErr := se, nextSid := i\<rparr>" by simp
  show "gate_reaches mp intn w (w\<lparr>nextSid := i, sessErr := se\<rparr>)"
    unfolding eq using gate_reaches_step [OF io [where w = w and tp = "gTaskPool w" and se = se and sd = i and t = "now w"]] by simp
  show "gate_reaches mp intn w (w\<lparr>now := t\<rparr>)"
    using gate_reaches_step [OF io [where w = w and tp = "gTaskPool w" and se = "sessErr w" and sd = "nextSid w" and t = t]] by simp
qed

interpretation gate_h: handler_rel mp "gate_user mp intn" "gate_reaches mp intn" for mp intn
proof
  fix u req session w e x w'
  assume p: "Process (gate_user mp intn) u req session w = (e, x, w')"
  show "gate_reaches mp intn w w'"
  proof (cases "u \<in> {G_C2GRpcRoute, G_S2GRpcRsp}")
    case True
    then show ?thesis using p by (auto simp: gate_user_def intro: gate_reaches_step [OF route] gate_reaches_step [OF rsp])
  qed (rule gate_reaches_step [OF handler [OF p]])
qed (auto intro: gate_reaches_refl gate_reaches_trans gate_reaches_step [OF default_rsp] gate_reaches_step [OF send] gate_reaches_step [OF count])

lemma gate_reaches_SetState: "gate_reaches mp intn w (SetState k st w)"
proof (cases "clients (tcpServer w) k")
  case None
  then have "SetState k st w = w" by (simp add: SetState_def fun_upd_idem)
  then show ?thesis using gate_reaches_refl by simp
next
  case (Some c)
  then have "SetState k st w = set_client k (c\<lparr>state := st\<rparr>) w" by (simp add: SetState_def set_client_def)
  with gate_reaches_step [OF gate_step.client [OF Some, of "c\<lparr>state := st\<rparr>"]] show ?thesis by simp
qed

interpretation gate_p: process_rel mp "gate_handlers mp intn n" "gate_reaches mp intn" "\<lambda>_ w. w" "\<lambda>_ _ w. w" "\<lambda>_ _. True" "\<lambda>_. True"
  for mp intn n
proof
  fix w1 w2 w3 assume "gate_reaches mp intn w1 w2" "gate_reaches mp intn w2 w3"
  then show "gate_reaches mp intn w1 w3" by (rule gate_reaches_trans)
qed (auto simp: CreateSession_def HeartBeat_def gate_handlers_def intro: gate_reaches_refl gate_h.process_R gate_reaches_SetState gate_reaches_step [OF send] gate_reaches_io
    gate_reaches_step [OF gate_step.client] gate_reaches_step [OF gate_step.remote_fields] gate_reaches_step [OF gate_step.close]
    gate_reaches_step [OF gate_step.stop] gate_reaches_step [OF gate_step.accept] gate_reaches_step [OF gate_step.tick]
    gate_reaches_step [OF gate_step.disconnect]
    gate_reaches_step [OF gate_step.remote [where ev = "Discover ns svc i p" for ns svc i p]] simp: run_remote_event_def)


section \<open>Properties\<close>

text \<open>Property C1. Refinement: every run of the gate process from its start, whatever its peers send and however its goroutines
  interleave, is a run of the request table as long as fewer than \<open>2 ^ 32 - 1\<close> requests were counted: a routed request gets an
  identifier that was never used before and enters the table, a response takes its request out of the table and is sent,
  with the number the request came with, to the connection that asked, a request leaves the table unanswered only when
  its connection is gone or it expires, and no other step changes the table. The messages of the trace were written, and
  its answers agree with its requests.\<close>

theorem gate_process_refines_request_table:
  assumes "gate_main mp intn n conf localip addr d t0 good_net = Inr w0"
    "proc_run mp (gate_handlers mp intn n) (\<lambda>_ w. w) (\<lambda>_ _ w. w) (\<lambda>_ _. True) (w0, []) (w, os)"
    "rpcFvcTotal w + 1 < 2 ^ 32"
  shows "\<exists>tr t. gate_run mp intn w0 tr w \<and> spec_run mp tracker0 tr t \<and> pending t = abs_pending w
    \<and> agreement mp tr \<and> set (concat (map label_msgs tr)) \<subseteq> set (out w)"
proof -
  obtain tr where tr: "gate_run mp intn w0 tr w" using gate_p.run_R [OF assms(2)] by (auto simp: gate_reaches_def)
  note M = gate_main_Inr [OF assms(1)] and S = gate_sim_main [OF assms(1)]
  have len: "length (routed_ids tr) + 1 < 2 ^ 32" using gate_run_counts [OF tr] assms(3) by simp
  obtain t where t: "spec_run mp tracker0 tr t" "gate_sim w t" using gate_sim_run [OF tr S len M(2)] by blast
  with tr gate_run_writes [OF tr S len M(2)] spec_run_inv [OF t(1)] show ?thesis by (auto simp: gate_sim_def)
qed


text \<open>The example gate: the packet of a client is queued, a worker runs it, and the request is pending under identifier 1.\<close>

definition demo_route_args :: "gval list" where
  "demo_route_args = [VStr ''ns'', VStr ''ServiceA'', vu32 7, VBool False, VBytes (RpcEncode mp_codec ''rpc_b'' [vu32 10])]"

definition demo_task :: task where
  "demo_task = \<lparr>tSession = demo_session, tName = MSG_C2G_RPC_ROUTE, tArgs = concat (map (\<lambda>arg. fst (enc mp_codec arg)) demo_route_args)\<rparr>"

abbreviation demo_gate_proc :: "(REMOTE_ID \<Rightarrow> CONN_ID \<Rightarrow> bool) \<Rightarrow> gate_world \<times> Remote list \<Rightarrow> gate_world \<times> Remote list \<Rightarrow> bool" where
  "demo_gate_proc A \<equiv> proc_run mp_codec (gate_handlers mp_codec id 1) (\<lambda>_ w. w) (\<lambda>_ _ w. w) A"

lemma demo_queued:
  "RpcDecode mp_codec (gate_handlers mp_codec id 1) demo_session (RpcEncode mp_codec MSG_C2G_RPC_ROUTE demo_route_args) demo_g2 =
     (Inr (), demo_g2\<lparr>gTaskPool := ProduceTask demo_task (gTaskPool demo_g2)\<rparr>)"
  unfolding demo_task_def
  by (rule verified_queued [where c = demo_conn])
    (simp_all add: codec_ok_mp GetTcpClient_def demo_g2_facts demo_conn_def msg_names IsSync_def)

lemma demo_registered:
  "rpcs (rpcMgr demo_g2) MSG_C2G_RPC_ROUTE = Some (H_User G_C2GRpcRoute)"
  "rpcs (rpcMgr demo_g2) MSG_S2G_RPC_RSP = Some (H_User G_S2GRpcRsp)"
proof -
  obtain r where r: "gate_rpcMgr mp_codec id 1 = Inr r" "rpcs r = map_of (default_handlers @ gate_registrations)"
    using gate_rpcMgr_ok [of mp_codec id 1] by blast
  have "rpcMgr demo_g0 = r" using gate_main_Inr(12) [OF demo_g0_main] r(1) by simp
  then show "rpcs (rpcMgr demo_g2) MSG_C2G_RPC_ROUTE = Some (H_User G_C2GRpcRoute)"
    "rpcs (rpcMgr demo_g2) MSG_S2G_RPC_RSP = Some (H_User G_S2GRpcRsp)"
    using r(2) by (simp_all add: demo_g2_def demo_g1_def default_handlers_def gate_registrations_def msg_names)
qed

lemma demo_inner_len: "length (RpcEncode mp_codec ''rpc_b'' [vu32 10]) < 2 ^ 32"
  by (simp add: RpcEncode_def mp_codec_def put_str_def vu32_def be32_def)

lemma demo_connected_run:
  assumes "A (GetRemoteID ''ns'' ''ServiceA'') (GenConnIDByIPPort ''10.0.0.1'' 80)"
  shows "demo_gate_proc A (demo_g0, []) (demo_g2, [])"
proof -
  let ?step = "proc_step mp_codec (gate_handlers mp_codec id 1) (\<lambda>_ w. w) (\<lambda>_ _ w. w) A"
  have 1: "?step (demo_g0, []) (demo_g1, [])" by (rule proc_step.accept [OF demo_accepted]) simp
  have "?step (demo_g1, []) (demo_g1\<lparr>remoteMgr := demo_mgr\<rparr>, orphaned (event_addr (Discover ''ns'' ''ServiceA'' ''10.0.0.1'' 80)) (remoteMgr demo_g1) demo_mgr @ [])"
    by (rule proc_step.event [OF demo_discovered]) (simp add: assms)
  moreover have "remoteMgr demo_g1 = CreateRemoteMgr" using gate_main_Inr(5) [OF demo_g0_main] by (simp add: demo_g1_def)
  ultimately have "?step (demo_g1, []) (demo_g2, [])" by (simp add: demo_g2_def orphaned_def CreateRemoteMgr_def)
  from proc_run_trans [OF proc_run_step [OF 1] proc_run_step [OF this]] show ?thesis .
qed

lemma demo_mgr_remote:
  "remotes demo_mgr (GenConnIDByIPPort ''10.0.0.1'' 80) = Some \<lparr>remoteId = GetRemoteID ''ns'' ''ServiceA'',
     rconn = GenConnIDByIPPort ''10.0.0.1'' 80, rrecv = new_recv, rlastActiveTime = 0\<rparr>"
  by (simp add: demo_mgr_def ConnectRemote_def CreateRemoteMgr_def Let_def AddElement_def new_LoadBalancer_def elems_def)

lemma demo_pending_run:
  assumes "A (GetRemoteID ''ns'' ''ServiceA'') (GenConnIDByIPPort ''10.0.0.1'' 80)"
  shows "\<exists>w. demo_gate_proc A (demo_g0, []) (w, []) \<and> rpcFvcTotal w = 1 \<and> abs_pending w = [1 \<mapsto> (''9.9.9.9:1'', 7)]"
proof -
  let ?hs = "gate_handlers mp_codec id 1" and ?step = "proc_step mp_codec (gate_handlers mp_codec id 1) (\<lambda>_ w. w) (\<lambda>_ _ w. w) A"
  define p where "p = (ProduceTask demo_task (gTaskPool demo_g2))\<lparr>taskCh := [], running := [demo_task]\<rparr>"
  define w3 where "w3 = demo_g2\<lparr>gTaskPool := ProduceTask demo_task (gTaskPool demo_g2)\<rparr>"
  define w4 where "w4 = demo_g2\<lparr>gTaskPool := p\<rparr>"
  have pool: "gTaskPool demo_g2 = new_TaskPool"
    using gate_main_Inr(11) [OF demo_g0_main] by (simp add: demo_g2_def demo_g1_def)
  have 3: "?step (demo_g2, []) (w3, [])" unfolding w3_def by (rule proc_step.packet [OF demo_queued])
  have "worker_take (gTaskPool w3) = Some (demo_task, p)"
    by (simp add: w3_def p_def pool ProduceTask_def new_TaskPool_def worker_take_def coroutinesSize_def)
  from proc_step.take_task [OF this] have 4: "?step (w3, []) (w4, [])" by (simp add: w3_def w4_def)
  have f4: "remote_inv (remoteMgr w4)" "cb_wf (cbMgr w4)" "netWrite w4 = good_net"
    "route_check mp_codec (demo_req ''rpc_b'') demo_session w4 = []" "cbMgr w4 = new_cbmgr" "globalGID w4 = 0" "rpcFvcTotal w4 = 0"
    by (simp_all add: w4_def demo_g2_facts demo_mgr_def inv_intros route_check_def)
  have rem: "remotes (remoteMgr w4) (GenConnIDByIPPort ''10.0.0.1'' 80) = Some \<lparr>remoteId = GetRemoteID ''ns'' ''ServiceA'',
     rconn = GenConnIDByIPPort ''10.0.0.1'' 80, rrecv = new_recv, rlastActiveTime = 0\<rparr>"
    using demo_mgr_remote by (simp add: w4_def demo_g2_facts)
  obtain b where b: "MessageEncode (RpcEncode mp_codec MSG_G2S_RPC_CALL [vu32 (globalGID w4 + 1), VBytes (rInnerRpc (demo_req ''rpc_b''))]) = Inr b" "b \<noteq> []"
    by (simp add: MessageEncode_ok RpcEncode_def mp_codec_def put_str_def msg_names demo_req_def vu32_def be32_def f4)
  obtain w5 where w5: "RpcC2GRpcRoute_Process mp_codec id (demo_req ''rpc_b'') demo_session w4 = (None, None, w5)"
    "cb_lookup (cbMgr w5) = (cb_lookup (cbMgr w4))(globalGID w4 + 1 \<mapsto> [ARoute (route_cbInfo mp_codec (demo_req ''rpc_b'') demo_session w4)])"
    using route_forwarded [OF f4(1-4) _ _ rem _ b, of id] by auto
  have "run_task mp_codec ?hs demo_task w4 = ((case None of None \<Rightarrow> Inr () | Some p \<Rightarrow> Inl p), w5)"
    unfolding demo_task_def
  proof (rule run_task_args [OF codec_ok_mp, where x = None and fs = RpcC2GRpcRouteReq])
    show "rpcs (rpcMgr w4) MSG_C2G_RPC_ROUTE = Some (H_User G_C2GRpcRoute)" using demo_registered by (simp add: w4_def)
    have "as_route_req demo_route_args = demo_req ''rpc_b''" by (simp add: as_route_req_def demo_route_args_def demo_req_def)
    then show "Process ?hs (H_User G_C2GRpcRoute) demo_route_args demo_session w4 = (None, None, w5)"
      using w5(1) by (simp add: gate_handlers_def gate_user_def)
    show "list_all2 has_type demo_route_args (map snd RpcC2GRpcRouteReq)"
      using demo_inner_len by (simp add: demo_route_args_def RpcC2GRpcRouteReq_def)
  qed (simp add: gate_handlers_def gate_user_def)
  then have t: "run_task mp_codec ?hs demo_task w4 = (Inr (), w5)" by simp
  have "demo_task \<in> set (running (gTaskPool w4))" by (simp add: w4_def p_def)
  from proc_step.run [OF this t] have 5: "?step (w4, []) (w5\<lparr>gTaskPool := worker_done demo_task (gTaskPool w5)\<rparr>, [])" .
  let ?w6 = "w5\<lparr>gTaskPool := worker_done demo_task (gTaskPool w5)\<rparr>"
  have "demo_gate_proc A (demo_g0, []) (?w6, [])"
    using demo_connected_run [of A, OF assms] 3 4 5 unfolding proc_run_def by (meson rtranclp.rtrancl_into_rtrancl)
  moreover have "rpcFvcTotal ?w6 = 1" using route_counts [OF w5(1)] f4(7) by simp
  moreover have "abs_pending ?w6 = [1 \<mapsto> (''9.9.9.9:1'', 7)]"
    using w5(2) by (auto simp: abs_pending_def f4 route_cbInfo_def GetConnID_def fun_eq_iff cb_lookup_def new_cbmgr_def)
  ultimately show ?thesis by blast
qed

theorem gate_process_refines_request_table_witness:
  "\<exists>w tr t. demo_gate_proc (\<lambda>_ _. True) (demo_g0, []) (w, []) \<and> gate_run mp_codec id demo_g0 tr w \<and> spec_run mp_codec tracker0 tr t
     \<and> pending t = [1 \<mapsto> (''9.9.9.9:1'', 7)] \<and> agreement mp_codec tr"
proof -
  obtain w where w: "demo_gate_proc (\<lambda>_ _. True) (demo_g0, []) (w, [])" "rpcFvcTotal w = 1" "abs_pending w = [1 \<mapsto> (''9.9.9.9:1'', 7)]"
    using demo_pending_run [of "\<lambda>_ _. True"] by auto
  from gate_process_refines_request_table [OF demo_g0_main w(1)] w show ?thesis by auto
qed


section \<open>The gate process is consistent\<close>

lemma keeps_route_error: "route_error mp req session err w = (e, x, w') \<Longrightarrow> keeps svc w w'"
  by (auto simp: route_error_def keeps_refl split: if_splits dest: keeps_no_rsp_send)

lemma keeps_route:
  assumes "RpcC2GRpcRoute_Process mp intn req session w = (e, x, w')"
  shows "keeps svc w w'"
proof -
  let ?w0 = "RpcFvcCount w" and ?rid = "GetRemoteID (rNameSpace req) (rService req)"
  have 0: "keeps svc w ?w0" by simp
  show ?thesis
  proof (cases "route_check mp req session ?w0 = []")
    case False
    then have "route_error mp req session (route_check mp req session ?w0) ?w0 = (e, x, w')"
      using assms by (simp add: RpcC2GRpcRoute_Process_def Let_def)
    from keeps_trans [OF 0 keeps_route_error [OF this]] show ?thesis .
  next
    case True
    obtain res m where c: "ChoiceRemote intn ?rid (rIsOrdered req) (sconn session) (remoteMgr ?w0) = (res, m)" by fastforce
    let ?w1 = "?w0\<lparr>remoteMgr := m\<rparr>"
    have 1: "keeps svc w ?w1" by (rule keeps_trans [OF 0 keeps_choice [OF c]])
    have "keeps svc ?w1 w'"
    proof (cases "\<exists>r. res = Inr (Some r) \<and> rRid req \<noteq> 0")
      case False
      then show ?thesis using assms True c
        by (auto simp: RpcC2GRpcRoute_Process_def Let_def GetConnID_def keeps_refl split: sum.splits option.splits if_splits
            dest: keeps_route_error keeps_no_rsp_send)
    next
      case True
      let ?w2 = "?w1\<lparr>globalGID := globalGID w + 1\<rparr>"
      obtain a w3 where a: "add_callback (globalGID w + 1) [ARoute (route_cbInfo mp req session ?w2)] 101 None ?w2 = (a, w3)" by fastforce
      have "keeps svc ?w1 ?w2" by simp
      moreover note keeps_add_callback [OF a]
      moreover have "keeps svc w3 w'" using assms True \<open>route_check mp req session ?w0 = []\<close> c a
        by (auto simp: RpcC2GRpcRoute_Process_def Let_def GetConnID_def NewGid_def keeps_refl split: sum.splits
            dest: keeps_no_rsp_send)
      ultimately show ?thesis by (blast intro: keeps_trans)
    qed
    with 1 show ?thesis by (rule keeps_trans)
  qed
qed

lemma keeps_rsp:
  assumes "RpcS2GRpcRsp_Process mp req session w = (e, x, w')"
  shows "keeps svc w w'"
proof -
  obtain r w1 where g: "get_callback (as_u32 (req ! 0)) w = (r, w1)" by fastforce
  have "keeps svc w1 w'" using assms g
    by (auto simp: RpcS2GRpcRsp_Process_def keeps_refl split: option.splits list.splits gany.splits dest: keeps_no_rsp_send)
  with keeps_get_callback [OF g] show ?thesis by (rule keeps_trans)
qed

lemma keeps_gate_fields: "keeps svc w (w\<lparr>gdb := d\<rparr>)" "keeps svc w (w\<lparr>gClientAccess := a\<rparr>)"
  by (auto intro!: keepsI simp: same_process_def)

lemma keeps_gate_user: "Process (gate_user mp intn) u req session w = (e, x, w') \<Longrightarrow> keeps svc w w'"
  by (cases u)
    (auto simp: gate_user_def RpcGateLogin_Process_def RpcGateLogoff_Process_def RpcReqListenAddr_Process_def RpcP2GPush_Process_def
      RpcC2GVertify_Process_def RpcS2GRpcAccessReport_Process_def Let_def keeps_refl keeps_SetState keeps_gate_fields
      split: option.splits prod.splits sum.splits if_splits
      dest: keeps_route keeps_rsp keeps_rpc_send keeps_no_rsp_send)

interpretation gate_c: consistent_process mp "gate_user mp intn" "\<lambda>_ w. w" svc for mp intn svc
  by unfold_locales (auto intro: keeps_gate_user same_out)

lemma process_inv_main:
  assumes "gate_main mp intn n conf localip addr d t0 nw = Inr w0"
  shows "process_inv svc w0"
  by (rule process_inv_init) (simp_all add: gate_main_Inr [OF assms])

lemma gate_reachable:
  assumes "gate_main mp intn n conf localip addr d t0 nw = Inr w0"
    "proc_run mp (gate_handlers mp intn n) (\<lambda>_ w. w) (\<lambda>_ _ w. w) (\<lambda>rid c. rid = svc c) (w0, []) (w, os)"
  shows "process_inv svc w" "same_process w0 w" "\<forall>r\<in>set os. remoteId r = svc (rconn r)"
  using gate_c.p.run_R [OF assms(2) [unfolded gate_handlers_def] process_inv_main [OF assms(1)]]
  by (auto simp: keeps_def)

text \<open>Property C11. Consistency of a running gate: as long as every address is used by one service only, in every state the process
  reaches the load balancer of the server holds exactly the connected clients, the load balancer of every service
  exactly its live connections, each with a valid receive buffer, ordered clients are pinned to connections of the
  service they asked for, the callback manager is well formed, a goroutine that reads on without an entry belongs to the
  service of its address, and the registry, the identity and the configuration are those of the start.\<close>

theorem gate_process_consistent:
  assumes "gate_main mp intn n conf localip addr d t0 nw = Inr w0"
    "proc_run mp (gate_handlers mp intn n) (\<lambda>_ w. w) (\<lambda>_ _ w. w) (\<lambda>rid c. rid = svc c) (w0, []) (w, os)"
  shows "server_inv (tcpServer w) \<and> mgr_inv svc (remoteMgr w) \<and> cb_wf (cbMgr w)
    \<and> (\<forall>r\<in>set os. remoteId r = svc (rconn r)) \<and> same_process w0 w"
  using gate_reachable [OF assms] by (simp add: process_inv_def srv_inv_def)

theorem gate_process_consistent_witness:
  "\<exists>w. demo_gate_proc (\<lambda>rid c. rid = ''ns:ServiceA'') (demo_g0, []) (w, []) \<and> abs_pending w 1 \<noteq> None
     \<and> server_inv (tcpServer w) \<and> mgr_inv (\<lambda>_. ''ns:ServiceA'') (remoteMgr w) \<and> rpcMgr w = rpcMgr demo_g0"
proof -
  obtain w where w: "demo_gate_proc (\<lambda>rid c. rid = ''ns:ServiceA'') (demo_g0, []) (w, [])" "abs_pending w = [1 \<mapsto> (''9.9.9.9:1'', 7)]"
    using demo_pending_run [of "\<lambda>rid c. rid = ''ns:ServiceA''"] by (auto simp: GetRemoteID_def)
  from gate_process_consistent [OF demo_g0_main, of "\<lambda>_. ''ns:ServiceA''", OF w(1)] w show ?thesis
    by (auto simp: same_process_def)
qed



end
