(* ===== verification/Service_Process.thy ===== *)
theory Service_Process
  imports Process_Invariant Services Push_Service
begin

text \<open>
  The processes of the services: the handlers of service A, service B and the push service keep the invariant of
  \<open>Process_Invariant\<close>, so it holds in every state these processes reach. A handler of service A that calls another
  service runs here with the responses its channel receives.
\<close>

section \<open>The calls of a service\<close>

lemma keeps_pick:
  assumes "LoadBalance BALANCE_STRATEGY intn (slb (tcpServer w)) = Inr (k, lb)"
  shows "keeps svc w (w\<lparr>tcpServer := (tcpServer w)\<lparr>slb := lb\<rparr>\<rparr>)"
proof (rule keepsI)
  have "LoadBalance BalanceStrategy_RoundRobin intn (slb (tcpServer w)) = Inr (k, lb)" using assms by (simp add: BALANCE_STRATEGY_def)
  from rr.pick_frame [OF this] show "srv_inv (tcpServer w) \<Longrightarrow> srv_inv (tcpServer (w\<lparr>tcpServer := (tcpServer w)\<lparr>slb := lb\<rparr>\<rparr>))"
    by (auto simp: srv_inv_def server_inv_def)
qed (simp_all add: same_process_def)

lemma keeps_MessageSend: "MessageSend c m w = (b, w') \<Longrightarrow> keeps svc w w'"
  using MessageSend_frame by fastforce

lemma keeps_RpcCall_send:
  assumes "RpcCall_send mp intn s rpc rid args w = (r, w')"
  shows "keeps svc w w'"
proof (cases "MessageEncode (RpcEncode mp MSG_C2G_RPC_ROUTE
    [VStr (Namespace (cfg w)), VStr s, vu32 rid, VBool False, VBytes (RpcEncode mp rpc args)])")
  case (Inr msg)
  show ?thesis
  proof (cases "LoadBalance BALANCE_STRATEGY intn (slb (tcpServer w))")
    case (Inr x)
    obtain k lb where x: "x = (k, lb)" by fastforce
    let ?w1 = "w\<lparr>tcpServer := (tcpServer w)\<lparr>slb := lb\<rparr>\<rparr>"
    have 1: "keeps svc w ?w1" using keeps_pick Inr x by blast
    show ?thesis
    proof (cases "clients (tcpServer w) k")
      case None
      then have "w' = ?w1" using assms \<open>MessageEncode _ = Inr msg\<close> Inr x by (simp add: RpcCall_send_def Let_def)
      then show ?thesis using 1 by simp
    next
      case (Some client)
      let ?w2 = "?w1\<lparr>nextChan := Suc (nextChan w)\<rparr>" and ?cb = "Some (SendTimeout (nextChan w) (timeout_text (Namespace (cfg w)) s rpc))"
      obtain a w3 where a: "(if rid \<noteq> 0 then add_callback rid [AChan (nextChan w)] 33 ?cb ?w2 else (Inr (), ?w2)) = (a, w3)" by fastforce
      obtain b w4 where b: "MessageSend (Some (cconn client)) msg w3 = (b, w4)" by fastforce
      have "keeps svc ?w1 ?w2" by simp
      moreover have "keeps svc ?w2 w3" using a keeps_add_callback keeps_refl by (auto split: if_splits)
      moreover have "keeps svc w3 w'"
      proof -
        have w': "w' = w3 \<or> w' = w4 \<or> w' = w4\<lparr>chanRecv := insert (nextChan w) (chanRecv w4)\<rparr>"
          using assms \<open>MessageEncode _ = Inr msg\<close> Inr x Some a b
          by (auto simp: RpcCall_send_def Let_def split: sum.splits bool.splits if_splits)
        with keeps_MessageSend [OF b] show ?thesis by (auto intro: keeps_refl keeps_trans [OF _ keeps_fields(9)])
      qed
      ultimately show ?thesis using 1 by (blast intro: keeps_trans)
    qed
  qed (use assms Inr in \<open>auto simp: RpcCall_send_def Let_def keeps_refl\<close>)
qed (use assms in \<open>auto simp: RpcCall_send_def Let_def keeps_refl\<close>)

lemma keeps_RpcCall_recv:
  assumes "RpcCall_recv mp intn s rpc cnt args rsp w = (r, w')"
  shows "keeps svc w w'"
  using assms
  by (auto simp: RpcCall_recv_def NewGid_def keeps_refl split: call_rsp.splits if_splits
      intro: keeps_trans [OF keeps_fields(7) keeps_RpcCall_send])

lemma keeps_RpcCall_run:
  "RpcCall_run mp intn s rpc cnt args rsps (st, w) = (st', w') \<Longrightarrow> keeps svc w w'"
proof (induction rsps arbitrary: cnt st w)
  case (Cons r rs)
  show ?case
  proof (cases "\<exists>ch. st = Inr (Waiting ch)")
    case True
    obtain st1 w1 where r1: "RpcCall_recv mp intn s rpc cnt args r w = (st1, w1)" by fastforce
    then have "RpcCall_run mp intn s rpc (cnt - 1) args rs (st1, w1) = (st', w')" using Cons.prems True by auto
    from keeps_trans [OF keeps_RpcCall_recv [OF r1] Cons.IH [OF this]] show ?thesis .
  next
    case False
    then have "w' = w" using Cons.prems by (auto split: sum.splits call_status.splits)
    then show ?thesis using keeps_refl by simp
  qed
qed (simp add: keeps_refl)

lemma keeps_RpcCall: "RpcCall mp intn s rpc rid cnt args rsps w = (r, w') \<Longrightarrow> keeps svc w w'"
  unfolding RpcCall_def
  by (cases "RpcCall_send mp intn s rpc rid args w") (auto intro: keeps_trans [OF keeps_RpcCall_send keeps_RpcCall_run])

lemma keeps_RpcCallSync:
  assumes "RpcCallSync mp intn s rpc args rsps w = (r, w')"
  shows "keeps svc w w'"
  using assms by (auto simp: RpcCallSync_def NewGid_def intro: keeps_trans [OF keeps_fields(7) keeps_RpcCall])

section \<open>The handlers\<close>

lemma keeps_RpcA:
  assumes "RpcA_Process mp intn rsps req session w = (e, x, w')"
  shows "keeps svc w w'"
proof -
  obtain r w1 where c: "RpcCallSync mp intn ''ServiceA'' ''rpc_b'' [vu32 10] rsps w = (r, w1)" by fastforce
  have "keeps svc w1 w'" using assms c
    by (auto simp: RpcA_Process_def SetResponseErr_def keeps_refl split: sum.splits call_status.splits if_splits)
  with keeps_RpcCallSync [OF c] show ?thesis by (rule keeps_trans)
qed

lemma keeps_service_a_user: "Process (service_a_user mp intn rsps) u req session w = (e, x, w') \<Longrightarrow> keeps svc w w'"
proof -
  have sdb: "keeps svc w (w\<lparr>sdb := d\<rparr>)" for d by (rule keepsI) (simp_all add: same_process_def)
  show ?thesis if "Process (service_a_user mp intn rsps) u req session w = (e, x, w')"
    using that
    by (cases u) (auto simp: service_a_user_def RpcB_Process_def RpcDBTest_Process_def RpcPushTest_Process_def PushClientSafe_def
        PushSafe_def RpcCallAsync_def no_rsp_def keeps_refl sdb split: prod.splits sum.splits dest: keeps_RpcA keeps_RpcCall)
qed

lemma keeps_push_fields: "keeps svc w (w\<lparr>pdb := d\<rparr>)" "keeps svc w (w\<lparr>gGateAddrMap := a\<rparr>)"
  by (auto intro!: keepsI simp: same_process_def)

lemma keeps_PushToGate:
  assumes "PushToGate mp clientID tpe msg pid w = (r, w')"
  shows "keeps svc w w'"
proof (cases "push_key tpe clientID")
  case (Some key)
  obtain a d where a: "db_call (GetRedisCluster ''myRedis2'' (gDBResource (pdb w))) (RedisGet key) (pdb w) = (a, d)" by fastforce
  let ?w1 = "w\<lparr>pdb := d\<rparr>"
  have "keeps svc ?w1 w'" using assms Some a
    by (auto simp: PushToGate_def Let_def keeps_refl split: sum.splits prod.splits option.splits if_splits dest: keeps_rpc_send)
  with keeps_push_fields(1) [of svc w d] show ?thesis by (rule keeps_trans)
qed (use assms in \<open>simp add: PushToGate_def keeps_refl\<close>)

lemma keeps_restore_docs: "restore_docs mp docs w = (r, w') \<Longrightarrow> keeps svc w w'"
proof (induction docs arbitrary: w)
  case (Cons doc docs)
  show ?case
  proof (cases "read_record doc")
    case (Inr x)
    obtain objID cid tpe msg where x: "x = (objID, cid, tpe, msg)" by (cases x)
    obtain a w1 where a: "PushToGate mp cid tpe msg objID w = (a, w1)" by fastforce
    have "keeps svc w1 w'" using Cons Inr x a by (auto simp: keeps_refl split: sum.splits)
    with keeps_PushToGate [OF a] show ?thesis by (rule keeps_trans)
  qed (use Cons.prems in \<open>simp add: keeps_refl\<close>)
qed (simp add: keeps_refl)

lemma keeps_push_user:
  assumes "Process (push_user mp) u req session w = (e, x, w')"
  shows "keeps svc w w'"
proof -
  have P: "no_rsp (PushToGate mp c t m p (w\<lparr>pdb := d\<rparr>)) = (e, x, w') \<Longrightarrow> keeps svc w w'"
    "no_rsp (restore_docs mp docs (w\<lparr>pdb := d\<rparr>)) = (e, x, w') \<Longrightarrow> keeps svc w w'" 
    "no_rsp (PushToGate mp c t m p w) = (e, x, w') \<Longrightarrow> keeps svc w w'" for c t m p d docs
    by (auto simp: no_rsp_def split: prod.splits sum.splits
        intro: keeps_trans [OF keeps_push_fields(1) keeps_PushToGate] keeps_trans [OF keeps_push_fields(1) keeps_restore_docs] keeps_PushToGate)
  show ?thesis using assms
    by (cases u) (auto simp: push_user_def RpcRspListenAddr_Process_def RpcS2PPush_Process_def RpcPushReply_Process_def
        RpcPushRestore_Process_def Let_def keeps_push_fields split: prod.splits sum.splits if_splits dest: P)
qed

section \<open>The processes\<close>

interpretation service_a_c: consistent_process mp "service_a_user mp intn rsps" "\<lambda>_ w. w" svc for mp intn rsps svc
  by unfold_locales (auto intro: keeps_service_a_user same_out)

interpretation service_b_c: consistent_process mp service_b_user "\<lambda>_ w. w" svc for mp svc
  by unfold_locales (auto simp: service_b_user_def RpcB_Process_def keeps_refl intro: same_out)

interpretation push_c: consistent_process mp "push_user mp" "onTcpAccept mp" svc for mp svc
proof
  fix c and w :: push_world
  show "\<exists>o'. onTcpAccept mp c w = w\<lparr>out := o'\<rparr>"
    unfolding onTcpAccept_def using rpc_send_frame [of mp "Some c" MSG_P2G_REQ_LISTENADDR "[]" w] by (metis prod.collapse)
qed (rule keeps_push_user)


lemma service_a_main_Inr:
  assumes "service_a_main mp intn rsps n conf localip d t nw = Inr w"
  shows "serverIdentity w = SERVER_IDENTITY_SERVICE" "\<not> stop (tcpServer w)" "cfg w = conf" "netWrite w = nw"
    "clients (tcpServer w) = Map.empty" "start_registry (service_a_handlers mp intn rsps n) service_a_registrations = Inr (rpcMgr w)"
  using assms by (auto simp: service_a_main_def res_bind_Inr_iff world.defs Init_def CreateTcpServer_def)

lemma service_a_reachable:
  assumes "service_a_main mp intn rsps n conf localip d t nw = Inr w0"
    "proc_run mp (service_a_handlers mp intn rsps n) (\<lambda>_ w. w) (\<lambda>_ _ w. w) (\<lambda>rid c. rid = svc c) (w0, []) (w, os)"
  shows "process_inv svc w" "same_process w0 w"
proof -
  have "process_inv svc w0" by (rule process_inv_init)
      (use assms(1) in \<open>auto simp: service_a_main_def res_bind_Inr_iff world.defs Init_def CreateTcpServer_def\<close>)
  from service_a_c.p.run_R [OF assms(2) [unfolded service_a_handlers_def] this]
  show "process_inv svc w" "same_process w0 w" by (auto simp: keeps_def)
qed

lemma service_b_reachable:
  assumes "service_b_main mp n conf localip t nw = Inr w0"
    "proc_run mp (process_handlers mp service_b_user n) (\<lambda>_ w. w) (\<lambda>_ _ w. w) (\<lambda>rid c. rid = svc c) (w0, []) (w, os)"
  shows "process_inv svc w" "same_process w0 w"
proof -
  have "process_inv svc w0" by (rule process_inv_init)
      (use assms(1) in \<open>auto simp: service_b_main_def res_bind_Inr_iff Init_def CreateTcpServer_def\<close>)
  from service_b_c.p.run_R [OF assms(2) this]
  show "process_inv svc w" "same_process w0 w" by (auto simp: keeps_def)
qed

lemma push_reachable:
  assumes "push_main mp n conf localip d t nw = Inr w0"
    "proc_run mp (push_handlers mp n) (onTcpAccept mp) (\<lambda>_ _ w. w) (\<lambda>rid c. rid = svc c) (w0, []) (w, os)"
  shows "process_inv svc w" "same_process w0 w"
proof -
  have "process_inv svc w0" by (rule process_inv_init)
      (use assms(1) in \<open>auto simp: push_main_def res_bind_Inr_iff world.defs Init_def CreateTcpServer_def\<close>)
  from push_c.p.run_R [OF assms(2) [unfolded push_handlers_def] this]
  show "process_inv svc w" "same_process w0 w" by (auto simp: keeps_def)
qed

section \<open>Properties\<close>



text \<open>Service A with one connected gate.\<close>

definition demo_a0 :: service_world where
  "demo_a0 = projr (service_a_main mp_codec id [] 1 demo_cfg ''10.0.0.1'' \<lparr>gDBResource = Map.empty, dbAnswer = (\<lambda>_ _. DbOk), dbLog = []\<rparr> 0 good_net)"

lemma demo_a0_registry:
  "\<exists>r. start_registry (service_a_handlers mp_codec id [] 1) service_a_registrations = Inr r
     \<and> clientAccess r = [(''b'', False), (''t'', False), (''d'', False), (''e'', False), (''f'', False), (''rpc_a'', True), (''rpc_b'', True),
          (''rpc_db_test'', False), (''rpc_push_test'', True)]"
  by (simp add: start_registry_def CreateSimpleRpcMgr_def default_handlers_def service_a_registrations_def RegistRpcHandler_def
      GenClientAccess_def empty_rpcMgr_def msg_names service_a_handlers_def service_a_user_def StopRcpHandlerRegist_def)

lemma demo_a0_main:
  "service_a_main mp_codec id [] 1 demo_cfg ''10.0.0.1'' \<lparr>gDBResource = Map.empty, dbAnswer = (\<lambda>_ _. DbOk), dbLog = []\<rparr> 0 good_net = Inr demo_a0"
  using demo_a0_registry by (auto simp: demo_a0_def service_a_main_def)

lemma demo_a_report:
  "\<exists>m. MessageEncode (RpcEncode mp_codec MSG_S2G_RPC_ACCESS_REPORT
     [VStr (Namespace (cfg demo_a0) @ '':'' @ Service (cfg demo_a0)), access_map (clientAccess (rpcMgr demo_a0))]) = Inr m \<and> m \<noteq> []"
proof -
  note M = service_a_main_Inr [OF demo_a0_main]
  have "clientAccess (rpcMgr demo_a0) = [(''b'', False), (''t'', False), (''d'', False), (''e'', False), (''f'', False), (''rpc_a'', True),
      (''rpc_b'', True), (''rpc_db_test'', False), (''rpc_push_test'', True)]"
    using demo_a0_registry M(6) by auto
  then show ?thesis
    by (simp add: M(3) demo_cfg_def MessageEncode_ok RpcEncode_def mp_codec_def put_str_def msg_names access_map_def)
qed

lemma demo_a_connected:
  "\<exists>w. accept_conn mp_codec (\<lambda>_ w. w) ''10.0.0.9:8888'' demo_a0 = (Inr (), w) \<and> dom (clients (tcpServer w)) = {''10.0.0.9:8888''}"
proof -
  note M = service_a_main_Inr [OF demo_a0_main]
  obtain m where m: "MessageEncode (RpcEncode mp_codec MSG_S2G_RPC_ACCESS_REPORT
     [VStr (Namespace (cfg demo_a0) @ '':'' @ Service (cfg demo_a0)), access_map (clientAccess (rpcMgr demo_a0))]) = Inr m" "m \<noteq> []"
    using demo_a_report by blast
  then show ?thesis
    by (simp add: accept_conn_def M Let_def GetConnID_def RpcPermissionReport_def rpc_send_def MessageSend_def good_net_def)
qed


end
